theory Spec2Isabelle
  imports Complex_Main "HOL-Library.Multiset"
begin

section \<open>Values, rows and strings\<close>

text \<open>
  A cell of a pandas frame or of a Python dict built by the app: a missing value
  (\<open>None\<close> or NaN, which \<open>pd.isna\<close> does not distinguish), a float or a string.
  Floats are modelled by exact reals: rounding, overflow and infinities are not
  represented.
\<close>

datatype cell = Null | Num real | Str string

type_synonym row = "string \<rightharpoonup> cell"

text \<open>
  Exceptions of the Python code, as values. \<open>DivisionByZero\<close> is not a Python exception:
  it marks the place where numpy would divide a float by zero and write an infinity or
  NaN into the result.
\<close>

datatype error =
  KeyError string | ValueError string | TypeError string | RuntimeError string | DivisionByZero

definition bind_err :: "error + 'a \<Rightarrow> ('a \<Rightarrow> error + 'b) \<Rightarrow> error + 'b" where
  "bind_err m f = (case m of Inl e \<Rightarrow> Inl e | Inr x \<Rightarrow> f x)"

text \<open>\<open>d.get(k, None)\<close> on a dict of cells.\<close>

definition get :: "row \<Rightarrow> string \<Rightarrow> cell" where
  "get r k = (case r k of None \<Rightarrow> Null | Some v \<Rightarrow> v)"

text \<open>
  Python's \<open>float(txt)\<close> on a text is a parameter of the model: it gives \<open>None\<close> where
  \<open>float\<close> raises or yields NaN.
\<close>

type_synonym parser = "string \<Rightarrow> real option"

text \<open>
  \<open>str.strip()\<close> removes the characters for which \<open>str.isspace\<close> holds from both ends;
  below code point 256 these are 9-13, 28-32, 133 and 160.
\<close>

definition is_space :: "char \<Rightarrow> bool" where
  "is_space c =
     (let n = (of_char c :: nat)
      in (9 \<le> n \<and> n \<le> 13) \<or> (28 \<le> n \<and> n \<le> 32) \<or> n = 133 \<or> n = 160)"

definition strip :: "string \<Rightarrow> string" where
  "strip s = rev (dropWhile is_space (rev (dropWhile is_space s)))"

text \<open>\<open>str.upper()\<close> and \<open>str.lower()\<close> on ASCII text.\<close>

definition upper_char :: "char \<Rightarrow> char" where
  "upper_char c =
     (let n = (of_char c :: nat) in if 97 \<le> n \<and> n \<le> 122 then char_of (n - 32) else c)"

definition upper :: "string \<Rightarrow> string" where
  "upper s = map upper_char s"

definition lower_char :: "char \<Rightarrow> char" where
  "lower_char c =
     (let n = (of_char c :: nat) in if 65 \<le> n \<and> n \<le> 90 then char_of (n + 32) else c)"

definition lower :: "string \<Rightarrow> string" where
  "lower s = map lower_char s"

text \<open>\<open>needle in hay\<close> on strings.\<close>

fun starts_with :: "string \<Rightarrow> string \<Rightarrow> bool" where
  "starts_with [] hay = True"
| "starts_with (n # ns) [] = False"
| "starts_with (n # ns) (h # hs) = (n = h \<and> starts_with ns hs)"

fun contains :: "string \<Rightarrow> string \<Rightarrow> bool" where
  "contains needle [] = (needle = [])"
| "contains needle (h # hs) = (starts_with needle (h # hs) \<or> contains needle hs)"

section \<open>Sorting a table by a key order\<close>

text \<open>
  \<open>DataFrame.sort_values\<close> is modelled by a stable insertion sort along a
  "comes no later than" relation. The order pandas gives to rows with equal keys
  is not used by any result below.
\<close>

fun insort_by :: "('a \<Rightarrow> 'a \<Rightarrow> bool) \<Rightarrow> 'a \<Rightarrow> 'a list \<Rightarrow> 'a list" where
  "insort_by le x [] = [x]"
| "insort_by le x (y # ys) = (if le x y then x # y # ys else y # insort_by le x ys)"

definition sort_values :: "('a \<Rightarrow> 'a \<Rightarrow> bool) \<Rightarrow> 'a list \<Rightarrow> 'a list" where
  "sort_values le xs = foldr (insort_by le) xs []"

section \<open>aqua\_ml\_app.py: single-record inference, comparison and sweeps\<close>

text \<open>
  \<open>float(pipe.predict(frame)[0])\<close> on a one-row frame is a parameter: \<open>Inr y\<close> is the
  predicted value, \<open>Inl m\<close> an exception with message \<open>m\<close>.
\<close>

type_synonym predictor = "row \<Rightarrow> string + real"

text \<open>The keys of \<open>solute_params\<close>, in the dict's insertion order.\<close>

definition solute_params :: "string list" where
  "solute_params =
     [''APAP'', ''ASA'', ''BENZ'', ''CAF'', ''CIP'', ''CIT'', ''DCF'', ''FLX'', ''IBU'',
      ''MTZ'', ''NPX'', ''NOR'', ''OTC'', ''SA'', ''SDZ'', ''SMR'', ''SMT'', ''SMX'',
      ''TC'', ''CBZ'', ''PHE'']"

definition synthesis :: "string list" where
  "synthesis =
     [''Agent/Sample(g/g)'', ''Soaking_Time(min)'', ''Soaking_Temp(K)'',
      ''Activation_Time(min)'', ''Activation_Temp(K)'', ''Activation_Heating_Rate (K/min)'']"

definition adsorbent :: "string list" where
  "adsorbent =
     [''BET_Surface_Area(m2/g)'', ''Total_Pore_Volume(cm3/g)'', ''Micropore_Volume(cm3/g)'',
      ''Average_Pore_Diameter(nm)'', ''pHpzc'', ''C_percent'', ''H_percent'', ''O_percent'',
      ''N_percent'', ''S_percent'']"

text \<open>The list \<open>process\_\<close> of the source (a name ending in an underscore is not accepted here).\<close>

definition process_fields :: "string list" where
  "process_fields =
     [''Solution_pH'', ''Temperature(K)'', ''Initial_Concentration(mg/L)'',
      ''Dosage(g/L)'', ''Contact_Time(min)'', ''Agitation_speed(rpm)'']"

definition categorical :: "string list" where
  "categorical = [''Activation_Atmosphere'']"

definition target_phar :: "string list" where
  "target_phar = [''Target_Phar'']"

text \<open>\<open>_to_float_or_none\<close>: trim, decimal comma to point, empty text to \<open>None\<close>, else parse.\<close>

definition to_float_or_none :: "parser \<Rightarrow> string \<Rightarrow> cell" where
  "to_float_or_none pf txt =
     (let t = map (\<lambda>c. if c = CHR '','' then CHR ''.'' else c) (strip txt)
      in if t = [] then Null else (case pf t of Some x \<Rightarrow> Num x | None \<Rightarrow> Null))"

text \<open>
  The row built from the widget values on submit (the loop over all form fields):
  a text in a numeric field is converted, the two categorical fields are kept.
\<close>

definition build_row :: "parser \<Rightarrow> row \<Rightarrow> row" where
  "build_row pf vals k =
     (if k \<in> set (synthesis @ adsorbent @ process_fields @ categorical @ target_phar) then
        Some (case get vals k of
                Str s \<Rightarrow> if k \<notin> {''Target_Phar'', ''Activation_Atmosphere''}
                          then to_float_or_none pf s else Str s
              | v \<Rightarrow> v)
      else None)"

text \<open>Python truthiness of a cell, as used by \<open>if not vals.get(...)\<close>.\<close>

definition truthy :: "cell \<Rightarrow> bool" where
  "truthy v = (case v of Null \<Rightarrow> False | Num x \<Rightarrow> x \<noteq> 0 | Str s \<Rightarrow> s \<noteq> [])"

text \<open>One sweep loop: every other field of the base record is kept, the swept field is set.\<close>

definition sweep_row :: "row \<Rightarrow> cell \<Rightarrow> string \<Rightarrow> real \<Rightarrow> row" where
  "sweep_row base_params target field v = (base_params(''Target_Phar'' \<mapsto> target))(field \<mapsto> Num v)"

fun sweep_loop :: "predictor \<Rightarrow> row \<Rightarrow> cell \<Rightarrow> string \<Rightarrow> real list \<Rightarrow> (real \<times> real) list" where
  "sweep_loop pipe base_params target field [] = []"
| "sweep_loop pipe base_params target field (v # vs) =
     (case pipe (sweep_row base_params target field v) of
        Inr pred_qe \<Rightarrow> (v, pred_qe) # sweep_loop pipe base_params target field vs
      | Inl e \<Rightarrow> sweep_loop pipe base_params target field vs)"

definition ph_values :: "real list" where
  "ph_values = [2.0, 2.5, 3.0, 3.5, 4.0, 4.5, 5.0, 5.5, 6.0, 6.5, 7.0, 7.5, 8.0, 8.5, 9.0,
                9.5, 10.0, 10.5, 11.0, 11.5, 12.0]"

definition ph_results :: "predictor \<Rightarrow> row \<Rightarrow> cell \<Rightarrow> (real \<times> real) list" where
  "ph_results pipe base_params target = sweep_loop pipe base_params target ''Solution_pH'' ph_values"

text \<open>
  The comparison loop over the keys of \<open>solute_params\<close>. The display name comes from
  the drug map (a spreadsheet read at start-up), a parameter here: \<open>names code\<close> is the
  first display name of the rows with that code, \<open>None\<close> when there is no such row (the
  loop then shows the code itself). A failed prediction is reported as a warning and the
  code is left out.
\<close>

record comparison_entry =
  Drug_Code :: string
  Drug_Name :: string
  Predicted_qe :: real

datatype message =
    SelectDrug | SelectAtmosphere | MissingFields | PoreVolume
  | ComparisonFailed string | PredictMissing | PredictCategorical | PredictOther

datatype ui_event =
    UiError message | UiWarning message | UiInfo string | UiSuccess real
  | ComparisonChart "comparison_entry list" | SweepChart string "(real \<times> real) list"
  | UiStop | Uncaught string

definition comparison_row :: "row \<Rightarrow> string \<Rightarrow> row" where
  "comparison_row base_params drug_code = base_params(''Target_Phar'' \<mapsto> Str drug_code)"

fun comparison_loop ::
  "predictor \<Rightarrow> (string \<Rightarrow> string option) \<Rightarrow> row \<Rightarrow> string list \<Rightarrow> comparison_entry list \<times> ui_event list"
where
  "comparison_loop pipe names base_params [] = ([], [])"
| "comparison_loop pipe names base_params (drug_code # rest) =
     (let test_row = comparison_row base_params drug_code;
          (results, warnings) = comparison_loop pipe names base_params rest
      in case pipe test_row of
           Inr pred_qe \<Rightarrow>
             (\<lparr>Drug_Code = drug_code,
               Drug_Name = (case names drug_code of Some n \<Rightarrow> n | None \<Rightarrow> drug_code),
               Predicted_qe = pred_qe\<rparr> # results, warnings)
         | Inl e \<Rightarrow> (results, UiWarning (ComparisonFailed drug_code) # warnings))"

definition comparison_results :: "predictor \<Rightarrow> (string \<Rightarrow> string option) \<Rightarrow> row \<Rightarrow> comparison_entry list" where
  "comparison_results pipe names base_params = fst (comparison_loop pipe names base_params solute_params)"

text \<open>\<open>sort_values('Predicted_qe', ascending=False)\<close>.\<close>

definition comparison_df :: "predictor \<Rightarrow> (string \<Rightarrow> string option) \<Rightarrow> row \<Rightarrow> comparison_entry list" where
  "comparison_df pipe names base_params =
     sort_values (\<lambda>a b. Predicted_qe a \<ge> Predicted_qe b) (comparison_results pipe names base_params)"

text \<open>The other sweep grids of the page, in the order the page runs them.\<close>

definition agent_ratios :: "real list" where
  "agent_ratios = [0.1, 0.2, 0.3, 0.4, 0.5, 0.6, 0.7, 0.8, 0.9, 1.0, 1.2, 1.4, 1.6, 1.8, 2.0,
                   2.2, 2.4, 2.6, 2.8, 3.0, 3.2, 3.4, 3.6, 3.8, 4.0, 4.2, 4.4, 4.6, 4.8, 5.0,
                   5.5, 6.0, 6.5, 7.0, 7.5, 8.0, 8.5, 9.0, 9.5, 10.0]"

definition soaking_times :: "real list" where
  "soaking_times = [30, 45, 60, 75, 90, 105, 120, 135, 150, 165, 180, 195, 210, 225, 240, 255,
                    270, 285, 300, 315, 330, 345, 360, 375, 390, 405, 420, 435, 450, 465, 480,
                    495, 510, 525, 540, 600, 720, 900, 1200, 1500, 1800, 2000]"

definition activation_times :: "real list" where
  "activation_times = [30, 45, 60, 75, 90, 105, 120, 150, 180, 210, 240, 270, 300, 330, 360]"

definition activation_temps :: "real list" where
  "activation_temps = [550, 575, 600, 625, 650, 675, 700, 725, 750, 775, 800, 825, 850, 875,
                       900, 925, 950, 975, 1000, 1025, 1050, 1075, 1100, 1125, 1150, 1175, 1200]"

definition concentrations :: "real list" where
  "concentrations = [50, 100, 150, 200, 250, 300, 350, 400, 450, 500, 600, 700, 800, 900, 1000,
                     1200, 1400, 1600, 1800, 2000, 2200, 2400, 2600, 2800, 3000]"

definition temperatures :: "real list" where
  "temperatures = [290, 295, 300, 305, 310, 315, 320, 325, 330, 335, 340]"

definition dosages :: "real list" where
  "dosages = [0.5, 1.0, 1.5, 2.0, 2.5, 3.0, 3.5, 4.0, 4.5, 5.0, 6.0, 7.0, 8.0, 9.0, 10.0, 11.0,
              12.0, 13.0, 14.0, 15.0, 16.0, 17.0, 18.0, 19.0, 20.0]"

definition contact_times :: "real list" where
  "contact_times = [10, 20, 30, 40, 50, 60, 80, 100, 120, 140, 160, 180, 200, 220, 240, 260,
                    280, 300, 320, 340, 360, 380, 400, 420, 440, 460, 480, 500, 600, 720, 900,
                    1200, 1500, 1800, 2400, 3000, 3600, 4200, 4800, 5400, 6000]"

definition sweeps :: "(string \<times> real list) list" where
  "sweeps =
     [(''Agent/Sample(g/g)'', agent_ratios), (''Soaking_Time(min)'', soaking_times),
      (''Activation_Time(min)'', activation_times), (''Activation_Temp(K)'', activation_temps),
      (''Initial_Concentration(mg/L)'', concentrations), (''Temperature(K)'', temperatures),
      (''Solution_pH'', ph_values), (''Dosage(g/L)'', dosages),
      (''Contact_Time(min)'', contact_times)]"

text \<open>A chart is drawn only for a non-empty result list.\<close>

definition sweep_chart :: "predictor \<Rightarrow> row \<Rightarrow> cell \<Rightarrow> string \<times> real list \<Rightarrow> ui_event list" where
  "sweep_chart pipe base_params target sw =
     (let results = sweep_loop pipe base_params target (fst sw) (snd sw)
      in if results = [] then [] else [SweepChart (fst sw) results])"

text \<open>The message shown when the first prediction raises, chosen from the exception text.\<close>

definition classify :: "string \<Rightarrow> message" where
  "classify error_msg =
     (if contains ''NaN'' error_msg \<or> contains ''missing'' (lower error_msg)
         \<or> contains ''nan'' (lower error_msg) then PredictMissing
      else if contains ''cat_feature'' (lower error_msg)
         \<or> contains ''categorical'' (lower error_msg) then PredictCategorical
      else PredictOther)"

text \<open>The check of the two pore volumes of the submitted row.\<close>

definition pore_violation :: "row \<Rightarrow> bool" where
  "pore_violation r =
     (case get r ''Total_Pore_Volume(cm3/g)'' of
        Num total_pore \<Rightarrow>
          (case get r ''Micropore_Volume(cm3/g)'' of
             Num micro_pore \<Rightarrow> micro_pore > total_pore
           | _ \<Rightarrow> False)
      | _ \<Rightarrow> False)"

text \<open>The \<open>try\<close> block of the handler: first prediction, comparison, sweeps.\<close>

definition predict_block ::
  "predictor \<Rightarrow> (string \<Rightarrow> string option) \<Rightarrow> row \<Rightarrow> row \<Rightarrow> cell \<Rightarrow> ui_event list" where
  "predict_block pipe names r base_params target =
     (case pipe r of
        Inl error_msg \<Rightarrow> [UiError (classify error_msg)]
      | Inr yhat \<Rightarrow>
          UiSuccess yhat
            # snd (comparison_loop pipe names base_params solute_params)
            @ (if comparison_results pipe names base_params = [] then []
               else [ComparisonChart (comparison_df pipe names base_params)])
            @ concat (map (sweep_chart pipe base_params target) sweeps))"

text \<open>
  The handler run when the form is submitted, as the list of what it shows.
  \<open>st.stop()\<close> ends the run: nothing after \<open>UiStop\<close> is executed. The display name of
  the selected code is read with \<open>.iloc[0]\<close> outside the \<open>try\<close> block, so a code without
  a row in the drug map ends the run with an uncaught \<open>IndexError\<close>.
\<close>

definition single_entry :: "parser \<Rightarrow> predictor \<Rightarrow> (string \<Rightarrow> string option) \<Rightarrow> row \<Rightarrow> ui_event list" where
  "single_entry pf pipe names vals =
     (let r = build_row pf vals;
          base_params = r(''Target_Phar'' := None)
      in if \<not> truthy (get vals ''Target_Phar'') then [UiError SelectDrug, UiStop]
         else if \<not> truthy (get vals ''Activation_Atmosphere'') then [UiError SelectAtmosphere, UiStop]
         else
           (if \<exists>k \<in> set (synthesis @ adsorbent @ process_fields). get r k = Null
            then [UiWarning MissingFields] else [])
           @ (if pore_violation r then [UiError PoreVolume, UiStop]
              else
                (case (case get vals ''Target_Phar'' of Str code \<Rightarrow> names code | _ \<Rightarrow> None) of
                   None \<Rightarrow> [Uncaught ''IndexError'']
                 | Some selected_display \<Rightarrow>
                     UiInfo selected_display
                       # predict_block pipe names r base_params (get vals ''Target_Phar''))))"

section \<open>Frames\<close>

text \<open>
  A pandas frame: its column labels in order and its rows, each row a map from label
  to cell. The embedding covers frames whose labels are pairwise distinct.
\<close>

record frame =
  columns :: "string list"
  rows :: "row list"

text \<open>\<open>pd.to_numeric(series, errors="coerce")\<close> on one cell, with pandas' parser of numeric text.\<close>

definition to_numeric :: "parser \<Rightarrow> cell \<Rightarrow> cell" where
  "to_numeric pn v =
     (case v of Null \<Rightarrow> Null | Num x \<Rightarrow> Num x
      | Str s \<Rightarrow> (case pn s of Some x \<Rightarrow> Num x | None \<Rightarrow> Null))"

text \<open>\<open>df[c] = series\<close>, the series given row by row; a new label is appended.\<close>

definition set_col :: "string \<Rightarrow> (row \<Rightarrow> cell) \<Rightarrow> frame \<Rightarrow> frame" where
  "set_col c f df =
     \<lparr>columns = (if c \<in> set (columns df) then columns df else columns df @ [c]),
      rows = map (\<lambda>r. r(c \<mapsto> f r)) (rows df)\<rparr>"

text \<open>\<open>df.drop(columns=[c])\<close> for a label that is present, or with \<open>errors="ignore"\<close>.\<close>

definition drop_col :: "string \<Rightarrow> frame \<Rightarrow> frame" where
  "drop_col c df = \<lparr>columns = removeAll c (columns df), rows = map (\<lambda>r. r(c := None)) (rows df)\<rparr>"

text \<open>
  \<open>df.loc[mask, c] = values\<close>, the values computed row by row on the rows of the mask
  only. A row outside the mask keeps its cell; for a new label that cell is NaN.
  A value that divides by zero is reported.
\<close>

definition loc_assign :: "(row \<Rightarrow> bool) \<Rightarrow> string \<Rightarrow> (row \<Rightarrow> error + cell) \<Rightarrow> frame \<Rightarrow> error + frame" where
  "loc_assign msk c f df =
     (case List.find (\<lambda>r. msk r \<and> isl (f r)) (rows df) of
        Some r \<Rightarrow> Inl (projl (f r))
      | None \<Rightarrow>
          Inr \<lparr>columns = (if c \<in> set (columns df) then columns df else columns df @ [c]),
               rows = map (\<lambda>r. r(c \<mapsto> (if msk r then projr (f r)
                                         else if c \<in> set (columns df) then get r c else Null)))
                        (rows df)\<rparr>)"

text \<open>
  \<open>left.merge(right, on=key, how="left")\<close>: every left row, in order, once for each
  right row with the same key, and once with NaN in the right columns when there is
  none. Frames that share a label other than the key are outside the embedding (pandas
  renames those labels with suffixes).
\<close>

definition merge_left :: "string \<Rightarrow> frame \<Rightarrow> frame \<Rightarrow> frame" where
  "merge_left key left right =
     \<lparr>columns = columns left @ filter (\<lambda>c. c \<noteq> key) (columns right),
      rows = concat (map (\<lambda>l.
               case filter (\<lambda>r. r key = l key) (rows right) of
                 [] \<Rightarrow> [l ++ (\<lambda>c. if c \<in> set (columns right) \<and> c \<noteq> key then Some Null else None)]
               | ms \<Rightarrow> map (\<lambda>r. l ++ r(key := None)) ms) (rows left))\<rparr>"

text \<open>
  \<open>df.columns = df.columns.astype(str).str.strip()\<close>: every label is trimmed; a cell is
  found under the trimmed label of its column.
\<close>

definition strip_columns :: "frame \<Rightarrow> frame" where
  "strip_columns df =
     \<lparr>columns = map strip (columns df),
      rows = map (\<lambda>r k. case filter (\<lambda>c. strip c = k) (columns df) of
                            [] \<Rightarrow> None | c # cs \<Rightarrow> r c) (rows df)\<rparr>"

text \<open>\<open>df[use_cols]\<close>: the frame of the listed columns.\<close>

definition select_cols :: "string list \<Rightarrow> frame \<Rightarrow> frame" where
  "select_cols use_cols df =
     \<lparr>columns = use_cols, rows = map (\<lambda>r. r |` set use_cols) (rows df)\<rparr>"

section \<open>src/features.py: descriptor join and elemental ratios\<close>

text \<open>The reference table \<open>_pharm_data\<close>: code, E, S, A, B, V.\<close>

definition pharm_data :: "(string \<times> real \<times> real \<times> real \<times> real \<times> real) list" where
  "pharm_data =
     [(''PHE'',  0.85, 0.95, 0.30, 0.78, 1.1156),
      (''APAP'', 1.06, 1.63, 1.04, 0.86, 1.1724),
      (''ASA'',  0.78, 1.69, 0.71, 0.67, 1.2879),
      (''BENZ'', 1.03, 1.31, 0.31, 0.69, 1.3133),
      (''CAF'',  1.50, 1.72, 0.05, 1.28, 1.3632),
      (''CIP'',  2.20, 2.34, 0.70, 2.52, 2.3040),
      (''CIT'',  1.83, 1.99, 0.00, 1.53, 2.5328),
      (''DCF'',  1.81, 1.85, 0.55, 0.77, 2.0250),
      (''FLX'',  1.23, 1.30, 0.12, 1.03, 2.2403),
      (''IBU'',  0.73, 0.70, 0.56, 0.79, 1.7771),
      (''MTZ'',  1.12, 1.79, 0.37, 1.04, 1.1919),
      (''NPX'',  1.51, 2.02, 0.60, 0.67, 1.7821),
      (''NOR'',  1.98, 2.50, 0.05, 2.39, 2.2724),
      (''OTC'',  3.60, 3.05, 1.65, 3.50, 3.1579),
      (''SA'',   0.90, 0.85, 0.73, 0.37, 0.9904),
      (''SDZ'',  2.08, 2.55, 0.65, 1.37, 1.7225),
      (''SMR'',  2.10, 2.65, 0.65, 1.42, 1.8634),
      (''SMT'',  2.13, 2.53, 0.59, 1.53, 2.0043),
      (''SMX'',  1.89, 2.23, 0.58, 1.29, 1.7244),
      (''TC'',   3.50, 3.60, 1.35, 3.29, 3.0992),
      (''CBZ'',  2.15, 1.90, 0.50, 1.15, 1.8106)]"

definition map_cols :: "string list" where
  "map_cols = [''E'', ''S'', ''A'', ''B'', ''V'']"

definition tmp_map :: "string \<Rightarrow> string" where
  "tmp_map c = ''__map_'' @ c"

text \<open>
  \<open>_pharm_df\<close> with its column \<open>pharm_code_norm\<close> (the code, trimmed and in upper case)
  in front, and \<open>pharm_merge\<close>: that key column and the five descriptor columns under
  their temporary labels.
\<close>

definition pharm_df :: "(string \<times> real \<times> real \<times> real \<times> real \<times> real) list" where
  "pharm_df = map (\<lambda>(code, d). (upper (strip code), d)) pharm_data"

definition pharm_merge_row :: "string \<times> real \<times> real \<times> real \<times> real \<times> real \<Rightarrow> row" where
  "pharm_merge_row = (\<lambda>(k, e, s, a, b, v).
     [''pharm_code_norm'' \<mapsto> Str k,
      tmp_map ''E'' \<mapsto> Num e, tmp_map ''S'' \<mapsto> Num s, tmp_map ''A'' \<mapsto> Num a,
      tmp_map ''B'' \<mapsto> Num b, tmp_map ''V'' \<mapsto> Num v])"

definition pharm_merge :: frame where
  "pharm_merge =
     \<lparr>columns = ''pharm_code_norm'' # map tmp_map map_cols,
      rows = map pharm_merge_row pharm_df\<rparr>"

text \<open>
  \<open>series.astype(str)\<close> on one cell; the text of a float is Python's, a parameter.
  A missing value becomes the text \<open>nan\<close> (\<open>None\<close> for a Python \<open>None\<close>; neither is a code
  of the table, also in upper case).
\<close>

definition astype_str :: "(real \<Rightarrow> string) \<Rightarrow> cell \<Rightarrow> string" where
  "astype_str fmt v = (case v of Null \<Rightarrow> ''nan'' | Num x \<Rightarrow> fmt x | Str s \<Rightarrow> s)"

text \<open>The normalized code of a row: \<open>df["Target_Phar"].astype(str).str.strip().str.upper()\<close>.\<close>

definition code_norm :: "(real \<Rightarrow> string) \<Rightarrow> row \<Rightarrow> string" where
  "code_norm fmt r = upper (strip (astype_str fmt (get r ''Target_Phar'')))"

definition add_pharm_features :: "(real \<Rightarrow> string) \<Rightarrow> frame \<Rightarrow> error + frame" where
  "add_pharm_features fmt df =
     (if ''Target_Phar'' \<notin> set (columns df) then Inl (KeyError ''Target_Phar'')
      else Inr (merge_left ''pharm_code_norm''
                  (set_col ''pharm_code_norm'' (\<lambda>r. Str (code_norm fmt r)) df)
                  pharm_merge))"

text \<open>\<open>series.fillna(other)\<close> on one cell.\<close>

definition fillna :: "cell \<Rightarrow> cell \<Rightarrow> cell" where
  "fillna v other = (case v of Null \<Rightarrow> other | _ \<Rightarrow> v)"

text \<open>One round of the first loop of \<open>clean_pharm_features\<close>.\<close>

definition clean_step :: "parser \<Rightarrow> string \<Rightarrow> frame \<Rightarrow> frame" where
  "clean_step pn c df =
     (let tmpc = tmp_map c
      in if tmpc \<notin> set (columns df) then df
         else drop_col tmpc
                (if c \<in> set (columns df)
                 then set_col c (\<lambda>r. fillna (to_numeric pn (get r c)) (get r tmpc)) df
                 else set_col c (\<lambda>r. get r tmpc) df))"

definition coerce_col :: "parser \<Rightarrow> string \<Rightarrow> frame \<Rightarrow> frame" where
  "coerce_col pn c df =
     (if c \<in> set (columns df) then set_col c (\<lambda>r. to_numeric pn (get r c)) df else df)"

definition clean_pharm_features :: "parser \<Rightarrow> string list \<Rightarrow> frame \<Rightarrow> frame" where
  "clean_pharm_features pn mcols df =
     fold (coerce_col pn) mcols (drop_col ''pharm_code_norm'' (fold (clean_step pn) mcols df))"

text \<open>
  The two join steps in the order \<open>DomainFE.transform\<close> runs them, the reference row of
  a normalized code, and the value of one descriptor of a reference row.
\<close>

definition join_descriptors :: "parser \<Rightarrow> (real \<Rightarrow> string) \<Rightarrow> frame \<Rightarrow> error + frame" where
  "join_descriptors pn fmt df =
     bind_err (add_pharm_features fmt df) (\<lambda>df. Inr (clean_pharm_features pn map_cols df))"

definition pharm_lookup :: "string \<Rightarrow> (real \<times> real \<times> real \<times> real \<times> real) option" where
  "pharm_lookup k = map_of pharm_df k"

definition descriptor :: "string \<Rightarrow> real \<times> real \<times> real \<times> real \<times> real \<Rightarrow> real" where
  "descriptor c = (\<lambda>(e, s, a, b, v).
     if c = ''E'' then e else if c = ''S'' then s else if c = ''A'' then a
     else if c = ''B'' then b else v)"

text \<open>
  The row the left merge gives for one row of the frame: the row with its normalized
  code, and the temporary columns from the reference row of that code, or NaN in them
  when the table has no such code.
\<close>

definition joined_row :: "(real \<Rightarrow> string) \<Rightarrow> row \<Rightarrow> row" where
  "joined_row fmt r =
     (let l = r(''pharm_code_norm'' \<mapsto> Str (code_norm fmt r))
      in case pharm_lookup (code_norm fmt r) of
           None \<Rightarrow> l ++ (\<lambda>c. if c \<in> set (columns pharm_merge) \<and> c \<noteq> ''pharm_code_norm''
                             then Some Null else None)
         | Some d \<Rightarrow> l ++ (pharm_merge_row (code_norm fmt r, d))(''pharm_code_norm'' := None))"

text \<open>
  Examples for the join: a float format for frames whose codes are all text, a frame
  with a code to be trimmed and an unknown code, and a frame that supplies its own E.
\<close>

definition no_floats :: "real \<Rightarrow> string" where
  "no_floats x = []"

definition join_example :: frame where
  "join_example =
     \<lparr>columns = [''Target_Phar''],
      rows = [[''Target_Phar'' \<mapsto> Str '' cip ''], [''Target_Phar'' \<mapsto> Str ''XYZ'']]\<rparr>"

definition supplied_descriptor_example :: frame where
  "supplied_descriptor_example =
     \<lparr>columns = [''Target_Phar'', ''E''],
      rows = [[''Target_Phar'' \<mapsto> Str ''CIP'', ''E'' \<mapsto> Num 9.9]]\<rparr>"

text \<open>Atomic weights \<open>aw\<close> (g/mol).\<close>

definition aw :: "string \<Rightarrow> real" where
  "aw el = (if el = ''C'' then 12.011 else if el = ''H'' then 1.008 else if el = ''O'' then 15.999
            else if el = ''N'' then 14.007 else 32.06)"

text \<open>
  The float in a numeric cell (\<open>None\<close> for NaN), and float division as numpy does it on
  a series: NaN in, NaN out; a zero divisor is reported. The quotient is the exact one.
  In float64 a quotient can round to zero (a carbon percentage of 5e-324 divided by
  12.011 is 0.0, and the ratio over it an infinity or NaN); the embedding does not
  represent this, so a result below that is a frame does not show that the source
  never divides by zero.
\<close>

definition as_float :: "cell \<Rightarrow> real option" where
  "as_float v = (case v of Num x \<Rightarrow> Some x | _ \<Rightarrow> None)"

definition of_float :: "real option \<Rightarrow> cell" where
  "of_float x = (case x of None \<Rightarrow> Null | Some y \<Rightarrow> Num y)"

definition np_div :: "real option \<Rightarrow> real option \<Rightarrow> error + real option" where
  "np_div x y =
     (case (x, y) of
        (Some a, Some b) \<Rightarrow> if b = 0 then Inl DivisionByZero else Inr (Some (a / b))
      | _ \<Rightarrow> Inr None)"

text \<open>\<open>maskC = df[C].notna() & (df[C] > 0)\<close> and \<open>denom = df.loc[maskC, C] / aw["C"]\<close>.\<close>

definition maskC :: "row \<Rightarrow> bool" where
  "maskC r = (case get r ''C_percent'' of Num x \<Rightarrow> x > 0 | _ \<Rightarrow> False)"

definition denom :: "row \<Rightarrow> real option" where
  "denom r = map_option (\<lambda>x. x / aw ''C'') (as_float (get r ''C_percent''))"

text \<open>\<open>(df.loc[maskC, col] / aw[el]) / denom\<close> on one row.\<close>

definition molar_ratio :: "string \<Rightarrow> string \<Rightarrow> row \<Rightarrow> error + cell" where
  "molar_ratio col el r =
     map_sum id of_float (np_div (map_option (\<lambda>x. x / aw el) (as_float (get r col))) (denom r))"

definition ratio_step :: "string \<Rightarrow> string \<Rightarrow> string \<Rightarrow> frame \<Rightarrow> error + frame" where
  "ratio_step col el out df =
     (if col \<in> set (columns df) then loc_assign maskC out (molar_ratio col el) df else Inr df)"

text \<open>The last loop: coerce, then \<open>df.loc[df[r] < 0, r] = 0\<close>.\<close>

definition clamp_negative :: "parser \<Rightarrow> cell \<Rightarrow> cell" where
  "clamp_negative pn v = (case to_numeric pn v of Num x \<Rightarrow> if x < 0 then Num 0 else Num x | w \<Rightarrow> w)"

definition clamp_col :: "parser \<Rightarrow> string \<Rightarrow> frame \<Rightarrow> frame" where
  "clamp_col pn r df =
     (if r \<in> set (columns df) then set_col r (\<lambda>rw. clamp_negative pn (get rw r)) df else df)"

text \<open>
  The four ratio statements in the order of the source; \<open>ratio_steps\<close> runs such a list,
  which is how the results below go through them.
\<close>

definition elements :: "(string \<times> string \<times> string) list" where
  "elements =
     [(''H_percent'', ''H'', ''H_C_molar''), (''O_percent'', ''O'', ''O_C_molar''),
      (''N_percent'', ''N'', ''N_C_molar''), (''S_percent'', ''S'', ''S_C_molar'')]"

fun ratio_steps :: "(string \<times> string \<times> string) list \<Rightarrow> frame \<Rightarrow> error + frame" where
  "ratio_steps [] df = Inr df"
| "ratio_steps ((col, el, out) # rest) df = bind_err (ratio_step col el out df) (ratio_steps rest)"

definition ratio_cols :: "string list" where
  "ratio_cols = [''C_molar'', ''H_C_molar'', ''O_C_molar'', ''N_C_molar'', ''S_C_molar'']"

definition add_elemental_ratios :: "parser \<Rightarrow> frame \<Rightarrow> error + frame" where
  "add_elemental_ratios pn df0 =
     (let df = fold (coerce_col pn)
                 [''C_percent'', ''O_percent'', ''H_percent'', ''N_percent'', ''S_percent''] df0
      in if ''C_percent'' \<in> set (columns df) then
           bind_err (loc_assign maskC ''C_molar'' (\<lambda>r. Inr (of_float (denom r))) df) (\<lambda>df.
           bind_err (ratio_step ''H_percent'' ''H'' ''H_C_molar'' df) (\<lambda>df.
           bind_err (ratio_step ''O_percent'' ''O'' ''O_C_molar'' df) (\<lambda>df.
           bind_err (ratio_step ''N_percent'' ''N'' ''N_C_molar'' df) (\<lambda>df.
           bind_err (ratio_step ''S_percent'' ''S'' ''S_C_molar'' df) (\<lambda>df.
           Inr (fold (clamp_col pn) ratio_cols df))))))
         else Inr df)"

text \<open>
  Reading one cell of a result, a parser for frames without numeric text, and two
  small frames used as examples below: a negative hydrogen percentage, and a row
  without carbon that already carries a ratio.
\<close>

definition out_cell :: "error + frame \<Rightarrow> nat \<Rightarrow> string \<Rightarrow> error + cell" where
  "out_cell res i c = map_sum id (\<lambda>df. get (rows df ! i) c) res"

definition no_text :: parser where
  "no_text s = None"


definition carried_ratio_example :: frame where
  "carried_ratio_example =
     \<lparr>columns = [''C_percent'', ''H_percent'', ''H_C_molar''],
      rows = [[''C_percent'' \<mapsto> Num 0, ''H_percent'' \<mapsto> Num 2, ''H_C_molar'' \<mapsto> Num 0.5]]\<rparr>"

section \<open>src/preprocessing.py: the feature lists and the train/test split\<close>

definition TEST_SIZE :: real where
  "TEST_SIZE = 0.2"

definition num_feats_all :: "string list" where
  "num_feats_all =
     [''Agent/Sample(g/g)'', ''Soaking_Time(min)'', ''Soaking_Temp(K)'',
      ''Activation_Time(min)'', ''Activation_Temp(K)'', ''Activation_Heating_Rate (K/min)'',
      ''BET_Surface_Area(m2/g)'', ''Total_Pore_Volume(cm3/g)'', ''Micropore_Volume(cm3/g)'',
      ''Average_Pore_Diameter(nm)'', ''pHpzc'',
      ''C_molar'', ''H_C_molar'', ''O_C_molar'', ''N_C_molar'', ''S_C_molar'',
      ''Initial_Concentration(mg/L)'', ''Solution_pH'', ''Temperature(K)'',
      ''Agitation_speed(rpm)'', ''Dosage(g/L)'', ''Contact_Time(min)'',
      ''E'', ''S'', ''A'', ''B'', ''V'']"

text \<open>
  \<open>train_test_split(X, y, test_size=TEST_SIZE, random_state=RANDOM_STATE)\<close> of
  scikit-learn: the test part has \<open>ceil(test_size * n)\<close> rows, the train part the rest,
  and an empty train part is a \<open>ValueError\<close>. The shuffle of the \<open>n\<close> row numbers that
  the seed gives is a parameter \<open>perm\<close>; the test rows are its first entries. The
  product is taken in exact arithmetic here (in floating point the test part can be
  one row larger for some \<open>n\<close>, never for \<open>n < 2\<close>).
\<close>

definition n_test :: "nat \<Rightarrow> nat" where
  "n_test n = nat \<lceil>TEST_SIZE * real n\<rceil>"

definition train_test_split ::
  "(nat \<Rightarrow> nat list) \<Rightarrow> 'a list \<Rightarrow> error + 'a list \<times> 'a list" where
  "train_test_split perm xs =
     (let n = length xs; n_train = n - n_test n
      in if n_train = 0 then Inl (ValueError ''the resulting train set will be empty'')
         else Inr (map ((!) xs) (take n_train (drop (n_test n) (perm n))),
                   map ((!) xs) (take (n_test n) (perm n))))"

record ml_data =
  X_train :: "row list"
  X_test :: "row list"
  y_train :: "cell list"
  y_test :: "cell list"
  num_feats :: "string list"
  cat_feats :: "string list"
  cat_idx_raw :: "nat list"
  missing_feats :: "string list"

text \<open>
  \<open>prepare_ml_data\<close>. The labels are trimmed first. A numeric feature or target label
  that then occurs twice makes \<open>df[c]\<close> a frame, on which \<open>pd.to_numeric\<close> raises
  \<open>TypeError\<close>. The features missing from the table are only printed: they are the
  field \<open>missing_feats\<close> of the result. The encoder objects built at the end do not
  depend on the data and are left out.
\<close>

definition prepare_ml_data ::
  "parser \<Rightarrow> (nat \<Rightarrow> nat list) \<Rightarrow> string \<Rightarrow> frame \<Rightarrow> error + ml_data" where
  "prepare_ml_data pn perm target_col df0 =
     (let df = strip_columns df0
      in if target_col \<notin> set (columns df) then Inl (KeyError target_col)
         else
           (let nums = filter (\<lambda>c. c \<in> set (columns df)) num_feats_all;
                missing = filter (\<lambda>c. c \<notin> set (columns df)) num_feats_all;
                cats = (if ''Activation_Atmosphere'' \<in> set (columns df)
                        then [''Activation_Atmosphere''] else [])
            in if nums = [] \<and> cats = [] then Inl (ValueError ''num_feats, cat_feats'')
               else if \<exists>c \<in> set (nums @ [target_col]). count_list (columns df) c > 1
               then Inl (TypeError ''arg must be a list, tuple, 1-d array, or Series'')
               else
                 (let df = fold (coerce_col pn) (nums @ [target_col]) df;
                      X = select_cols (nums @ cats) df;
                      y = map (\<lambda>r. get r target_col) (rows df)
                  in case train_test_split perm (zip (rows X) y) of
                       Inl e \<Rightarrow> Inl e
                     | Inr (train, test) \<Rightarrow>
                         Inr \<lparr>X_train = map fst train, X_test = map fst test,
                              y_train = map snd train, y_test = map snd test,
                              num_feats = nums, cat_feats = cats,
                              cat_idx_raw = map (\<lambda>c. length (takeWhile (\<lambda>x. x \<noteq> c) (nums @ cats))) cats,
                              missing_feats = missing\<rparr>)))"

text \<open>Examples: the shuffle that changes nothing, and a table of one row.\<close>

definition no_shuffle :: "nat \<Rightarrow> nat list" where
  "no_shuffle n = [0..<n]"

definition one_row_example :: frame where
  "one_row_example =
     \<lparr>columns = [''pHpzc'', ''qe(mg/g)''],
      rows = [[''pHpzc'' \<mapsto> Num 7, ''qe(mg/g)'' \<mapsto> Num 120]]\<rparr>"

definition two_row_example :: frame where
  "two_row_example =
     \<lparr>columns = ['' pHpzc'', ''qe(mg/g) ''],
      rows = [['' pHpzc'' \<mapsto> Num 7, ''qe(mg/g) '' \<mapsto> Num 120],
              ['' pHpzc'' \<mapsto> Num 6, ''qe(mg/g) '' \<mapsto> Str ''n/a'']]\<rparr>"

section \<open>src/preprocessing.py: DomainFE.transform on a store of frame objects\<close>

text \<open>
  To see what a call changes, the frames are placed in a store: a frame object is known
  by its address, the store lists the objects by address, and a variable of the code
  holds an address. A statement that makes a frame (\<open>copy\<close>, \<open>merge\<close>, \<open>rename\<close>,
  \<open>df[[...]]\<close>) adds an object; \<open>df[c] = ...\<close>, \<open>df.loc[...] = ...\<close>,
  \<open>df.columns = ...\<close> and \<open>drop(..., inplace=True)\<close> change the object that \<open>df\<close> names.
  The store also keeps the lines printed so far. An address handed to the code is that
  of an object of the store.
\<close>

type_synonym addr = nat

datatype notice = MissingColumn string | NoCarbon nat

record store =
  heap :: "frame list"
  printed :: "notice list"

type_synonym 'a run = "store \<Rightarrow> (error + 'a) \<times> store"

definition ret :: "'a \<Rightarrow> 'a run" where
  "ret x s = (Inr x, s)"

definition raise :: "error \<Rightarrow> 'a run" where
  "raise e s = (Inl e, s)"

definition then_run :: "'a run \<Rightarrow> ('a \<Rightarrow> 'b run) \<Rightarrow> 'b run" where
  "then_run m k s = (case m s of (Inl e, s') \<Rightarrow> (Inl e, s') | (Inr x, s') \<Rightarrow> k x s')"

fun for_each :: "'a list \<Rightarrow> ('a \<Rightarrow> unit run) \<Rightarrow> unit run" where
  "for_each [] body = ret ()"
| "for_each (x # xs) body = then_run (body x) (\<lambda>_. for_each xs body)"

text \<open>Reading an object, making a new one, changing one in place, printing a line.\<close>

definition look :: "addr \<Rightarrow> (frame \<Rightarrow> 'a) \<Rightarrow> 'a run" where
  "look d f s = (Inr (f (heap s ! d)), s)"

definition new :: "frame \<Rightarrow> addr run" where
  "new f s = (Inr (length (heap s)), s\<lparr>heap := heap s @ [f]\<rparr>)"

definition derive :: "addr \<Rightarrow> (frame \<Rightarrow> frame) \<Rightarrow> addr run" where
  "derive d f = then_run (look d f) new"

definition assign :: "addr \<Rightarrow> (frame \<Rightarrow> frame) \<Rightarrow> unit run" where
  "assign d f s = (Inr (), s\<lparr>heap := (heap s)[d := f (heap s ! d)]\<rparr>)"

definition assign_err :: "addr \<Rightarrow> (frame \<Rightarrow> error + frame) \<Rightarrow> unit run" where
  "assign_err d f s =
     (case f (heap s ! d) of
        Inl e \<Rightarrow> (Inl e, s)
      | Inr v \<Rightarrow> (Inr (), s\<lparr>heap := (heap s)[d := v]\<rparr>))"

definition print :: "notice \<Rightarrow> unit run" where
  "print n s = (Inr (), s\<lparr>printed := printed s @ [n]\<rparr>)"

text \<open>
  The module-level table \<open>_pharm_df\<close> is an object of the store as well. This is its
  value after the module is loaded.
\<close>

definition pharm_frame_row :: "string \<times> real \<times> real \<times> real \<times> real \<times> real \<Rightarrow> row" where
  "pharm_frame_row = (\<lambda>(code, e, s, a, b, v).
     [''Pharmaceutical_code'' \<mapsto> Str code,
      ''E'' \<mapsto> Num e, ''S'' \<mapsto> Num s, ''A'' \<mapsto> Num a, ''B'' \<mapsto> Num b, ''V'' \<mapsto> Num v,
      ''pharm_code_norm'' \<mapsto> Str (upper (strip code))])"

definition pharm_frame :: frame where
  "pharm_frame =
     \<lparr>columns = [''Pharmaceutical_code'', ''E'', ''S'', ''A'', ''B'', ''V'', ''pharm_code_norm''],
      rows = map pharm_frame_row pharm_data\<rparr>"

text \<open>\<open>df.rename(columns=d)\<close> with a dict \<open>d\<close>: a label that is not a key of \<open>d\<close> stays.\<close>

definition rename_label :: "(string \<rightharpoonup> string) \<Rightarrow> string \<Rightarrow> string" where
  "rename_label d c = (case d c of None \<Rightarrow> c | Some c' \<Rightarrow> c')"

definition rename_cols :: "(string \<rightharpoonup> string) \<Rightarrow> frame \<Rightarrow> frame" where
  "rename_cols d df =
     \<lparr>columns = map (rename_label d) (columns df),
      rows = map (\<lambda>r k. case filter (\<lambda>c. rename_label d c = k) (columns df) of
                            [] \<Rightarrow> None | c # cs \<Rightarrow> r c) (rows df)\<rparr>"

definition tmp_map_dict :: "string \<rightharpoonup> string" where
  "tmp_map_dict = map_of (map (\<lambda>c. (c, tmp_map c)) map_cols)"

text \<open>
  \<open>add_pharm_features\<close>, statement by statement; \<open>g\<close> is the address of \<open>_pharm_df\<close>.
\<close>

definition add_pharm_features_st :: "(real \<Rightarrow> string) \<Rightarrow> addr \<Rightarrow> addr \<Rightarrow> addr run" where
  "add_pharm_features_st fmt g a =
     then_run (derive a id) (\<lambda>df.
     then_run (look df (\<lambda>f. ''Target_Phar'' \<in> set (columns f))) (\<lambda>present.
       if \<not> present then raise (KeyError ''Target_Phar'')
       else
         then_run (assign df (set_col ''pharm_code_norm'' (\<lambda>r. Str (code_norm fmt r)))) (\<lambda>_.
         then_run (derive g (select_cols (''pharm_code_norm'' # map_cols))) (\<lambda>sel.
         then_run (derive sel (rename_cols tmp_map_dict)) (\<lambda>pharm_merge.
         then_run (look pharm_merge id) (\<lambda>right.
         derive df (\<lambda>left. merge_left ''pharm_code_norm'' left right)))))))"

text \<open>
  \<open>clean_pharm_features\<close>: every statement after the copy works on the copy, in place.
\<close>

definition clean_pharm_features_st :: "parser \<Rightarrow> string list \<Rightarrow> addr \<Rightarrow> addr run" where
  "clean_pharm_features_st pn mcols a =
     then_run (derive a id) (\<lambda>df.
     then_run (for_each mcols (\<lambda>c. assign df (clean_step pn c))) (\<lambda>_.
     then_run (assign df (drop_col ''pharm_code_norm'')) (\<lambda>_.
     then_run (for_each mcols (\<lambda>c. assign df (coerce_col pn c))) (\<lambda>_.
     ret df))))"

text \<open>\<open>add_elemental_ratios\<close>, with its two kinds of printed lines.\<close>

definition badC :: "frame \<Rightarrow> nat" where
  "badC f = length (filter (\<lambda>r. \<not> maskC r) (rows f))"

definition add_elemental_ratios_st :: "parser \<Rightarrow> addr \<Rightarrow> addr run" where
  "add_elemental_ratios_st pn a =
     then_run (derive a id) (\<lambda>df.
     then_run (for_each [''C_percent'', ''O_percent'', ''H_percent'', ''N_percent'', ''S_percent'']
                 (\<lambda>col. then_run (look df (\<lambda>f. col \<in> set (columns f))) (\<lambda>present.
                    if present then assign df (coerce_col pn col)
                    else print (MissingColumn col)))) (\<lambda>_.
     then_run (look df (\<lambda>f. ''C_percent'' \<in> set (columns f))) (\<lambda>present.
       if \<not> present then ret df
       else
         then_run (look df badC) (\<lambda>n.
         then_run (if n \<noteq> 0 then print (NoCarbon n) else ret ()) (\<lambda>_.
         then_run (assign_err df (loc_assign maskC ''C_molar'' (\<lambda>r. Inr (of_float (denom r))))) (\<lambda>_.
         then_run (for_each elements (\<lambda>(col, el, out). assign_err df (ratio_step col el out))) (\<lambda>_.
         then_run (for_each ratio_cols (\<lambda>r. assign df (clamp_col pn r))) (\<lambda>_.
         ret df))))))))"

text \<open>
  \<open>series.astype("category")\<close> keeps every cell; \<open>df[c] = ...\<close> writes the column back.
\<close>

definition category_col :: "string \<Rightarrow> frame \<Rightarrow> frame" where
  "category_col c df = (if c \<in> set (columns df) then set_col c (\<lambda>r. get r c) df else df)"

text \<open>
  \<open>DomainFE.transform\<close>: \<open>nf\<close> and \<open>cf\<close> are \<open>self.num_feats\<close> and \<open>self.cat_feats\<close>, which
  the method only reads. Frames whose trimmed labels collide are outside the embedding.
\<close>

definition transform_st ::
  "parser \<Rightarrow> (real \<Rightarrow> string) \<Rightarrow> addr \<Rightarrow> string list \<Rightarrow> string list \<Rightarrow> addr \<Rightarrow> addr run" where
  "transform_st pn fmt g nf cf X =
     then_run (derive X id) (\<lambda>df.
     then_run (assign df strip_columns) (\<lambda>_.
     then_run (add_pharm_features_st fmt g df) (\<lambda>df.
     then_run (clean_pharm_features_st pn map_cols df) (\<lambda>df.
     then_run (add_elemental_ratios_st pn df) (\<lambda>df.
     then_run (for_each nf (\<lambda>c. assign df (coerce_col pn c))) (\<lambda>_.
     then_run (for_each cf (\<lambda>c. assign df (category_col c))) (\<lambda>_.
     then_run (look df (\<lambda>f. filter (\<lambda>c. c \<in> set (columns f)) (nf @ cf))) (\<lambda>use_cols.
     derive df (select_cols use_cols)))))))))"

text \<open>
  The same method on values: the frame it returns and the lines it prints, as
  functions of the value of \<open>X\<close>.
\<close>

definition transform ::
  "parser \<Rightarrow> (real \<Rightarrow> string) \<Rightarrow> string list \<Rightarrow> string list \<Rightarrow> frame \<Rightarrow> error + frame" where
  "transform pn fmt nf cf X =
     bind_err (add_pharm_features fmt (strip_columns X)) (\<lambda>df.
     bind_err (add_elemental_ratios pn (clean_pharm_features pn map_cols df)) (\<lambda>df.
       let df = fold category_col cf (fold (coerce_col pn) nf df)
       in Inr (select_cols (filter (\<lambda>c. c \<in> set (columns df)) (nf @ cf)) df)))"

fun coerce_notices :: "parser \<Rightarrow> string list \<Rightarrow> frame \<Rightarrow> notice list" where
  "coerce_notices pn [] f = []"
| "coerce_notices pn (c # cs) f =
     (if c \<in> set (columns f) then coerce_notices pn cs (coerce_col pn c f)
      else MissingColumn c # coerce_notices pn cs f)"

definition ratio_notices :: "parser \<Rightarrow> frame \<Rightarrow> notice list" where
  "ratio_notices pn df0 =
     (let cols = [''C_percent'', ''O_percent'', ''H_percent'', ''N_percent'', ''S_percent''];
          df = fold (coerce_col pn) cols df0
      in coerce_notices pn cols df0
         @ (if ''C_percent'' \<in> set (columns df) \<and> badC df \<noteq> 0 then [NoCarbon (badC df)] else []))"

definition transform_notices :: "parser \<Rightarrow> (real \<Rightarrow> string) \<Rightarrow> frame \<Rightarrow> notice list" where
  "transform_notices pn fmt X =
     (case add_pharm_features fmt (strip_columns X) of
        Inl e \<Rightarrow> []
      | Inr df \<Rightarrow> ratio_notices pn (clean_pharm_features pn map_cols df))"

text \<open>A store with the table at address 0 and the frame of the join example at address 1.\<close>

definition store_example :: store where
  "store_example = \<lparr>heap = [pharm_frame, join_example], printed = []\<rparr>"

section \<open>src/evaluation.py: ranking the candidates and selecting the winner\<close>

text \<open>
  One row of \<open>results\<close>. The scores of a candidate (cross-validation, fit on the train
  split, scores on train and test) come from scikit-learn: they are a parameter of the
  model, together with the per-fold table kept in \<open>fold_store\<close>.
\<close>

record metrics =
  cv_r2 :: real
  cv_rmse :: real
  cv_mae :: real
  train_r2 :: real
  train_rmse :: real
  train_mae :: real
  test_r2 :: real
  test_rmse :: real
  test_mae :: real

record result = metrics +
  model :: string

definition result_row :: "string \<Rightarrow> metrics \<Rightarrow> result" where
  "result_row name m = metrics.extend m \<lparr>model = name\<rparr>"

type_synonym ('p, 'f) evaluator = "string \<Rightarrow> 'p \<Rightarrow> metrics \<times> 'f"

text \<open>
  The loop over \<open>zip(axes, models)\<close>: a candidate without a pipeline is skipped; for the
  others a row is appended to \<open>results\<close> and \<open>fold_store[name]\<close> is set to the fold table
  and the (now fitted) pipeline.
\<close>

fun evaluate_loop ::
  "('p, 'f) evaluator \<Rightarrow> (string \<times> 'p option) list
     \<Rightarrow> result list \<times> (string \<rightharpoonup> 'f \<times> 'p) \<Rightarrow> result list \<times> (string \<rightharpoonup> 'f \<times> 'p)"
where
  "evaluate_loop ev [] st = st"
| "evaluate_loop ev ((name, None) # rest) st = evaluate_loop ev rest st"
| "evaluate_loop ev ((name, Some pipe) # rest) (results, fold_store) =
     evaluate_loop ev rest
       (results @ [result_row name (fst (ev name pipe))],
        fold_store(name \<mapsto> (snd (ev name pipe), pipe)))"

text \<open>
  \<open>sort_values(["cv_rmse", "cv_r2", "test_r2"], ascending=[True, False, False])\<close>:
  row \<open>a\<close> comes no later than row \<open>b\<close>.
\<close>

definition rank_before :: "result \<Rightarrow> result \<Rightarrow> bool" where
  "rank_before a b =
     (cv_rmse a < cv_rmse b
      \<or> (cv_rmse a = cv_rmse b
          \<and> (cv_r2 a > cv_r2 b \<or> (cv_r2 a = cv_r2 b \<and> test_r2 a \<ge> test_r2 b))))"

record ('p, 'f) evaluation =
  results_df :: "result list"
  results_sorted :: "result list"
  best_name :: "string option"
  best_pipe :: "'p option"
  best_fold_df :: "'f option"

text \<open>
  \<open>evaluate_and_plot\<close>: the figure has six panels, so \<open>zip\<close> stops after six
  candidates. The plots and the sheets written on the way are not modelled.
\<close>

definition evaluate_and_plot ::
  "('p, 'f) evaluator \<Rightarrow> (string \<times> 'p option) list \<Rightarrow> error + ('p, 'f) evaluation" where
  "evaluate_and_plot ev models =
     (let (results, fold_store) = evaluate_loop ev (take 6 models) ([], Map.empty)
      in if results \<noteq> [] then
           (let res_df_sorted = sort_values rank_before results;
                name = model (hd res_df_sorted)
            in case fold_store name of
                 None \<Rightarrow> Inl (KeyError name)
               | Some (folds, pipe) \<Rightarrow>
                   Inr \<lparr>results_df = results, results_sorted = res_df_sorted,
                        best_name = Some name, best_pipe = Some pipe, best_fold_df = Some folds\<rparr>)
         else
           Inr \<lparr>results_df = results, results_sorted = results,
                best_name = None, best_pipe = None, best_fold_df = None\<rparr>)"

section \<open>src/tunning.py: randomized search over the two top-ranked candidates\<close>

text \<open>A hyperparameter value: \<open>None\<close>, a number or a string.\<close>

datatype pval = PNone | PNum real | PStr string

type_synonym param_space = "(string \<times> pval list) list"

type_synonym params = "(string \<times> pval) list"

text \<open>\<open>np.logspace(a, b, n)\<close> and \<open>np.linspace(a, b, n)\<close>.\<close>

definition logspace :: "real \<Rightarrow> real \<Rightarrow> nat \<Rightarrow> pval list" where
  "logspace a b n = map (\<lambda>i. PNum (10 powr (a + (b - a) * real i / real (n - 1)))) [0..<n]"

definition linspace :: "real \<Rightarrow> real \<Rightarrow> nat \<Rightarrow> pval list" where
  "linspace a b n = map (\<lambda>i. PNum (a + (b - a) * real i / real (n - 1))) [0..<n]"

definition get_param_distributions :: "string \<Rightarrow> param_space" where
  "get_param_distributions model_name =
     (if model_name = ''HistGBR'' then
        [(''reg__learning_rate'', logspace (-3) (-1) 15),
         (''reg__max_iter'', map PNum [300, 500, 800, 1000]),
         (''reg__max_depth'', PNone # map PNum [3, 5, 7, 9]),
         (''reg__l2_regularization'', logspace (-8) (-2) 8),
         (''reg__min_samples_leaf'', map PNum [5, 10, 15, 20, 30]),
         (''reg__max_leaf_nodes'', PNone # map PNum [31, 63, 127, 255])]
      else if starts_with ''LightGBM'' model_name then
        [(''reg__num_leaves'', map PNum [31, 63, 127, 255]),
         (''reg__learning_rate'', logspace (-3) (-1) 15),
         (''reg__n_estimators'', map PNum [600, 900, 1200, 1500]),
         (''reg__boosting_type'',
            [PStr (if contains ''DART'' model_name then ''dart'' else ''gbdt'')])]
      else if model_name = ''XGBoost-GBTree'' then
        [(''reg__n_estimators'', map PNum [400, 700, 1000, 1500]),
         (''reg__max_depth'', map PNum [3, 5, 7, 9]),
         (''reg__learning_rate'', logspace (-3) (-1) 15),
         (''reg__subsample'', linspace 0.6 1.0 5),
         (''reg__colsample_bytree'', linspace 0.6 1.0 5),
         (''reg__reg_lambda'', logspace (-6) (-1) 10),
         (''reg__booster'', [PStr ''gbtree''])]
      else if model_name = ''CatBoost'' then
        [(''reg__depth'', map PNum [4, 6, 8, 10]),
         (''reg__learning_rate'', logspace (-3) (-1) 15),
         (''reg__n_estimators'', map PNum [600, 900, 1200, 1500])]
      else if model_name = ''EBM'' then
        [(''reg__learning_rate'', logspace (-3) (-1) 12),
         (''reg__max_leaves'', map PNum [2, 3, 5, 7]),
         (''reg__interactions'', map PNum [0, 2, 4]),
         (''reg__max_bins'', map PNum [128, 256, 512])]
      else [])"

text \<open>
  \<open>RandomizedSearchCV(...).fit(X_all, y_all)\<close> is scikit-learn's: a parameter of the
  model, giving \<open>best_score_\<close>, \<open>best_estimator_\<close> and \<open>best_params_\<close> for a base
  pipeline and a search space (the data, the seed and \<open>n_iter\<close> are fixed in it).
\<close>

record 'p rsearch =
  rs_best_score :: real
  rs_best_estimator :: 'p
  rs_best_params :: params

type_synonym 'p searcher = "'p \<Rightarrow> param_space \<Rightarrow> 'p rsearch"

record hp_result =
  hp_model :: string
  hp_cv_r2 :: "real option"
  hp_best_params :: "params option"

text \<open>
  \<open>name2pipe = {name: pipe for (name, pipe) in models if pipe is not None}\<close>: a later
  entry of the same name replaces an earlier one.
\<close>

definition name2pipe :: "(string \<times> 'p option) list \<Rightarrow> (string \<rightharpoonup> 'p)" where
  "name2pipe models =
     fold (\<lambda>(name, pipe) d. case pipe of None \<Rightarrow> d | Some p \<Rightarrow> d(name \<mapsto> p)) models Map.empty"

text \<open>
  The loop over \<open>top2\<close>. The four variables \<open>best_name\<close>, \<open>best_pipe\<close>, \<open>best_score\<close> and
  \<open>best_best_params\<close> change together: \<open>None\<close> is their initial state (no name, no
  pipeline, score minus infinity), so the first searched candidate always replaces it.
\<close>

fun hpo_loop ::
  "'p searcher \<Rightarrow> (string \<rightharpoonup> 'p) \<Rightarrow> string list
     \<Rightarrow> (string \<times> 'p \<times> real \<times> params) option \<times> hp_result list
     \<Rightarrow> (string \<times> 'p \<times> real \<times> params) option \<times> hp_result list"
where
  "hpo_loop search n2p [] st = st"
| "hpo_loop search n2p (cand # rest) (best, hp_results) =
     (case n2p cand of
        None \<Rightarrow>
          hpo_loop search n2p rest
            (best, hp_results @ [\<lparr>hp_model = cand, hp_cv_r2 = None, hp_best_params = None\<rparr>])
      | Some base_pipe \<Rightarrow>
          (let param_dist = get_param_distributions cand
           in if param_dist = [] then
                hpo_loop search n2p rest
                  (best, hp_results @ [\<lparr>hp_model = cand, hp_cv_r2 = None, hp_best_params = None\<rparr>])
              else
                (let rs = search base_pipe param_dist;
                     hp_results' = hp_results @
                       [\<lparr>hp_model = cand, hp_cv_r2 = Some (rs_best_score rs),
                         hp_best_params = Some (rs_best_params rs)\<rparr>];
                     improves = (case best of None \<Rightarrow> True
                                 | Some (bn, bp, best_score, bps) \<Rightarrow> rs_best_score rs > best_score)
                 in hpo_loop search n2p rest
                      (if improves
                       then Some (cand, rs_best_estimator rs, rs_best_score rs, rs_best_params rs)
                       else best, hp_results'))))"

text \<open>
  \<open>run_hpo_top2\<close>, returning \<open>(best_name, best_pipe, best_score, hp_results,
  best_best_params)\<close>. Only the column \<open>model\<close> of \<open>res_sorted\<close> is read.
\<close>

record 'p hpo =
  hpo_best_name :: string
  hpo_best_pipe :: 'p
  hpo_best_score :: real
  hpo_results :: "hp_result list"
  hpo_best_params :: params

definition run_hpo_top2 ::
  "'p searcher \<Rightarrow> (string \<times> 'p option) list \<Rightarrow> result list option \<Rightarrow> error + 'p hpo" where
  "run_hpo_top2 search models res_sorted =
     (case res_sorted of
        None \<Rightarrow> Inl (RuntimeError ''results_sorted'')
      | Some rs \<Rightarrow>
          if rs = [] then Inl (RuntimeError ''results_sorted'')
          else
            (let top2 = map model (take 2 rs)
             in case hpo_loop search (name2pipe models) top2 (None, []) of
                  (None, hp_results) \<Rightarrow> Inl (RuntimeError ''HPO'')
                | (Some (name, pipe, score, ps), hp_results) \<Rightarrow>
                    Inr \<lparr>hpo_best_name = name, hpo_best_pipe = pipe, hpo_best_score = score,
                         hpo_results = hp_results, hpo_best_params = ps\<rparr>))"

text \<open>
  Examples. A pipeline is given here by the name of its model and its hyperparameter
  configuration. The first point of a search space takes the first value of every list,
  the last point the last value; a configuration lies in a space when it gives every
  key of the space, in order, one of the values listed for it.
\<close>

definition first_point :: "param_space \<Rightarrow> params" where
  "first_point space = map (\<lambda>(k, vs). (k, hd vs)) space"

definition last_point :: "param_space \<Rightarrow> params" where
  "last_point space = map (\<lambda>(k, vs). (k, last vs)) space"

definition in_space :: "params \<Rightarrow> param_space \<Rightarrow> bool" where
  "in_space cfg space = list_all2 (\<lambda>(k, v) (k', vs). k = k' \<and> v \<in> set vs) cfg space"

text \<open>
  An example run: HistGBR and CatBoost are ranked first and second with cross-validated
  R2 0.9 and 0.8, measured on pipelines configured at the first point of their search
  spaces. In the example every other configuration has cross-validated R2 0.5 (HistGBR)
  or 0.4 (CatBoost), and the randomized search draws the last point of the space, which
  is another configuration, and reports it with its score.
\<close>

definition hpo_example_models :: "(string \<times> (string \<times> params) option) list" where
  "hpo_example_models =
     [(''CatBoost'', Some (''CatBoost'', first_point (get_param_distributions ''CatBoost''))),
      (''HistGBR'', Some (''HistGBR'', first_point (get_param_distributions ''HistGBR'')))]"

definition hpo_example_ranked :: "result list" where
  "hpo_example_ranked =
     [result_row ''HistGBR'' \<lparr>cv_r2 = 0.9, cv_rmse = 10, cv_mae = 8, train_r2 = 0.95,
        train_rmse = 7, train_mae = 5, test_r2 = 0.85, test_rmse = 12, test_mae = 9\<rparr>,
      result_row ''CatBoost'' \<lparr>cv_r2 = 0.8, cv_rmse = 14, cv_mae = 11, train_r2 = 0.9,
        train_rmse = 9, train_mae = 7, test_r2 = 0.75, test_rmse = 15, test_mae = 12\<rparr>]"

definition hpo_example_cv :: "string \<times> params \<Rightarrow> real" where
  "hpo_example_cv = (\<lambda>(name, cfg).
     if cfg = first_point (get_param_distributions name)
     then (if name = ''HistGBR'' then 0.9 else 0.8)
     else (if name = ''HistGBR'' then 0.5 else 0.4))"

definition hpo_example_search :: "(string \<times> params) searcher" where
  "hpo_example_search = (\<lambda>(name, cfg) param_dist.
     \<lparr>rs_best_score = hpo_example_cv (name, last_point param_dist),
      rs_best_estimator = (name, last_point param_dist),
      rs_best_params = last_point param_dist\<rparr>)"

text \<open>A search that reports the same best score, 0.5, for every candidate.\<close>

definition hpo_tie_search :: "(string \<times> params) searcher" where
  "hpo_tie_search = (\<lambda>(name, cfg) param_dist.
     \<lparr>rs_best_score = 0.5,
      rs_best_estimator = (name, last_point param_dist),
      rs_best_params = last_point param_dist\<rparr>)"

text \<open>
  The best search score of a candidate, and the invariant of the loop: after the
  candidates of the list \<open>seen\<close>, in this order, the four \<open>best\<close> variables hold a
  candidate of \<open>seen\<close> with its search result, no candidate of \<open>seen\<close> has a larger best
  search score, and every candidate before the held one has a smaller one.
\<close>

definition hpo_score :: "'p searcher \<Rightarrow> (string \<rightharpoonup> 'p) \<Rightarrow> string \<Rightarrow> real" where
  "hpo_score search n2p c = rs_best_score (search (the (n2p c)) (get_param_distributions c))"

fun hpo_inv ::
  "'p searcher \<Rightarrow> (string \<rightharpoonup> 'p) \<Rightarrow> string list \<Rightarrow> (string \<times> 'p \<times> real \<times> params) option \<Rightarrow> bool"
where
  "hpo_inv search n2p seen None = (seen = [])"
| "hpo_inv search n2p seen (Some (n, p, s, ps)) =
     ((\<exists>i < length seen. seen ! i = n \<and> (\<forall>j < i. hpo_score search n2p (seen ! j) < s))
      \<and> s = hpo_score search n2p n
      \<and> p = rs_best_estimator (search (the (n2p n)) (get_param_distributions n))
      \<and> ps = rs_best_params (search (the (n2p n)) (get_param_distributions n))
      \<and> (\<forall>c \<in> set seen. hpo_score search n2p c \<le> s))"

section \<open>Results: sorting\<close>

lemma mset_insort_by: "mset (insort_by le x xs) = add_mset x (mset xs)"
  by (induction xs) auto

lemma mset_sort_values: "mset (sort_values le xs) = mset xs"
  unfolding sort_values_def by (induction xs) (auto simp: mset_insort_by)

lemma set_insort_by: "set (insort_by le x xs) = insert x (set xs)"
  by (induction xs) auto

lemma sorted_insort_by:
  assumes tot: "\<And>a b. le a b \<or> le b a" and tr: "\<And>a b c. le a b \<Longrightarrow> le b c \<Longrightarrow> le a c"
  shows "sorted_wrt le xs \<Longrightarrow> sorted_wrt le (insort_by le x xs)"
proof (induction xs)
  case Nil
  then show ?case by simp
next
  case (Cons y ys)
  show ?case
  proof (cases "le x y")
    case True
    with Cons.prems tr show ?thesis by auto
  next
    case False
    with tot have "le y x" by blast
    with Cons False show ?thesis by (auto simp: set_insort_by)
  qed
qed

lemma sorted_sort_values:
  assumes tot: "\<And>a b. le a b \<or> le b a" and tr: "\<And>a b c. le a b \<Longrightarrow> le b c \<Longrightarrow> le a c"
  shows "sorted_wrt le (sort_values le xs)"
  unfolding sort_values_def
  by (induction xs) (auto intro: sorted_insort_by [OF tot tr])

section \<open>Results: sweeps and comparison\<close>

lemma sweep_loop_eq:
  "sweep_loop pipe base_params target field grid =
     map (\<lambda>v. (v, projr (pipe (sweep_row base_params target field v))))
       (filter (\<lambda>v. \<not> isl (pipe (sweep_row base_params target field v))) grid)"
  by (induction grid) (auto split: sum.splits)

text \<open>
  Claim C6. A sweep over a grid of values for one field returns, in grid order, exactly
  the grid points at which the prediction succeeded, each paired with its prediction.
  A grid point whose prediction raises is left out and the loop goes on; a result
  shorter than the grid is a normal outcome: the loop shows no error and does not stop
  the run.
\<close>

theorem sweep_drops_failed_points:
  "map fst (sweep_loop pipe base_params target field grid) =
     filter (\<lambda>v. \<exists>y. pipe (sweep_row base_params target field v) = Inr y) grid
   \<and> (\<forall>(v, y) \<in> set (sweep_loop pipe base_params target field grid).
         pipe (sweep_row base_params target field v) = Inr y)
   \<and> length (sweep_loop pipe base_params target field grid) \<le> length grid
   \<and> (\<forall>m. UiError m \<notin> set (sweep_chart pipe base_params target (field, grid)))
   \<and> UiStop \<notin> set (sweep_chart pipe base_params target (field, grid))"
proof -
  let ?ok = "\<lambda>v. \<not> isl (pipe (sweep_row base_params target field v))"
  have ok: "?ok = (\<lambda>v. \<exists>y. pipe (sweep_row base_params target field v) = Inr y)"
    by (rule ext) (metis isl_def sum.collapse(2) sum.disc(2))
  have a: "map fst (sweep_loop pipe base_params target field grid) = filter ?ok grid"
    unfolding sweep_loop_eq by (simp add: comp_def)
  have b: "\<forall>(v, y) \<in> set (sweep_loop pipe base_params target field grid).
         pipe (sweep_row base_params target field v) = Inr y"
    unfolding sweep_loop_eq by auto
  have "length (sweep_loop pipe base_params target field grid) = length (filter ?ok grid)"
    unfolding sweep_loop_eq by simp
  then have c: "length (sweep_loop pipe base_params target field grid) \<le> length grid"
    by simp
  have d: "\<forall>m. UiError m \<notin> set (sweep_chart pipe base_params target (field, grid))"
    by (simp add: sweep_chart_def Let_def)
  have e: "UiStop \<notin> set (sweep_chart pipe base_params target (field, grid))"
    by (simp add: sweep_chart_def Let_def)
  from a b c d e show ?thesis unfolding ok by blast
qed

text \<open>A pH sweep over 2, 7, 12 with a pipeline that fails at pH 7 keeps 2 and 12, in order.\<close>

theorem sweep_drops_failed_points_witness:
  "sweep_loop (\<lambda>r. if get r ''Solution_pH'' = Num 7 then Inl ''predict failed'' else Inr 1)
      Map.empty (Str ''CIP'') ''Solution_pH'' [2, 7, 12] = [(2, 1), (12, 1)]"
  using sweep_drops_failed_points [of
      "\<lambda>r. if get r ''Solution_pH'' = Num 7 then Inl ''predict failed'' else Inr 1"
      Map.empty "Str ''CIP''" "''Solution_pH''" "[2, 7, 12]"]
  by (simp add: sweep_row_def get_def)





section \<open>Results: the pore-volume check of the single-record form\<close>

text \<open>
  Claim C10. When the submitted row carries numbers for both pore volumes and the
  micropore volume is larger than the total pore volume, the handler shows an error and
  stops: what it shows is one of four lists, each ending in an error followed by the
  stop, none with a prediction, a comparison or a sweep; and it is the same whatever the
  pipeline and the drug map are, so the pipeline is not consulted.
\<close>

theorem pore_volume_check_stops_before_predict:
  assumes "get (build_row pf vals) ''Total_Pore_Volume(cm3/g)'' = Num total_pore"
      and "get (build_row pf vals) ''Micropore_Volume(cm3/g)'' = Num micro_pore"
      and "micro_pore > total_pore"
  shows "single_entry pf pipe names vals \<in>
           {[UiError SelectDrug, UiStop], [UiError SelectAtmosphere, UiStop],
            [UiError PoreVolume, UiStop], [UiWarning MissingFields, UiError PoreVolume, UiStop]}
         \<and> single_entry pf pipe' names' vals = single_entry pf pipe names vals"
proof -
  have "pore_violation (build_row pf vals)"
    using assms by (simp add: pore_violation_def)
  then show ?thesis
    by (simp add: single_entry_def Let_def)
qed

text \<open>
  A submitted record with drug and atmosphere chosen, total pore volume 0.3 and
  micropore volume 0.5, every other field empty.
\<close>

theorem pore_volume_check_stops_before_predict_witness:
  "get (build_row (\<lambda>t. None)
          [''Target_Phar'' \<mapsto> Str ''CIP'', ''Activation_Atmosphere'' \<mapsto> Str ''N2'',
           ''Total_Pore_Volume(cm3/g)'' \<mapsto> Num 0.3, ''Micropore_Volume(cm3/g)'' \<mapsto> Num 0.5])
       ''Total_Pore_Volume(cm3/g)'' = Num 0.3
   \<and> get (build_row (\<lambda>t. None)
          [''Target_Phar'' \<mapsto> Str ''CIP'', ''Activation_Atmosphere'' \<mapsto> Str ''N2'',
           ''Total_Pore_Volume(cm3/g)'' \<mapsto> Num 0.3, ''Micropore_Volume(cm3/g)'' \<mapsto> Num 0.5])
       ''Micropore_Volume(cm3/g)'' = Num 0.5
   \<and> (0.5::real) > 0.3
   \<and> single_entry (\<lambda>t. None) (\<lambda>r. Inr 100) (\<lambda>c. Some c)
          [''Target_Phar'' \<mapsto> Str ''CIP'', ''Activation_Atmosphere'' \<mapsto> Str ''N2'',
           ''Total_Pore_Volume(cm3/g)'' \<mapsto> Num 0.3, ''Micropore_Volume(cm3/g)'' \<mapsto> Num 0.5]
       = [UiWarning MissingFields, UiError PoreVolume, UiStop]"
proof -
  let ?vals = "[''Target_Phar'' \<mapsto> Str ''CIP'', ''Activation_Atmosphere'' \<mapsto> Str ''N2'',
           ''Total_Pore_Volume(cm3/g)'' \<mapsto> Num 0.3, ''Micropore_Volume(cm3/g)'' \<mapsto> Num 0.5]"
  have t: "get (build_row (\<lambda>t. None) ?vals) ''Total_Pore_Volume(cm3/g)'' = Num 0.3"
    by (simp add: build_row_def get_def synthesis_def adsorbent_def)
  have m: "get (build_row (\<lambda>t. None) ?vals) ''Micropore_Volume(cm3/g)'' = Num 0.5"
    by (simp add: build_row_def get_def synthesis_def adsorbent_def)
  have lt: "(0.5::real) > 0.3" by simp
  have miss: "get (build_row (\<lambda>t. None) ?vals) ''pHpzc'' = Null"
    by (simp add: build_row_def get_def synthesis_def adsorbent_def)
  have tr: "truthy (get ?vals ''Target_Phar'')" "truthy (get ?vals ''Activation_Atmosphere'')"
    by (simp_all add: truthy_def get_def)
  have ex: "\<exists>k \<in> set (synthesis @ adsorbent @ process_fields).
              get (build_row (\<lambda>t. None) ?vals) k = Null"
    using miss by (auto simp: adsorbent_def)
  have "single_entry (\<lambda>t. None) (\<lambda>r. Inr 100) (\<lambda>c. Some c) ?vals
       = [UiWarning MissingFields, UiError PoreVolume, UiStop]"
    using pore_volume_check_stops_before_predict [OF t m lt, of "\<lambda>r. Inr 100" "\<lambda>c. Some c"] tr ex
    unfolding single_entry_def Let_def
    by (simp only: if_True if_False not_True_eq_False simp_thms) auto
  with t m lt show ?thesis by blast
qed

section \<open>Results: ranking and winner\<close>

lemma rank_before_total: "rank_before a b \<or> rank_before b a"
  unfolding rank_before_def by auto

lemma rank_before_trans: "rank_before a b \<Longrightarrow> rank_before b c \<Longrightarrow> rank_before a c"
  unfolding rank_before_def by auto

lemma evaluate_loop_inv:
  assumes "evaluate_loop ev ms (results, fold_store) = (results', fold_store')"
      and "\<forall>r \<in> set results. \<exists>f p. fold_store (model r) = Some (f, p) \<and> (model r, Some p) \<in> S"
      and "\<forall>n p. (n, Some p) \<in> set ms \<longrightarrow> (n, Some p) \<in> S"
  shows "\<forall>r \<in> set results'. \<exists>f p. fold_store' (model r) = Some (f, p) \<and> (model r, Some p) \<in> S"
  using assms
proof (induction ev ms "(results, fold_store)" arbitrary: results fold_store rule: evaluate_loop.induct)
  case (1 ev)
  then show ?case by simp
next
  case (2 ev name rest)
  then show ?case by simp
next
  case (3 ev name pipe rest results fold_store)
  show ?case
  proof (rule "3.hyps")
    show "evaluate_loop ev rest (results @ [result_row name (fst (ev name pipe))],
        fold_store(name \<mapsto> (snd (ev name pipe), pipe))) = (results', fold_store')"
      using "3.prems"(1) by simp
    show "\<forall>r\<in>set (results @ [result_row name (fst (ev name pipe))]).
       \<exists>f p. (fold_store(name \<mapsto> (snd (ev name pipe), pipe))) (model r) = Some (f, p) \<and>
             (model r, Some p) \<in> S"
      using "3.prems"(2,3) by (auto simp: result_row_def metrics.extend_def)
    show "\<forall>n p. (n, Some p) \<in> set rest \<longrightarrow> (n, Some p) \<in> S"
      using "3.prems"(3) by auto
  qed
qed


lemma evaluate_loop_rows:
  assumes "evaluate_loop ev ms (results, fold_store) = (results', fold_store')"
      and "\<forall>r \<in> set results. \<exists>p. (model r, Some p) \<in> S \<and> r = result_row (model r) (fst (ev (model r) p))"
      and "\<forall>n p. (n, Some p) \<in> set ms \<longrightarrow> (n, Some p) \<in> S"
  shows "\<forall>r \<in> set results'. \<exists>p. (model r, Some p) \<in> S \<and> r = result_row (model r) (fst (ev (model r) p))"
  using assms
proof (induction ev ms "(results, fold_store)" arbitrary: results fold_store rule: evaluate_loop.induct)
  case (1 ev)
  then show ?case by simp
next
  case (2 ev name rest)
  then show ?case by simp
next
  case (3 ev name pipe rest results fold_store)
  show ?case
  proof (rule "3.hyps")
    show "evaluate_loop ev rest (results @ [result_row name (fst (ev name pipe))],
        fold_store(name \<mapsto> (snd (ev name pipe), pipe))) = (results', fold_store')"
      using "3.prems"(1) by simp
    show "\<forall>r\<in>set (results @ [result_row name (fst (ev name pipe))]).
       \<exists>p. (model r, Some p) \<in> S \<and> r = result_row (model r) (fst (ev (model r) p))"
      using "3.prems"(2,3) by (auto simp: result_row_def metrics.extend_def)
    show "\<forall>n p. (n, Some p) \<in> set rest \<longrightarrow> (n, Some p) \<in> S"
      using "3.prems"(3) by auto
  qed
qed

lemma rank_before_spelled:
  "rank_before a b \<longleftrightarrow>
     cv_rmse a \<le> cv_rmse b
     \<and> (cv_rmse a = cv_rmse b \<longrightarrow> cv_r2 a \<ge> cv_r2 b)
     \<and> (cv_rmse a = cv_rmse b \<and> cv_r2 a = cv_r2 b \<longrightarrow> test_r2 a \<ge> test_r2 b)"
  unfolding rank_before_def by auto

lemma sorted_rank: "sorted_wrt rank_before (sort_values rank_before xs)"
  by (rule sorted_sort_values) (use rank_before_total rank_before_trans in blast)+

lemma hd_sorted_min:
  assumes "xs \<noteq> []" "r \<in> set xs"
  shows "rank_before (hd (sort_values rank_before xs)) r"
proof -
  let ?s = "sort_values rank_before xs"
  have "set ?s = set xs" using mset_sort_values [of rank_before xs] by (metis mset_eq_setD)
  with assms have ne: "?s \<noteq> []" and rin: "r \<in> set ?s" by auto
  then obtain y ys where s: "?s = y # ys" by (cases ?s) auto
  have "sorted_wrt rank_before (y # ys)" using sorted_rank [of xs] s by simp
  then have "\<forall>z \<in> set ys. rank_before y z" by simp
  moreover have "rank_before y y" using rank_before_total by blast
  ultimately show ?thesis using rin s by auto
qed

lemma pair_unique:
  assumes "distinct (map fst ms)" "(n, a) \<in> set ms" "(n, b) \<in> set ms"
  shows "a = b"
  using assms by (metis eq_key_imp_eq_value)

text \<open>
  Claim C5. \<open>evaluate_and_plot\<close> always returns. Its sorted table is a rearrangement of
  the result rows in which an earlier row has the smaller cross-validated RMSE, among
  equal RMSE the larger cross-validated R2, and among equal RMSE and R2 the larger test
  R2. When there is at least one result row, the winner's name is the name of the first
  row of that table (which ranks before every row), and the winner's pipeline is a
  pipeline listed under that name among the evaluated candidates; with distinct
  candidate names it is the only one, and the first row holds its scores.
\<close>

theorem ranking_and_winner:
  "\<exists>out. evaluate_and_plot ev models = Inr out
     \<and> mset (results_sorted out) = mset (results_df out)
     \<and> (\<forall>i j. i < j \<and> j < length (results_sorted out) \<longrightarrow>
           cv_rmse (results_sorted out ! i) \<le> cv_rmse (results_sorted out ! j)
           \<and> (cv_rmse (results_sorted out ! i) = cv_rmse (results_sorted out ! j) \<longrightarrow>
                cv_r2 (results_sorted out ! i) \<ge> cv_r2 (results_sorted out ! j))
           \<and> (cv_rmse (results_sorted out ! i) = cv_rmse (results_sorted out ! j)
                \<and> cv_r2 (results_sorted out ! i) = cv_r2 (results_sorted out ! j) \<longrightarrow>
                test_r2 (results_sorted out ! i) \<ge> test_r2 (results_sorted out ! j)))
     \<and> (results_df out \<noteq> [] \<longrightarrow>
          (\<exists>p. best_name out = Some (model (results_sorted out ! 0))
              \<and> best_pipe out = Some p
              \<and> (model (results_sorted out ! 0), Some p) \<in> set (take 6 models)
              \<and> (\<forall>r \<in> set (results_df out). rank_before (results_sorted out ! 0) r)
              \<and> (distinct (map fst models) \<longrightarrow>
                    results_sorted out ! 0
                      = result_row (model (results_sorted out ! 0))
                          (fst (ev (model (results_sorted out ! 0)) p))
                    \<and> (\<forall>q. (model (results_sorted out ! 0), Some q) \<in> set models \<longrightarrow> q = p))))"
proof -
  obtain results fold_store where loop:
    "evaluate_loop ev (take 6 models) ([], Map.empty) = (results, fold_store)"
    by (cases "evaluate_loop ev (take 6 models) ([], Map.empty)") auto
  have stored: "\<forall>r \<in> set results. \<exists>f p. fold_store (model r) = Some (f, p)
                  \<and> (model r, Some p) \<in> set (take 6 models)"
    by (rule evaluate_loop_inv [OF loop]) auto
  have rows: "\<forall>r \<in> set results. \<exists>p. (model r, Some p) \<in> set (take 6 models)
                  \<and> r = result_row (model r) (fst (ev (model r) p))"
    by (rule evaluate_loop_rows [OF loop]) auto
  show ?thesis
  proof (cases "results = []")
    case True
    then show ?thesis
      by (simp add: evaluate_and_plot_def loop)
  next
    case False
    let ?s = "sort_values rank_before results"
    let ?w = "hd ?s"
    have perm: "mset ?s = mset results" by (rule mset_sort_values)
    then have sets: "set ?s = set results" by (metis mset_eq_setD)
    with False have ne: "?s \<noteq> []" by auto
    then have w0: "?s ! 0 = ?w" by (simp add: hd_conv_nth)
    have win: "?w \<in> set results" using ne sets by (metis list.set_sel(1))
    then obtain f p where fs: "fold_store (model ?w) = Some (f, p)"
      and pin: "(model ?w, Some p) \<in> set (take 6 models)"
      using stored by blast
    let ?out = "\<lparr>results_df = results, results_sorted = ?s,
                  best_name = Some (model ?w), best_pipe = Some p, best_fold_df = Some f\<rparr>"
    have ev: "evaluate_and_plot ev models = Inr ?out"
      using False fs by (simp add: evaluate_and_plot_def loop Let_def)
    have srt: "\<forall>i j. i < j \<and> j < length ?s \<longrightarrow> rank_before (?s ! i) (?s ! j)"
      using sorted_rank [of results] by (auto simp: sorted_wrt_iff_nth_less)
    have minimal: "\<forall>r \<in> set results. rank_before ?w r"
      using hd_sorted_min [OF False] by blast
    have dist: "distinct (map fst models) \<longrightarrow>
                  ?w = result_row (model ?w) (fst (ev (model ?w) p))
                  \<and> (\<forall>q. (model ?w, Some q) \<in> set models \<longrightarrow> q = p)"
    proof
      assume d: "distinct (map fst models)"
      from pin have pin': "(model ?w, Some p) \<in> set models" by (meson in_set_takeD)
      have uniq: "\<forall>q. (model ?w, Some q) \<in> set models \<longrightarrow> q = p"
        using pair_unique [OF d _ pin'] by blast
      from rows win obtain p' where p': "(model ?w, Some p') \<in> set (take 6 models)"
        and row: "?w = result_row (model ?w) (fst (ev (model ?w) p'))" by blast
      from p' have "(model ?w, Some p') \<in> set models" by (meson in_set_takeD)
      with uniq have "p' = p" by blast
      with row uniq show "?w = result_row (model ?w) (fst (ev (model ?w) p))
                  \<and> (\<forall>q. (model ?w, Some q) \<in> set models \<longrightarrow> q = p)" by simp
    qed
    show ?thesis
      apply (rule exI [of _ ?out])
      using ev perm srt minimal dist pin
      by (simp add: w0 rank_before_spelled [symmetric])
  qed
qed

text \<open>
  Four candidates, one skipped; HistGBR and EBM tie on RMSE and EBM has the larger
  cross-validated R2.
\<close>

theorem ranking_and_winner_witness:
  "distinct (map fst [(''CatBoost (skipped)'', None), (''HistGBR'', Some (1::nat)), (''EBM'', Some 2),
                      (''LightGBM-DART'', Some 3)])
   \<and> (\<exists>out. evaluate_and_plot
          (\<lambda>name p. (\<lparr>cv_r2 = (if p = 2 then 0.9 else 0.8), cv_rmse = (if p = 3 then 12 else 10),
                        cv_mae = 1, train_r2 = 1, train_rmse = 1, train_mae = 1,
                        test_r2 = 0.5, test_rmse = 1, test_mae = 1\<rparr>, ()))
          [(''CatBoost (skipped)'', None), (''HistGBR'', Some (1::nat)), (''EBM'', Some 2),
           (''LightGBM-DART'', Some 3)] = Inr out
        \<and> results_df out \<noteq> []
        \<and> map model (results_sorted out) = [''EBM'', ''HistGBR'', ''LightGBM-DART'']
        \<and> best_name out = Some ''EBM'' \<and> best_pipe out = Some 2)"
proof -
  have ev: "evaluate_and_plot
          (\<lambda>name p. (\<lparr>cv_r2 = (if p = 2 then 0.9 else 0.8), cv_rmse = (if p = 3 then 12 else 10),
                        cv_mae = 1, train_r2 = 1, train_rmse = 1, train_mae = 1,
                        test_r2 = 0.5, test_rmse = 1, test_mae = 1\<rparr>, ()))
          [(''CatBoost (skipped)'', None), (''HistGBR'', Some (1::nat)), (''EBM'', Some 2),
           (''LightGBM-DART'', Some 3)]
       = Inr \<lparr>results_df =
               [result_row ''HistGBR'' \<lparr>cv_r2 = 0.8, cv_rmse = 10, cv_mae = 1, train_r2 = 1,
                   train_rmse = 1, train_mae = 1, test_r2 = 0.5, test_rmse = 1, test_mae = 1\<rparr>,
                result_row ''EBM'' \<lparr>cv_r2 = 0.9, cv_rmse = 10, cv_mae = 1, train_r2 = 1,
                   train_rmse = 1, train_mae = 1, test_r2 = 0.5, test_rmse = 1, test_mae = 1\<rparr>,
                result_row ''LightGBM-DART'' \<lparr>cv_r2 = 0.8, cv_rmse = 12, cv_mae = 1, train_r2 = 1,
                   train_rmse = 1, train_mae = 1, test_r2 = 0.5, test_rmse = 1, test_mae = 1\<rparr>],
             results_sorted =
               [result_row ''EBM'' \<lparr>cv_r2 = 0.9, cv_rmse = 10, cv_mae = 1, train_r2 = 1,
                   train_rmse = 1, train_mae = 1, test_r2 = 0.5, test_rmse = 1, test_mae = 1\<rparr>,
                result_row ''HistGBR'' \<lparr>cv_r2 = 0.8, cv_rmse = 10, cv_mae = 1, train_r2 = 1,
                   train_rmse = 1, train_mae = 1, test_r2 = 0.5, test_rmse = 1, test_mae = 1\<rparr>,
                result_row ''LightGBM-DART'' \<lparr>cv_r2 = 0.8, cv_rmse = 12, cv_mae = 1, train_r2 = 1,
                   train_rmse = 1, train_mae = 1, test_r2 = 0.5, test_rmse = 1, test_mae = 1\<rparr>],
             best_name = Some ''EBM'', best_pipe = Some 2, best_fold_df = Some ()\<rparr>"
    by (simp add: evaluate_and_plot_def sort_values_def rank_before_def result_row_def
        metrics.extend_def Let_def)
  show ?thesis
  using ranking_and_winner [of
          "\<lambda>name p. (\<lparr>cv_r2 = (if p = 2 then 0.9 else 0.8), cv_rmse = (if p = 3 then 12 else 10),
                        cv_mae = 1, train_r2 = 1, train_rmse = 1, train_mae = 1,
                        test_r2 = 0.5, test_rmse = 1, test_mae = 1\<rparr>, ())"
          "[(''CatBoost (skipped)'', None), (''HistGBR'', Some (1::nat)), (''EBM'', Some 2),
           (''LightGBM-DART'', Some 3)]"]
    unfolding ev by (simp add: result_row_def metrics.extend_def)
qed

section \<open>Results: hyperparameter search\<close>

lemma hpo_loop_inv:
  assumes "hpo_loop search n2p cands (best, hp) = (best', hp')"
      and "\<forall>c \<in> set cands. n2p c \<noteq> None \<and> get_param_distributions c \<noteq> []"
      and "hpo_inv search n2p seen best"
  shows "hpo_inv search n2p (seen @ cands) best'"
  using assms
proof (induction cands arbitrary: best hp seen)
  case Nil
  then show ?case by simp
next
  case (Cons cand rest)
  from Cons.prems(2) obtain base where base: "n2p cand = Some base"
    and pd: "get_param_distributions cand \<noteq> []" by auto
  let ?rs = "search base (get_param_distributions cand)"
  let ?improves = "case best of None \<Rightarrow> True | Some (bn, bp, best_score, bps) \<Rightarrow> rs_best_score ?rs > best_score"
  let ?best1 = "if ?improves then Some (cand, rs_best_estimator ?rs, rs_best_score ?rs, rs_best_params ?rs) else best"
  obtain hp1 where step: "hpo_loop search n2p rest (?best1, hp1) = (best', hp')"
    using Cons.prems(1) base pd by (simp add: Let_def)
  have sc: "hpo_score search n2p cand = rs_best_score ?rs"
    by (simp add: hpo_score_def base)
  have inv1: "hpo_inv search n2p (seen @ [cand]) ?best1"
  proof (cases best)
    case None
    with Cons.prems(3) have "seen = []" by simp
    with None show ?thesis by (simp add: sc base)
  next
    case (Some b)
    obtain n p s ps where b: "b = (n, p, s, ps)" by (cases b) auto
    from Cons.prems(3) obtain i where i: "i < length seen" "seen ! i = n"
      and before: "\<forall>j < i. hpo_score search n2p (seen ! j) < s"
      and s: "s = hpo_score search n2p n"
      and p: "p = rs_best_estimator (search (the (n2p n)) (get_param_distributions n))"
      and ps: "ps = rs_best_params (search (the (n2p n)) (get_param_distributions n))"
      and mx: "\<forall>c \<in> set seen. hpo_score search n2p c \<le> s"
      unfolding Some b by auto
    show ?thesis
    proof (cases "rs_best_score ?rs > s")
      case True
      have "\<forall>j < length seen. hpo_score search n2p ((seen @ [cand]) ! j) < rs_best_score ?rs"
      proof (intro allI impI)
        fix j assume j: "j < length seen"
        then have "hpo_score search n2p (seen ! j) \<le> s" using mx by simp
        with True j show "hpo_score search n2p ((seen @ [cand]) ! j) < rs_best_score ?rs"
          by (simp add: nth_append)
      qed
      moreover have "\<forall>c \<in> set (seen @ [cand]). hpo_score search n2p c \<le> rs_best_score ?rs"
        using mx True sc by fastforce
      moreover have "length seen < length (seen @ [cand])" "(seen @ [cand]) ! length seen = cand"
        by simp_all
      ultimately have new: "hpo_inv search n2p (seen @ [cand])
          (Some (cand, rs_best_estimator ?rs, rs_best_score ?rs, rs_best_params ?rs))"
        unfolding hpo_inv.simps using sc base by (intro conjI exI [of _ "length seen"]) simp_all
      have "?best1 = Some (cand, rs_best_estimator ?rs, rs_best_score ?rs, rs_best_params ?rs)"
        using True by (simp add: Some b)
      then show ?thesis using new by (simp only:)
    next
      case False
      have "i < length (seen @ [cand])" "(seen @ [cand]) ! i = n"
        using i by (simp_all add: nth_append)
      moreover have "\<forall>j < i. hpo_score search n2p ((seen @ [cand]) ! j) < s"
        using before i by (simp add: nth_append)
      moreover have "\<forall>c \<in> set (seen @ [cand]). hpo_score search n2p c \<le> s"
        using mx False sc by auto
      ultimately have old: "hpo_inv search n2p (seen @ [cand]) (Some (n, p, s, ps))"
        unfolding hpo_inv.simps using s p ps by (intro conjI exI [of _ i]) simp_all
      have "?best1 = Some (n, p, s, ps)"
        using False by (simp add: Some b)
      then show ?thesis using old by (simp only:)
    qed
  qed
  have rest: "\<forall>c \<in> set rest. n2p c \<noteq> None \<and> get_param_distributions c \<noteq> []"
    using Cons.prems(2) by simp
  from Cons.IH [OF step rest inv1] show ?case by simp
qed

text \<open>
  Claim C8, as amended. When the result table is not empty and each of its first two
  names has a pipeline in the pool and a non-empty search space, \<open>run_hpo_top2\<close> returns
  one winner: one of those candidates, with the best score, the refit estimator and the
  parameters of its own randomized search. No searched candidate has a larger best
  search score, and every candidate ranked before the winner has a smaller one, so that
  the earlier candidate wins a tie. The scores of the first evaluation are not read.
\<close>

theorem hpo_winner_is_best_searched:
  assumes "rs \<noteq> []"
      and "\<forall>c \<in> set (map model (take 2 rs)).
             name2pipe models c \<noteq> None \<and> get_param_distributions c \<noteq> []"
  shows "\<exists>out base i. run_hpo_top2 search models (Some rs) = Inr out
           \<and> i < length (map model (take 2 rs))
           \<and> map model (take 2 rs) ! i = hpo_best_name out
           \<and> hpo_best_name out \<in> set (map model (take 2 rs))
           \<and> name2pipe models (hpo_best_name out) = Some base
           \<and> hpo_best_score out
               = rs_best_score (search base (get_param_distributions (hpo_best_name out)))
           \<and> hpo_best_pipe out
               = rs_best_estimator (search base (get_param_distributions (hpo_best_name out)))
           \<and> hpo_best_params out
               = rs_best_params (search base (get_param_distributions (hpo_best_name out)))
           \<and> (\<forall>c \<in> set (map model (take 2 rs)). \<forall>b. name2pipe models c = Some b \<longrightarrow>
                 rs_best_score (search b (get_param_distributions c)) \<le> hpo_best_score out)
           \<and> (\<forall>j < i. \<forall>b. name2pipe models (map model (take 2 rs) ! j) = Some b \<longrightarrow>
                 rs_best_score (search b (get_param_distributions (map model (take 2 rs) ! j)))
                   < hpo_best_score out)"
proof -
  let ?top2 = "map model (take 2 rs)"
  let ?n2p = "name2pipe models"
  obtain best hp where loop: "hpo_loop search ?n2p ?top2 (None, []) = (best, hp)"
    by (cases "hpo_loop search ?n2p ?top2 (None, [])") auto
  have inv: "hpo_inv search ?n2p ([] @ ?top2) best"
    by (rule hpo_loop_inv [OF loop assms(2)]) simp
  have ne: "?top2 \<noteq> []" using assms(1) by (cases rs) auto
  with inv obtain n p s ps where best: "best = Some (n, p, s, ps)"
    by (cases best) auto
  from inv obtain i where i: "i < length ?top2" "?top2 ! i = n"
    and before: "\<forall>j < i. hpo_score search ?n2p (?top2 ! j) < s"
    and s: "s = hpo_score search ?n2p n"
    and p: "p = rs_best_estimator (search (the (?n2p n)) (get_param_distributions n))"
    and ps: "ps = rs_best_params (search (the (?n2p n)) (get_param_distributions n))"
    and mx: "\<forall>c \<in> set ?top2. hpo_score search ?n2p c \<le> s"
    unfolding best by auto
  from i have nin: "n \<in> set ?top2" by (metis nth_mem)
  from nin assms(2) obtain base where base: "?n2p n = Some base" by auto
  let ?out = "\<lparr>hpo_best_name = n, hpo_best_pipe = p, hpo_best_score = s,
                hpo_results = hp, hpo_best_params = ps\<rparr>"
  have run: "run_hpo_top2 search models (Some rs) = Inr ?out"
    using assms(1) loop best by (simp add: run_hpo_top2_def)
  have mx': "\<forall>c \<in> set ?top2. \<forall>b. ?n2p c = Some b \<longrightarrow>
                 rs_best_score (search b (get_param_distributions c)) \<le> s"
    using mx by (auto simp: hpo_score_def)
  have before': "\<forall>j < i. \<forall>b. ?n2p (?top2 ! j) = Some b \<longrightarrow>
                 rs_best_score (search b (get_param_distributions (?top2 ! j))) < s"
    using before by (auto simp: hpo_score_def)
  have s': "s = rs_best_score (search base (get_param_distributions n))"
    using s base by (simp add: hpo_score_def)
  have p': "p = rs_best_estimator (search base (get_param_distributions n))"
    using p base by simp
  have ps': "ps = rs_best_params (search base (get_param_distributions n))"
    using ps base by simp
  have "run_hpo_top2 search models (Some rs) = Inr ?out
           \<and> i < length ?top2 \<and> ?top2 ! i = hpo_best_name ?out
           \<and> hpo_best_name ?out \<in> set ?top2
           \<and> ?n2p (hpo_best_name ?out) = Some base
           \<and> hpo_best_score ?out
               = rs_best_score (search base (get_param_distributions (hpo_best_name ?out)))
           \<and> hpo_best_pipe ?out
               = rs_best_estimator (search base (get_param_distributions (hpo_best_name ?out)))
           \<and> hpo_best_params ?out
               = rs_best_params (search base (get_param_distributions (hpo_best_name ?out)))
           \<and> (\<forall>c \<in> set ?top2. \<forall>b. ?n2p c = Some b \<longrightarrow>
                 rs_best_score (search b (get_param_distributions c)) \<le> hpo_best_score ?out)
           \<and> (\<forall>j < i. \<forall>b. ?n2p (?top2 ! j) = Some b \<longrightarrow>
                 rs_best_score (search b (get_param_distributions (?top2 ! j)))
                   < hpo_best_score ?out)"
    using run i nin base s' p' ps' mx' before' by simp
  then show ?thesis by blast
qed

lemma hpo_example_top2: "map model (take 2 hpo_example_ranked) = [''HistGBR'', ''CatBoost'']"
  by (simp add: hpo_example_ranked_def result_row_def metrics.extend_def)

lemma hpo_example_pipes:
  "name2pipe hpo_example_models ''HistGBR''
     = Some (''HistGBR'', first_point (get_param_distributions ''HistGBR''))"
  "name2pipe hpo_example_models ''CatBoost''
     = Some (''CatBoost'', first_point (get_param_distributions ''CatBoost''))"
  by (simp_all add: hpo_example_models_def name2pipe_def)

lemma hpo_example_spaces:
  "get_param_distributions ''HistGBR'' \<noteq> []" "get_param_distributions ''CatBoost'' \<noteq> []"
  by (simp_all add: get_param_distributions_def)

lemma logspace_nonempty: "0 < n \<Longrightarrow> logspace a b n \<noteq> []"
  by (simp add: logspace_def)

lemma hpo_example_in_space:
  "in_space (first_point (get_param_distributions ''HistGBR'')) (get_param_distributions ''HistGBR'')"
  "in_space (first_point (get_param_distributions ''CatBoost'')) (get_param_distributions ''CatBoost'')"
  by (simp_all add: in_space_def first_point_def get_param_distributions_def logspace_nonempty)

lemma hpo_example_other_point:
  "last_point (get_param_distributions ''HistGBR'') \<noteq> first_point (get_param_distributions ''HistGBR'')"
  "last_point (get_param_distributions ''CatBoost'') \<noteq> first_point (get_param_distributions ''CatBoost'')"
  by (simp_all add: last_point_def first_point_def get_param_distributions_def)

lemma hpo_example_scores:
  "hpo_example_cv (''HistGBR'', first_point (get_param_distributions ''HistGBR'')) = 0.9"
  "hpo_example_cv (''CatBoost'', first_point (get_param_distributions ''CatBoost'')) = 0.8"
  "hpo_example_cv (''HistGBR'', last_point (get_param_distributions ''HistGBR'')) = 0.5"
  "hpo_example_cv (''CatBoost'', last_point (get_param_distributions ''CatBoost'')) = 0.4"
  by (simp_all add: hpo_example_cv_def hpo_example_other_point)

lemma hpo_example_run:
  "run_hpo_top2 hpo_example_search hpo_example_models (Some hpo_example_ranked)
     = Inr \<lparr>hpo_best_name = ''HistGBR'',
            hpo_best_pipe = (''HistGBR'', last_point (get_param_distributions ''HistGBR'')),
            hpo_best_score = 0.5,
            hpo_results =
              [\<lparr>hp_model = ''HistGBR'', hp_cv_r2 = Some 0.5,
                hp_best_params = Some (last_point (get_param_distributions ''HistGBR''))\<rparr>,
               \<lparr>hp_model = ''CatBoost'', hp_cv_r2 = Some 0.4,
                hp_best_params = Some (last_point (get_param_distributions ''CatBoost''))\<rparr>],
            hpo_best_params = last_point (get_param_distributions ''HistGBR'')\<rparr>"
proof -
  have ne: "hpo_example_ranked \<noteq> []" by (simp add: hpo_example_ranked_def)
  show ?thesis
    using ne hpo_example_spaces
    by (simp add: run_hpo_top2_def hpo_example_top2 hpo_example_pipes hpo_example_search_def
                  hpo_example_scores Let_def)
qed

text \<open>
  The example run: both hypotheses hold and HistGBR wins with its search score 0.5 over
  the 0.4 of CatBoost. When the search reports 0.5 for both, the winner is HistGBR
  again, the candidate ranked first.
\<close>

theorem hpo_winner_is_best_searched_witness:
  "hpo_example_ranked \<noteq> []
   \<and> map model (take 2 hpo_example_ranked) = [''HistGBR'', ''CatBoost'']
   \<and> name2pipe hpo_example_models ''HistGBR'' \<noteq> None
   \<and> name2pipe hpo_example_models ''CatBoost'' \<noteq> None
   \<and> get_param_distributions ''HistGBR'' \<noteq> []
   \<and> get_param_distributions ''CatBoost'' \<noteq> []
   \<and> (\<exists>out. run_hpo_top2 hpo_example_search hpo_example_models (Some hpo_example_ranked) = Inr out
          \<and> hpo_best_name out = ''HistGBR'' \<and> hpo_best_score out = 0.5)
   \<and> (\<exists>out. run_hpo_top2 hpo_tie_search hpo_example_models (Some hpo_example_ranked) = Inr out
          \<and> hpo_best_name out = ''HistGBR'' \<and> hpo_best_score out = 0.5)"
proof -
  let ?top2 = "map model (take 2 hpo_example_ranked)"
  have ne: "hpo_example_ranked \<noteq> []"
    by (simp add: hpo_example_ranked_def)
  have pipes: "name2pipe hpo_example_models ''HistGBR'' \<noteq> None"
      "name2pipe hpo_example_models ''CatBoost'' \<noteq> None"
    by (simp_all add: hpo_example_pipes)
  have ok: "\<forall>c \<in> set ?top2.
         name2pipe hpo_example_models c \<noteq> None \<and> get_param_distributions c \<noteq> []"
    unfolding hpo_example_top2 using pipes hpo_example_spaces by simp
  have run: "\<exists>out. run_hpo_top2 hpo_example_search hpo_example_models (Some hpo_example_ranked) = Inr out
          \<and> hpo_best_name out = ''HistGBR'' \<and> hpo_best_score out = 0.5"
    by (simp add: hpo_example_run)
  from hpo_winner_is_best_searched [OF ne ok, of hpo_tie_search] obtain out base i where
    out: "run_hpo_top2 hpo_tie_search hpo_example_models (Some hpo_example_ranked) = Inr out"
    and i: "i < length ?top2" "?top2 ! i = hpo_best_name out"
    and score: "hpo_best_score out
               = rs_best_score (hpo_tie_search base (get_param_distributions (hpo_best_name out)))"
    and before: "\<forall>j < i. \<forall>b. name2pipe hpo_example_models (?top2 ! j) = Some b \<longrightarrow>
                 rs_best_score (hpo_tie_search b (get_param_distributions (?top2 ! j)))
                   < hpo_best_score out"
    by blast
  have tie: "rs_best_score (hpo_tie_search b space) = 0.5" for b space
    by (simp add: hpo_tie_search_def split_beta)
  have s: "hpo_best_score out = 0.5" using score by (simp only: tie)
  have "i = 0"
  proof (rule ccontr)
    assume "i \<noteq> 0"
    then have "0 < i" by simp
    with before hpo_example_pipes(1) have "(0.5 :: real) < hpo_best_score out"
      unfolding hpo_example_top2 by (simp add: tie)
    with s show False by simp
  qed
  with i(2) have "hpo_best_name out = ''HistGBR''"
    by (simp add: hpo_example_top2)
  with out s have tied: "\<exists>out. run_hpo_top2 hpo_tie_search hpo_example_models (Some hpo_example_ranked) = Inr out
          \<and> hpo_best_name out = ''HistGBR'' \<and> hpo_best_score out = 0.5"
    by blast
  from ne hpo_example_top2 pipes hpo_example_spaces run tied show ?thesis by blast
qed

text \<open>
  Claim C8 as stated fails. In the example run both candidates have a search space, the
  configuration of each before the search lies in its search space, their
  cross-validated R2 before tuning is 0.9 and 0.8, and the winner returned by
  \<open>run_hpo_top2\<close> has score 0.5.
\<close>

theorem hpo_not_above_pre_tuning_counterexample:
  "map model (take 2 hpo_example_ranked) = [''HistGBR'', ''CatBoost'']
   \<and> map cv_r2 (take 2 hpo_example_ranked) = [0.9, 0.8]
   \<and> name2pipe hpo_example_models ''HistGBR''
       = Some (''HistGBR'', first_point (get_param_distributions ''HistGBR''))
   \<and> name2pipe hpo_example_models ''CatBoost''
       = Some (''CatBoost'', first_point (get_param_distributions ''CatBoost''))
   \<and> get_param_distributions ''HistGBR'' \<noteq> []
   \<and> get_param_distributions ''CatBoost'' \<noteq> []
   \<and> in_space (first_point (get_param_distributions ''HistGBR'')) (get_param_distributions ''HistGBR'')
   \<and> in_space (first_point (get_param_distributions ''CatBoost'')) (get_param_distributions ''CatBoost'')
   \<and> hpo_example_cv (''HistGBR'', first_point (get_param_distributions ''HistGBR'')) = 0.9
   \<and> hpo_example_cv (''CatBoost'', first_point (get_param_distributions ''CatBoost'')) = 0.8
   \<and> map_sum id hpo_best_name
        (run_hpo_top2 hpo_example_search hpo_example_models (Some hpo_example_ranked))
       = Inr ''HistGBR''
   \<and> map_sum id hpo_best_score
        (run_hpo_top2 hpo_example_search hpo_example_models (Some hpo_example_ranked))
       = Inr 0.5
   \<and> (0.5 :: real) < max 0.9 0.8"
proof -
  have cv: "map cv_r2 (take 2 hpo_example_ranked) = [0.9, 0.8]"
    by (simp add: hpo_example_ranked_def result_row_def metrics.extend_def)
  show ?thesis
    by (simp add: hpo_example_top2 cv hpo_example_pipes hpo_example_spaces hpo_example_in_space
                  hpo_example_scores hpo_example_run)
qed

section \<open>Results: elemental ratios\<close>

lemma get_upd [simp]: "get (r(c \<mapsto> v)) c' = (if c' = c then v else get r c')"
  by (simp add: get_def)

lemma columns_coerce_col [simp]: "columns (coerce_col pn c df) = columns df"
  by (simp add: coerce_col_def set_col_def)

lemma rows_coerce_col [simp]:
  "rows (coerce_col pn c df) =
     map (\<lambda>r. if c \<in> set (columns df) then r(c \<mapsto> to_numeric pn (get r c)) else r) (rows df)"
  by (simp add: coerce_col_def set_col_def)

lemma columns_clamp_col [simp]: "columns (clamp_col pn c df) = columns df"
  by (simp add: clamp_col_def set_col_def)

lemma rows_clamp_col [simp]:
  "rows (clamp_col pn c df) =
     map (\<lambda>r. if c \<in> set (columns df) then r(c \<mapsto> clamp_negative pn (get r c)) else r) (rows df)"
  by (simp add: clamp_col_def set_col_def)

lemma aw_pos: "aw el > 0"
  by (simp add: aw_def)

lemma maskC_denom: "maskC r \<Longrightarrow> \<exists>d. denom r = Some d \<and> d > 0"
proof -
  assume "maskC r"
  then obtain x where x: "get r ''C_percent'' = Num x" "x > 0"
    by (auto simp: maskC_def split: cell.splits)
  then have "denom r = Some (x / aw ''C'')" by (simp add: denom_def as_float_def)
  moreover have "x / aw ''C'' > 0" using x(2) aw_pos by (rule divide_pos_pos)
  ultimately show ?thesis by blast
qed

lemma molar_ratio_ok: "maskC r \<Longrightarrow> \<not> isl (molar_ratio col el r)"
  using maskC_denom [of r]
  by (auto simp: molar_ratio_def np_div_def split: option.splits)

lemma loc_assign_ok:
  assumes "\<And>r. msk r \<Longrightarrow> \<not> isl (f r)"
  shows "loc_assign msk c f df =
      Inr \<lparr>columns = (if c \<in> set (columns df) then columns df else columns df @ [c]),
           rows = map (\<lambda>r. r(c \<mapsto> (if msk r then projr (f r)
                                     else if c \<in> set (columns df) then get r c else Null)))
                    (rows df)\<rparr>"
proof -
  have "List.find (\<lambda>r. msk r \<and> isl (f r)) (rows df) = None"
    using assms by (auto simp: find_None_iff)
  then show ?thesis by (simp add: loc_assign_def)
qed

lemmas loc_assign_ratio [simp] = loc_assign_ok [of maskC "molar_ratio col el" for col el, OF molar_ratio_ok]

lemma loc_assign_denom [simp]:
  "loc_assign maskC c (\<lambda>r. Inr (g r)) df =
      Inr \<lparr>columns = (if c \<in> set (columns df) then columns df else columns df @ [c]),
           rows = map (\<lambda>r. r(c \<mapsto> (if maskC r then g r
                                     else if c \<in> set (columns df) then get r c else Null)))
                    (rows df)\<rparr>"
  by (subst loc_assign_ok) auto

lemma bind_err_Inr [simp]: "bind_err (Inr x) f = f x"
  by (simp add: bind_err_def)

lemma maskC_upd [simp]: "c \<noteq> ''C_percent'' \<Longrightarrow> maskC (r(c \<mapsto> v)) = maskC r"
  by (simp add: maskC_def)

lemma denom_upd [simp]: "c \<noteq> ''C_percent'' \<Longrightarrow> denom (r(c \<mapsto> v)) = denom r"
  by (simp add: denom_def)


lemma add_elemental_ratios_steps:
  "add_elemental_ratios pn df0 =
     (let df = fold (coerce_col pn)
                 [''C_percent'', ''O_percent'', ''H_percent'', ''N_percent'', ''S_percent''] df0
      in if ''C_percent'' \<in> set (columns df) then
           bind_err (loc_assign maskC ''C_molar'' (\<lambda>r. Inr (of_float (denom r))) df) (\<lambda>df.
           bind_err (ratio_steps elements df) (\<lambda>df. Inr (fold (clamp_col pn) ratio_cols df)))
         else Inr df)"
  unfolding add_elemental_ratios_def elements_def Let_def
  by (simp add: bind_err_def split: sum.splits)

lemma maskC_cong: "get r ''C_percent'' = get r' ''C_percent'' \<Longrightarrow> maskC r = maskC r'"
  by (simp add: maskC_def)

lemma molar_ratio_cong:
  "get r ''C_percent'' = get r' ''C_percent'' \<Longrightarrow> get r col = get r' col \<Longrightarrow>
     molar_ratio col el r = molar_ratio col el r'"
  by (simp add: molar_ratio_def denom_def)

lemma ratio_step_total: "\<exists>df'. ratio_step col el out df = Inr df'"
  by (simp add: ratio_step_def)

lemma ratio_step_props:
  assumes "ratio_step col el out df = Inr df'"
  shows "length (rows df') = length (rows df)"
    and "set (columns df') = set (columns df) \<union> (if col \<in> set (columns df) then {out} else {})"
    and "i < length (rows df) \<Longrightarrow> q \<noteq> out \<Longrightarrow> get (rows df' ! i) q = get (rows df ! i) q"
    and "i < length (rows df) \<Longrightarrow> col \<in> set (columns df) \<Longrightarrow>
           get (rows df' ! i) out =
             (if maskC (rows df ! i) then projr (molar_ratio col el (rows df ! i))
              else if out \<in> set (columns df) then get (rows df ! i) out else Null)"
    and "col \<notin> set (columns df) \<Longrightarrow> df' = df"
  using assms by (auto simp: ratio_step_def split: if_splits)


lemma ratio_steps_props:
  assumes "distinct (map (\<lambda>e. snd (snd e)) es)"
      and "\<forall>e \<in> set es. snd (snd e) \<noteq> ''C_percent'' \<and> (\<forall>e' \<in> set es. snd (snd e) \<noteq> fst e')"
  shows "\<exists>df'. ratio_steps es df = Inr df'
           \<and> length (rows df') = length (rows df)
           \<and> set (columns df') =
               set (columns df) \<union> {snd (snd e) | e. e \<in> set es \<and> fst e \<in> set (columns df)}
           \<and> (\<forall>i q. i < length (rows df) \<longrightarrow> q \<notin> (\<lambda>e. snd (snd e)) ` set es \<longrightarrow>
                  get (rows df' ! i) q = get (rows df ! i) q)
           \<and> (\<forall>i col el out. i < length (rows df) \<longrightarrow> (col, el, out) \<in> set es \<longrightarrow>
                  get (rows df' ! i) out =
                    (if col \<in> set (columns df) then
                       (if maskC (rows df ! i) then projr (molar_ratio col el (rows df ! i))
                        else if out \<in> set (columns df) then get (rows df ! i) out else Null)
                     else get (rows df ! i) out))"
  using assms
proof (induction es arbitrary: df)
  case Nil
  then show ?case by simp
next
  case (Cons e rest)
  obtain col el out where e: "e = (col, el, out)" by (cases e) auto
  obtain df1 where s1: "ratio_step col el out df = Inr df1"
    using ratio_step_total by blast
  note p1 = ratio_step_props [OF s1]
  have d: "distinct (map (\<lambda>e. snd (snd e)) rest)" using Cons.prems(1) by simp
  have sep: "\<forall>e \<in> set rest. snd (snd e) \<noteq> ''C_percent'' \<and> (\<forall>e' \<in> set rest. snd (snd e) \<noteq> fst e')"
    using Cons.prems(2) by simp
  from Cons.IH [OF d sep, of df1] obtain df' where
    run: "ratio_steps rest df1 = Inr df'"
    and len: "length (rows df') = length (rows df1)"
    and cols: "set (columns df') =
               set (columns df1) \<union> {snd (snd e) | e. e \<in> set rest \<and> fst e \<in> set (columns df1)}"
    and keep: "\<forall>i q. i < length (rows df1) \<longrightarrow> q \<notin> (\<lambda>e. snd (snd e)) ` set rest \<longrightarrow>
                  get (rows df' ! i) q = get (rows df1 ! i) q"
    and val: "\<forall>i col el out. i < length (rows df1) \<longrightarrow> (col, el, out) \<in> set rest \<longrightarrow>
                  get (rows df' ! i) out =
                    (if col \<in> set (columns df1) then
                       (if maskC (rows df1 ! i) then projr (molar_ratio col el (rows df1 ! i))
                        else if out \<in> set (columns df1) then get (rows df1 ! i) out else Null)
                     else get (rows df1 ! i) out)"
    by blast
  have out_C: "out \<noteq> ''C_percent''" and out_col: "out \<noteq> col"
    and out_rest: "out \<notin> (\<lambda>e. snd (snd e)) ` set rest"
    and out_cols: "\<forall>e' \<in> set rest. out \<noteq> fst e'"
    and rest_col: "\<forall>e' \<in> set rest. snd (snd e') \<noteq> col"
    using Cons.prems e by auto
  have mem1: "\<And>c. c \<noteq> out \<Longrightarrow> c \<in> set (columns df1) \<longleftrightarrow> c \<in> set (columns df)"
    using p1(2) by (auto split: if_splits)
  have A: "ratio_steps (e # rest) df = Inr df'"
    using s1 run by (simp add: e)
  have B: "length (rows df') = length (rows df)"
    using len p1(1) by simp
  have C: "set (columns df') =
               set (columns df) \<union> {snd (snd x) | x. x \<in> set (e # rest) \<and> fst x \<in> set (columns df)}"
  proof -
    have "{snd (snd x) | x. x \<in> set rest \<and> fst x \<in> set (columns df1)}
        = {snd (snd x) | x. x \<in> set rest \<and> fst x \<in> set (columns df)}"
      using mem1 out_cols by (metis (no_types, lifting))
    then show ?thesis
      unfolding cols p1(2) e by auto
  qed
  have D: "\<forall>i q. i < length (rows df) \<longrightarrow> q \<notin> (\<lambda>e. snd (snd e)) ` set (e # rest) \<longrightarrow>
                  get (rows df' ! i) q = get (rows df ! i) q"
  proof (intro allI impI)
    fix i q
    assume i: "i < length (rows df)" and q: "q \<notin> (\<lambda>e. snd (snd e)) ` set (e # rest)"
    then have "q \<noteq> out" "q \<notin> (\<lambda>e. snd (snd e)) ` set rest" by (auto simp: e)
    then show "get (rows df' ! i) q = get (rows df ! i) q"
      using keep p1(1) p1(3) [OF i] i by simp
  qed
  have E: "\<forall>i col' el' out'. i < length (rows df) \<longrightarrow> (col', el', out') \<in> set (e # rest) \<longrightarrow>
                  get (rows df' ! i) out' =
                    (if col' \<in> set (columns df) then
                       (if maskC (rows df ! i) then projr (molar_ratio col' el' (rows df ! i))
                        else if out' \<in> set (columns df) then get (rows df ! i) out' else Null)
                     else get (rows df ! i) out')"
  proof (intro allI impI)
    fix i col' el' out'
    assume i: "i < length (rows df)" and m: "(col', el', out') \<in> set (e # rest)"
    have i1: "i < length (rows df1)" using i p1(1) by simp
    let ?r = "rows df ! i" and ?r1 = "rows df1 ! i"
    show "get (rows df' ! i) out' =
                    (if col' \<in> set (columns df) then
                       (if maskC ?r then projr (molar_ratio col' el' ?r)
                        else if out' \<in> set (columns df) then get ?r out' else Null)
                     else get ?r out')"
    proof (cases "(col', el', out') = e")
      case True
      then have eq: "col' = col" "el' = el" "out' = out" using e by auto
      have "get (rows df' ! i) out = get ?r1 out"
        using keep i1 out_rest by simp
      moreover have "col \<in> set (columns df) \<Longrightarrow> get ?r1 out =
             (if maskC ?r then projr (molar_ratio col el ?r)
              else if out \<in> set (columns df) then get ?r out else Null)"
        using p1(4) [OF i] by simp
      moreover have "col \<notin> set (columns df) \<Longrightarrow> get ?r1 out = get ?r out"
        using p1(5) by simp
      ultimately show ?thesis unfolding eq by simp
    next
      case False
      with m have mr: "(col', el', out') \<in> set rest" by simp
      then have ne: "out' \<noteq> out" using out_rest by force
      have ne2: "col' \<noteq> out" using out_cols mr by force
      have gC: "get ?r1 ''C_percent'' = get ?r ''C_percent''"
        using p1(3) [OF i] out_C by simp
      have gcol: "get ?r1 col' = get ?r col'"
        using p1(3) [OF i] ne2 by simp
      have gout: "get ?r1 out' = get ?r out'"
        using p1(3) [OF i] ne by simp
      have mk: "maskC ?r1 = maskC ?r" using gC by (rule maskC_cong)
      have mr': "molar_ratio col' el' ?r1 = molar_ratio col' el' ?r"
        using gC gcol by (rule molar_ratio_cong)
      from val i1 mr have "get (rows df' ! i) out' =
                    (if col' \<in> set (columns df1) then
                       (if maskC ?r1 then projr (molar_ratio col' el' ?r1)
                        else if out' \<in> set (columns df1) then get ?r1 out' else Null)
                     else get ?r1 out')" by blast
      then show ?thesis
        unfolding mk mr' gout mem1 [OF ne] mem1 [OF ne2] .
    qed
  qed
  from A B C D E show ?case by blast
qed


lemma to_numeric_idem [simp]: "to_numeric pn (to_numeric pn v) = to_numeric pn v"
  by (simp add: to_numeric_def split: cell.splits option.splits)

lemma to_numeric_not_Str [simp]: "to_numeric pn v \<noteq> Str s"
  by (simp add: to_numeric_def split: cell.splits option.splits)

lemma clamp_negative_idem [simp]: "clamp_negative pn (clamp_negative pn v) = clamp_negative pn v"
  by (simp add: clamp_negative_def to_numeric_def split: cell.splits option.splits)

lemma clamp_negative_Num [simp]: "clamp_negative pn (Num x) = Num (max 0 x)"
  by (simp add: clamp_negative_def to_numeric_def max_def)

lemma clamp_negative_Null [simp]: "clamp_negative pn Null = Null"
  by (simp add: clamp_negative_def to_numeric_def)

lemma clamp_negative_case:
  "clamp_negative pn (case t of Num h \<Rightarrow> Num (f h) | _ \<Rightarrow> Null) =
     (case t of Num h \<Rightarrow> Num (max 0 (f h)) | _ \<Rightarrow> Null)"
  by (cases t) simp_all


lemma fold_coerce_props:
  "columns (fold (coerce_col pn) cs df) = columns df"
  "length (rows (fold (coerce_col pn) cs df)) = length (rows df)"
  "i < length (rows df) \<Longrightarrow>
     get (rows (fold (coerce_col pn) cs df) ! i) q =
       (if q \<in> set cs \<and> q \<in> set (columns df) then to_numeric pn (get (rows df ! i) q)
        else get (rows df ! i) q)"
  by (induction cs arbitrary: df) auto

lemma fold_clamp_props:
  "columns (fold (clamp_col pn) cs df) = columns df"
  "length (rows (fold (clamp_col pn) cs df)) = length (rows df)"
  "i < length (rows df) \<Longrightarrow>
     get (rows (fold (clamp_col pn) cs df) ! i) q =
       (if q \<in> set cs \<and> q \<in> set (columns df) then clamp_negative pn (get (rows df ! i) q)
        else get (rows df ! i) q)"
  by (induction cs arbitrary: df) auto

lemma elements_sep:
  "distinct (map (\<lambda>e. snd (snd e)) elements)"
  "\<forall>e \<in> set elements. snd (snd e) \<noteq> ''C_percent'' \<and> (\<forall>e' \<in> set elements. snd (snd e) \<noteq> fst e')"
  by (simp_all add: elements_def)

lemma elements_out_unique:
  "(col, el, q) \<in> set elements \<Longrightarrow> (col', el', q) \<in> set elements \<Longrightarrow> col' = col \<and> el' = el"
  by (auto simp: elements_def)

lemma ratio_cols_cases:
  assumes "q \<in> set ratio_cols" "q \<noteq> ''C_molar''"
  obtains col el where "(col, el, q) \<in> set elements"
proof -
  from assms have "q = ''H_C_molar'' \<or> q = ''O_C_molar'' \<or> q = ''N_C_molar'' \<or> q = ''S_C_molar''"
    by (simp add: ratio_cols_def)
  then consider "q = ''H_C_molar''" | "q = ''O_C_molar''" | "q = ''N_C_molar''" | "q = ''S_C_molar''"
    by blast
  then show thesis
  proof cases
    case 1
    have "(''H_percent'', ''H'', ''H_C_molar'') \<in> set elements" by (simp add: elements_def)
    with 1 that show ?thesis by blast
  next
    case 2
    have "(''O_percent'', ''O'', ''O_C_molar'') \<in> set elements" by (simp add: elements_def)
    with 2 that show ?thesis by blast
  next
    case 3
    have "(''N_percent'', ''N'', ''N_C_molar'') \<in> set elements" by (simp add: elements_def)
    with 3 that show ?thesis by blast
  next
    case 4
    have "(''S_percent'', ''S'', ''S_C_molar'') \<in> set elements" by (simp add: elements_def)
    with 4 that show ?thesis by blast
  qed
qed

lemma add_elemental_ratios_no_carbon:
  assumes "''C_percent'' \<notin> set (columns df0)"
  shows "add_elemental_ratios pn df0 =
     Inr (fold (coerce_col pn)
            [''C_percent'', ''O_percent'', ''H_percent'', ''N_percent'', ''S_percent''] df0)"
  using assms unfolding add_elemental_ratios_steps Let_def
  by (simp only: fold_coerce_props if_False)

lemma add_elemental_ratios_cells:
  assumes C: "''C_percent'' \<in> set (columns df0)"
  shows "\<exists>out. add_elemental_ratios pn df0 = Inr out
     \<and> length (rows out) = length (rows df0)
     \<and> set (columns out) = set (columns df0) \<union> {''C_molar''}
          \<union> {snd (snd e) | e. e \<in> set elements \<and> fst e \<in> set (columns df0)}
     \<and> (\<forall>i x. i < length (rows df0) \<longrightarrow>
            to_numeric pn (get (rows df0 ! i) ''C_percent'') = Num x \<longrightarrow> x > 0 \<longrightarrow>
              get (rows out ! i) ''C_molar'' = Num (x / aw ''C'')
              \<and> (\<forall>col el q. (col, el, q) \<in> set elements \<longrightarrow> col \<in> set (columns df0) \<longrightarrow>
                    get (rows out ! i) q =
                      (case to_numeric pn (get (rows df0 ! i) col) of
                         Num h \<Rightarrow> Num (max 0 ((h / aw el) / (x / aw ''C'')))
                       | _ \<Rightarrow> Null)))
     \<and> (\<forall>i q. i < length (rows df0) \<longrightarrow>
            \<not> (\<exists>x. to_numeric pn (get (rows df0 ! i) ''C_percent'') = Num x \<and> x > 0) \<longrightarrow>
            q \<in> set ratio_cols \<longrightarrow> q \<in> set (columns out) \<longrightarrow>
              get (rows out ! i) q =
                (if q \<in> set (columns df0) then clamp_negative pn (get (rows df0 ! i) q) else Null))
     \<and> (\<forall>i col el q. i < length (rows df0) \<longrightarrow> (col, el, q) \<in> set elements \<longrightarrow>
            col \<notin> set (columns df0) \<longrightarrow> q \<in> set (columns df0) \<longrightarrow>
              get (rows out ! i) q = clamp_negative pn (get (rows df0 ! i) q))"
proof -
  let ?five = "[''C_percent'', ''O_percent'', ''H_percent'', ''N_percent'', ''S_percent'']"
  define df1 where "df1 = fold (coerce_col pn) ?five df0"
  define df2 where "df2 = \<lparr>columns = (if ''C_molar'' \<in> set (columns df1) then columns df1
                            else columns df1 @ [''C_molar'']),
               rows = map (\<lambda>r. r(''C_molar'' \<mapsto> (if maskC r then of_float (denom r)
                        else if ''C_molar'' \<in> set (columns df1) then get r ''C_molar'' else Null)))
                      (rows df1)\<rparr>"
  note c1 = fold_coerce_props [where pn = pn and cs = ?five and df = df0, folded df1_def]
  have step2: "loc_assign maskC ''C_molar'' (\<lambda>r. Inr (of_float (denom r))) df1 = Inr df2"
    unfolding df2_def by (rule loc_assign_denom)
  have cols2: "set (columns df2) = set (columns df0) \<union> {''C_molar''}"
    by (auto simp: df2_def c1(1))
  have len2: "length (rows df2) = length (rows df0)"
    by (simp add: df2_def c1(2))
  from ratio_steps_props [OF elements_sep, of df2] obtain df3 where
    run3: "ratio_steps elements df2 = Inr df3"
    and len3: "length (rows df3) = length (rows df2)"
    and cols3: "set (columns df3) =
               set (columns df2) \<union> {snd (snd e) | e. e \<in> set elements \<and> fst e \<in> set (columns df2)}"
    and keep3: "\<forall>i q. i < length (rows df2) \<longrightarrow> q \<notin> (\<lambda>e. snd (snd e)) ` set elements \<longrightarrow>
                  get (rows df3 ! i) q = get (rows df2 ! i) q"
    and val3: "\<forall>i col el out. i < length (rows df2) \<longrightarrow> (col, el, out) \<in> set elements \<longrightarrow>
                  get (rows df3 ! i) out =
                    (if col \<in> set (columns df2) then
                       (if maskC (rows df2 ! i) then projr (molar_ratio col el (rows df2 ! i))
                        else if out \<in> set (columns df2) then get (rows df2 ! i) out else Null)
                     else get (rows df2 ! i) out)"
    by blast
  let ?out = "fold (clamp_col pn) ratio_cols df3"
  note c4 = fold_clamp_props [where pn = pn and cs = ratio_cols and df = df3]
  have C1: "''C_percent'' \<in> set (columns df1)" using C by (simp add: c1(1))
  have run: "add_elemental_ratios pn df0 = Inr ?out"
    unfolding add_elemental_ratios_steps Let_def df1_def [symmetric]
    by (simp only: C1 if_True step2 bind_err_Inr run3)
  have len: "length (rows ?out) = length (rows df0)"
    by (simp add: c4(2) len3 len2)
  have colmem: "\<And>e. e \<in> set elements \<Longrightarrow> fst e \<in> set (columns df2) \<longleftrightarrow> fst e \<in> set (columns df0)"
    unfolding cols2 by (auto simp: elements_def)
  have "{snd (snd e) | e. e \<in> set elements \<and> fst e \<in> set (columns df2)}
      = {snd (snd e) | e. e \<in> set elements \<and> fst e \<in> set (columns df0)}"
    using colmem by blast
  then have cols: "set (columns ?out) = set (columns df0) \<union> {''C_molar''}
          \<union> {snd (snd e) | e. e \<in> set elements \<and> fst e \<in> set (columns df0)}"
    unfolding c4(1) cols3 cols2 by simp
  have r1: "\<And>i q. i < length (rows df0) \<Longrightarrow> get (rows df1 ! i) q =
       (if q \<in> set ?five \<and> q \<in> set (columns df0) then to_numeric pn (get (rows df0 ! i) q)
        else get (rows df0 ! i) q)"
    by (rule c1(3))
  have r2: "\<And>i q. i < length (rows df0) \<Longrightarrow> q \<noteq> ''C_molar'' \<Longrightarrow>
       get (rows df2 ! i) q = get (rows df1 ! i) q"
    by (simp add: df2_def c1(2))
  have r2m: "\<And>i. i < length (rows df0) \<Longrightarrow>
       get (rows df2 ! i) ''C_molar'' =
         (if maskC (rows df1 ! i) then of_float (denom (rows df1 ! i))
          else if ''C_molar'' \<in> set (columns df0) then get (rows df1 ! i) ''C_molar'' else Null)"
    by (simp add: df2_def c1(1) c1(2))
  have r2C: "\<And>i. i < length (rows df0) \<Longrightarrow>
       get (rows df2 ! i) ''C_percent'' = to_numeric pn (get (rows df0 ! i) ''C_percent'')"
    using r2 r1 C by simp
  have masked: "i < length (rows df0) \<longrightarrow>
            to_numeric pn (get (rows df0 ! i) ''C_percent'') = Num x \<longrightarrow> x > 0 \<longrightarrow>
              get (rows ?out ! i) ''C_molar'' = Num (x / aw ''C'')
              \<and> (\<forall>col el q. (col, el, q) \<in> set elements \<longrightarrow> col \<in> set (columns df0) \<longrightarrow>
                    get (rows ?out ! i) q =
                      (case to_numeric pn (get (rows df0 ! i) col) of
                         Num h \<Rightarrow> Num (max 0 ((h / aw el) / (x / aw ''C'')))
                       | _ \<Rightarrow> Null))" for i x
  proof (intro impI)
    assume i: "i < length (rows df0)"
      and cx: "to_numeric pn (get (rows df0 ! i) ''C_percent'') = Num x" and x: "x > 0"
    have i1: "i < length (rows df1)" and i2: "i < length (rows df2)" and i3: "i < length (rows df3)"
      using i by (simp_all add: c1(2) len3 len2)
    have g1C: "get (rows df1 ! i) ''C_percent'' = Num x" using r1 [OF i] C cx by simp
    then have m1: "maskC (rows df1 ! i)" using x by (simp add: maskC_def)
    have d1: "denom (rows df1 ! i) = Some (x / aw ''C'')"
      using g1C by (simp add: denom_def as_float_def)
    have g2C: "get (rows df2 ! i) ''C_percent'' = Num x" using r2C [OF i] cx by simp
    then have m2: "maskC (rows df2 ! i)" using x by (simp add: maskC_def)
    have d2: "denom (rows df2 ! i) = Some (x / aw ''C'')"
      using g2C by (simp add: denom_def as_float_def)
    have dpos: "x / aw ''C'' > 0" using x aw_pos by (rule divide_pos_pos)
    have "get (rows df2 ! i) ''C_molar'' = Num (x / aw ''C'')"
      using r2m [OF i] m1 d1 by (simp add: of_float_def)
    moreover have "''C_molar'' \<notin> (\<lambda>e. snd (snd e)) ` set elements" by (simp add: elements_def)
    ultimately have "get (rows df3 ! i) ''C_molar'' = Num (x / aw ''C'')"
      using keep3 i2 by simp
    then have cm: "get (rows ?out ! i) ''C_molar'' = Num (x / aw ''C'')"
      using c4(3) [OF i3, of "''C_molar''"] dpos by (simp add: max_def)
    have el: "get (rows ?out ! i) q =
                      (case to_numeric pn (get (rows df0 ! i) col) of
                         Num h \<Rightarrow> Num (max 0 ((h / aw el) / (x / aw ''C'')))
                       | _ \<Rightarrow> Null)"
      if mem: "(col, el, q) \<in> set elements" and cin: "col \<in> set (columns df0)" for col el q
    proof -
      have col5: "col \<in> set ?five" and colne: "col \<noteq> ''C_molar''" and qr: "q \<in> set ratio_cols"
        using mem by (auto simp: elements_def ratio_cols_def)
      have cin2: "col \<in> set (columns df2)" using colmem [OF mem] cin by simp
      have gcol: "get (rows df2 ! i) col = to_numeric pn (get (rows df0 ! i) col)"
        using r2 [OF i colne] r1 [OF i] col5 cin by simp
      have v3: "get (rows df3 ! i) q = projr (molar_ratio col el (rows df2 ! i))"
        using val3 i2 mem cin2 m2 by simp
      have qin: "q \<in> set (columns df3)"
        unfolding cols3 using mem cin2 by force
      have mr: "projr (molar_ratio col el (rows df2 ! i)) =
          (case to_numeric pn (get (rows df0 ! i) col) of
             Num h \<Rightarrow> Num ((h / aw el) / (x / aw ''C'')) | _ \<Rightarrow> Null)"
        using x aw_pos [of "''C''"]
        by (simp add: molar_ratio_def gcol d2 np_div_def as_float_def of_float_def
            split: cell.splits)
      have "get (rows ?out ! i) q = clamp_negative pn (get (rows df3 ! i) q)"
        using c4(3) [OF i3, of q] qr qin by simp
      then show ?thesis
        unfolding v3 mr clamp_negative_case .
    qed
    from cm el show "get (rows ?out ! i) ''C_molar'' = Num (x / aw ''C'')
              \<and> (\<forall>col el q. (col, el, q) \<in> set elements \<longrightarrow> col \<in> set (columns df0) \<longrightarrow>
                    get (rows ?out ! i) q =
                      (case to_numeric pn (get (rows df0 ! i) col) of
                         Num h \<Rightarrow> Num (max 0 ((h / aw el) / (x / aw ''C'')))
                       | _ \<Rightarrow> Null))" by blast
  qed
  have unmasked: "i < length (rows df0) \<longrightarrow>
            \<not> (\<exists>x. to_numeric pn (get (rows df0 ! i) ''C_percent'') = Num x \<and> x > 0) \<longrightarrow>
            q \<in> set ratio_cols \<longrightarrow> q \<in> set (columns ?out) \<longrightarrow>
              get (rows ?out ! i) q =
                (if q \<in> set (columns df0) then clamp_negative pn (get (rows df0 ! i) q) else Null)" for i q
  proof (intro impI)
    assume i: "i < length (rows df0)"
      and nx: "\<not> (\<exists>x. to_numeric pn (get (rows df0 ! i) ''C_percent'') = Num x \<and> x > 0)"
      and qr: "q \<in> set ratio_cols" and qo: "q \<in> set (columns ?out)"
    have i1: "i < length (rows df1)" and i2: "i < length (rows df2)" and i3: "i < length (rows df3)"
      using i by (simp_all add: c1(2) len3 len2)
    have q5: "q \<notin> set ?five" using qr by (auto simp: ratio_cols_def)
    have g1q: "get (rows df1 ! i) q = get (rows df0 ! i) q" using r1 [OF i] q5 by simp
    have n1: "\<not> maskC (rows df1 ! i)"
      using nx r1 [OF i, of "''C_percent''"] C by (auto simp: maskC_def split: cell.splits)
    have n2: "\<not> maskC (rows df2 ! i)"
      using nx r2C [OF i] by (auto simp: maskC_def split: cell.splits)
    have q3: "q \<in> set (columns df3)" using qo by (simp add: c4(1))
    have fin: "get (rows ?out ! i) q = clamp_negative pn (get (rows df3 ! i) q)"
      using c4(3) [OF i3, of q] qr q3 by simp
    show "get (rows ?out ! i) q =
                (if q \<in> set (columns df0) then clamp_negative pn (get (rows df0 ! i) q) else Null)"
    proof (cases "q = ''C_molar''")
      case True
      have "get (rows df2 ! i) ''C_molar'' =
              (if ''C_molar'' \<in> set (columns df0) then get (rows df0 ! i) ''C_molar'' else Null)"
        using r2m [OF i] n1 g1q True by simp
      moreover have "''C_molar'' \<notin> (\<lambda>e. snd (snd e)) ` set elements" by (simp add: elements_def)
      ultimately have "get (rows df3 ! i) ''C_molar'' =
              (if ''C_molar'' \<in> set (columns df0) then get (rows df0 ! i) ''C_molar'' else Null)"
        using keep3 i2 by simp
      then show ?thesis using fin True by simp
    next
      case False
      from ratio_cols_cases [OF qr False] obtain col el where mem: "(col, el, q) \<in> set elements" .
      have g2q: "get (rows df2 ! i) q = get (rows df0 ! i) q"
        using r2 [OF i False] g1q by simp
      have qmem2: "q \<in> set (columns df2) \<longleftrightarrow> q \<in> set (columns df0)"
        unfolding cols2 using False by simp
      have v3: "get (rows df3 ! i) q =
                    (if col \<in> set (columns df2) then
                       (if q \<in> set (columns df0) then get (rows df0 ! i) q else Null)
                     else get (rows df0 ! i) q)"
        using val3 i2 mem n2 g2q qmem2 by simp
      show ?thesis
      proof (cases "col \<in> set (columns df2)")
        case True
        then show ?thesis using fin v3 by simp
      next
        case cn: False
        have "q \<in> set (columns df2)"
        proof -
          from q3 have "q \<in> set (columns df2) \<or> (\<exists>e. e \<in> set elements \<and> snd (snd e) = q \<and> fst e \<in> set (columns df2))"
            unfolding cols3 by auto
          moreover have "\<And>e. e \<in> set elements \<Longrightarrow> snd (snd e) = q \<Longrightarrow> fst e = col"
            using elements_out_unique [OF mem] by (metis prod.collapse)
          ultimately show ?thesis using cn by auto
        qed
        then have "q \<in> set (columns df0)" using qmem2 by simp
        then show ?thesis using fin v3 cn by simp
      qed
    qed
  qed
  have absent: "i < length (rows df0) \<longrightarrow> (col, el, q) \<in> set elements \<longrightarrow>
            col \<notin> set (columns df0) \<longrightarrow> q \<in> set (columns df0) \<longrightarrow>
              get (rows ?out ! i) q = clamp_negative pn (get (rows df0 ! i) q)" for i col el q
  proof (intro impI)
    assume i: "i < length (rows df0)" and mem: "(col, el, q) \<in> set elements"
      and cn: "col \<notin> set (columns df0)" and qin: "q \<in> set (columns df0)"
    have i2: "i < length (rows df2)" and i3: "i < length (rows df3)"
      using i by (simp_all add: len3 len2)
    have qr: "q \<in> set ratio_cols" and qne: "q \<noteq> ''C_molar''" and q5: "q \<notin> set ?five"
      using mem by (auto simp: elements_def ratio_cols_def)
    have cn2: "col \<notin> set (columns df2)" using colmem [OF mem] cn by simp
    have "get (rows df3 ! i) q = get (rows df2 ! i) q"
      using val3 i2 mem cn2 by simp
    also have "\<dots> = get (rows df1 ! i) q" using r2 [OF i qne] .
    also have "\<dots> = get (rows df0 ! i) q" using r1 [OF i] q5 by simp
    finally have g3: "get (rows df3 ! i) q = get (rows df0 ! i) q" .
    have "q \<in> set (columns df3)" unfolding cols3 cols2 using qin by simp
    then show "get (rows ?out ! i) q = clamp_negative pn (get (rows df0 ! i) q)"
      using c4(3) [OF i3, of q] qr g3 by simp
  qed
  show ?thesis
  proof (intro exI conjI)
    show "\<forall>i col el q. i < length (rows df0) \<longrightarrow> (col, el, q) \<in> set elements \<longrightarrow>
            col \<notin> set (columns df0) \<longrightarrow> q \<in> set (columns df0) \<longrightarrow>
              get (rows ?out ! i) q = clamp_negative pn (get (rows df0 ! i) q)"
      using absent by (intro allI)
    show "add_elemental_ratios pn df0 = Inr ?out" by (rule run)
    show "length (rows ?out) = length (rows df0)" by (rule len)
    show "set (columns ?out) = set (columns df0) \<union> {''C_molar''}
          \<union> {snd (snd e) | e. e \<in> set elements \<and> fst e \<in> set (columns df0)}" by (rule cols)
    show "\<forall>i x. i < length (rows df0) \<longrightarrow>
            to_numeric pn (get (rows df0 ! i) ''C_percent'') = Num x \<longrightarrow> x > 0 \<longrightarrow>
              get (rows ?out ! i) ''C_molar'' = Num (x / aw ''C'')
              \<and> (\<forall>col el q. (col, el, q) \<in> set elements \<longrightarrow> col \<in> set (columns df0) \<longrightarrow>
                    get (rows ?out ! i) q =
                      (case to_numeric pn (get (rows df0 ! i) col) of
                         Num h \<Rightarrow> Num (max 0 ((h / aw el) / (x / aw ''C'')))
                       | _ \<Rightarrow> Null))"
      using masked by (intro allI)
    show "\<forall>i q. i < length (rows df0) \<longrightarrow>
            \<not> (\<exists>x. to_numeric pn (get (rows df0 ! i) ''C_percent'') = Num x \<and> x > 0) \<longrightarrow>
            q \<in> set ratio_cols \<longrightarrow> q \<in> set (columns ?out) \<longrightarrow>
              get (rows ?out ! i) q =
                (if q \<in> set (columns df0) then clamp_negative pn (get (rows df0 ! i) q) else Null)"
      using unmasked by (intro allI)
  qed
qed



lemmas ratio_eval =
  add_elemental_ratios_def get_def coerce_col_def set_col_def to_numeric_def
  bind_err_def loc_assign_def ratio_step_def maskC_def denom_def molar_ratio_def np_div_def
  as_float_def of_float_def aw_def clamp_col_def clamp_negative_def ratio_cols_def Let_def
  out_cell_def no_text_def



text \<open>
  Claim C2 at a failing input. The frame has the columns \<open>C_percent\<close>, \<open>H_percent\<close> and
  \<open>H_C_molar\<close> and one row, with carbon 0, hydrogen 2 and a carried ratio of 0.5. The row
  is outside the mask, so its ratio is not computed, and the docstring and the printed
  note say that such a row has NaN there; the output cell is the carried 0.5. The call
  returns a frame, and the carbon molar quantity of the row, a new column, is missing.
\<close>

theorem carried_ratio_kept:
  "rows carried_ratio_example = [[''C_percent'' \<mapsto> Num 0, ''H_percent'' \<mapsto> Num 2,
                                   ''H_C_molar'' \<mapsto> Num 0.5]]
   \<and> \<not> maskC (rows carried_ratio_example ! 0)
   \<and> out_cell (add_elemental_ratios no_text carried_ratio_example) 0 ''C_molar'' = Inr Null
   \<and> out_cell (add_elemental_ratios no_text carried_ratio_example) 0 ''H_C_molar'' = Inr (Num 0.5)
   \<and> Num 0.5 \<noteq> Null"
  by (simp add: ratio_eval carried_ratio_example_def)

section \<open>Results: descriptor join\<close>

lemma pharm_df_keys:
  "map fst pharm_df =
     [''PHE'', ''APAP'', ''ASA'', ''BENZ'', ''CAF'', ''CIP'', ''CIT'', ''DCF'', ''FLX'', ''IBU'',
      ''MTZ'', ''NPX'', ''NOR'', ''OTC'', ''SA'', ''SDZ'', ''SMR'', ''SMT'', ''SMX'', ''TC'', ''CBZ'']"
  by code_simp

lemma distinct_pharm_df: "distinct (map fst pharm_df)"
  unfolding pharm_df_keys by simp

lemma filter_key_distinct:
  "distinct (map fst kvs) \<Longrightarrow>
     filter (\<lambda>p. fst p = k) kvs = (case map_of kvs k of None \<Rightarrow> [] | Some v \<Rightarrow> [(k, v)])"
proof (induction kvs)
  case Nil
  then show ?case by simp
next
  case (Cons p kvs)
  obtain a b where p: "p = (a, b)" by (cases p)
  show ?case
  proof (cases "a = k")
    case True
    with Cons.prems p have "k \<notin> fst ` set kvs" by auto
    then have "filter (\<lambda>p. fst p = k) kvs = []" by (auto simp: filter_empty_conv)
    with True p show ?thesis by simp
  next
    case False
    with Cons p show ?thesis by simp
  qed
qed

lemma pharm_merge_row_key: "pharm_merge_row p ''pharm_code_norm'' = Some (Str (fst p))"
  by (cases p) (simp add: pharm_merge_row_def tmp_map_def)

lemma pharm_matches:
  "filter (\<lambda>r. r ''pharm_code_norm'' = Some (Str k)) (rows pharm_merge) =
     (case pharm_lookup k of None \<Rightarrow> [] | Some d \<Rightarrow> [pharm_merge_row (k, d)])"
proof -
  have "filter (\<lambda>r. r ''pharm_code_norm'' = Some (Str k)) (rows pharm_merge)
      = map pharm_merge_row (filter (\<lambda>p. fst p = k) pharm_df)"
    by (simp add: pharm_merge_def filter_map comp_def pharm_merge_row_key)
  also have "\<dots> = (case pharm_lookup k of None \<Rightarrow> [] | Some d \<Rightarrow> [pharm_merge_row (k, d)])"
    unfolding filter_key_distinct [OF distinct_pharm_df] pharm_lookup_def
    by (simp split: option.splits)
  finally show ?thesis .
qed


lemma get_map_add: "get (l ++ m) q = (case m q of None \<Rightarrow> get l q | Some v \<Rightarrow> v)"
  by (simp add: get_def map_add_def split: option.splits)

lemma map_cols_cases:
  "c \<in> set map_cols \<Longrightarrow> c = ''E'' \<or> c = ''S'' \<or> c = ''A'' \<or> c = ''B'' \<or> c = ''V''"
  by (simp add: map_cols_def)

lemma tmp_map_inj [simp]: "tmp_map c = tmp_map c' \<longleftrightarrow> c = c'"
  by (simp add: tmp_map_def)

lemma tmp_map_not_key [simp]: "tmp_map c \<noteq> ''pharm_code_norm''" "''pharm_code_norm'' \<noteq> tmp_map c"
  by (simp_all add: tmp_map_def)

lemma tmp_map_not_col: "c' \<in> set map_cols \<Longrightarrow> tmp_map c \<noteq> c'"
  by (drule map_cols_cases) (auto simp: tmp_map_def)

lemma key_not_col: "c \<in> set map_cols \<Longrightarrow> c \<noteq> ''pharm_code_norm''"
  by (drule map_cols_cases) auto

lemma merge_row_tmp:
  assumes "c \<in> set map_cols"
  shows "pharm_merge_row (k, d) (tmp_map c) = Some (Num (descriptor c d))"
proof -
  obtain e s a b v where d: "d = (e, s, a, b, v)" by (cases d) auto
  from map_cols_cases [OF assms] show ?thesis
    by (elim disjE) (simp_all add: d pharm_merge_row_def tmp_map_def descriptor_def)
qed

lemma merge_row_other:
  assumes "q \<noteq> ''pharm_code_norm''" "q \<notin> tmp_map ` set map_cols"
  shows "pharm_merge_row p q = None"
proof -
  obtain k e s a b v where p: "p = (k, e, s, a, b, v)" by (cases p) auto
  from assms(2) have "q \<noteq> tmp_map ''E''" "q \<noteq> tmp_map ''S''" "q \<noteq> tmp_map ''A''"
    "q \<noteq> tmp_map ''B''" "q \<noteq> tmp_map ''V''"
    by (auto simp: map_cols_def)
  with assms(1) show ?thesis by (simp add: p pharm_merge_row_def)
qed

lemma add_pharm_features_rows:
  assumes "''Target_Phar'' \<in> set (columns df)"
  shows "add_pharm_features fmt df =
     Inr \<lparr>columns = (if ''pharm_code_norm'' \<in> set (columns df) then columns df
                      else columns df @ [''pharm_code_norm'']) @ map tmp_map map_cols,
          rows = map (joined_row fmt) (rows df)\<rparr>"
proof -
  let ?L = "set_col ''pharm_code_norm'' (\<lambda>r. Str (code_norm fmt r)) df"
  have cols: "filter (\<lambda>c. c \<noteq> ''pharm_code_norm'') (columns pharm_merge) = map tmp_map map_cols"
    by (simp add: pharm_merge_def filter_map comp_def)
  have one: "(\<lambda>r. case filter (\<lambda>r'. r' ''pharm_code_norm'' = Some (Str (code_norm fmt r)))
                  (rows pharm_merge) of
               [] \<Rightarrow> [r(''pharm_code_norm'' \<mapsto> Str (code_norm fmt r))
                        ++ (\<lambda>c. if c \<in> set (columns pharm_merge) \<and> c \<noteq> ''pharm_code_norm''
                                 then Some Null else None)]
             | ms \<Rightarrow> map (\<lambda>r'. r(''pharm_code_norm'' \<mapsto> Str (code_norm fmt r))
                                ++ r'(''pharm_code_norm'' := None)) ms)
          = (\<lambda>r. [joined_row fmt r])"
    by (rule ext) (simp add: pharm_matches joined_row_def Let_def split: option.splits)
  have "rows (merge_left ''pharm_code_norm'' ?L pharm_merge)
        = concat (map (\<lambda>r. [joined_row fmt r]) (rows df))"
    unfolding merge_left_def set_col_def
    by (simp add: comp_def one)
  also have "\<dots> = map (joined_row fmt) (rows df)"
    by (induction "rows df") auto
  finally have rws: "rows (merge_left ''pharm_code_norm'' ?L pharm_merge) = map (joined_row fmt) (rows df)" .
  have cls: "columns (merge_left ''pharm_code_norm'' ?L pharm_merge)
      = (if ''pharm_code_norm'' \<in> set (columns df) then columns df
                      else columns df @ [''pharm_code_norm'']) @ map tmp_map map_cols"
    unfolding merge_left_def by (simp add: cols set_col_def)
  show ?thesis
    using assms rws cls by (simp add: add_pharm_features_def)
qed

lemma joined_row_tmp:
  assumes "c \<in> set map_cols"
  shows "get (joined_row fmt r) (tmp_map c) =
     (case pharm_lookup (code_norm fmt r) of None \<Rightarrow> Null | Some d \<Rightarrow> Num (descriptor c d))"
proof -
  have "tmp_map c \<in> set (columns pharm_merge)" using assms by (simp add: pharm_merge_def)
  then show ?thesis
    by (simp add: joined_row_def Let_def get_map_add merge_row_tmp [OF assms] split: option.splits)
qed

lemma joined_row_other:
  assumes "q \<noteq> ''pharm_code_norm''" "q \<notin> tmp_map ` set map_cols"
  shows "get (joined_row fmt r) q = get r q"
proof -
  have "q \<notin> set (columns pharm_merge)" using assms by (simp add: pharm_merge_def)
  then show ?thesis
    using assms(1)
    by (simp add: joined_row_def Let_def get_map_add merge_row_other [OF assms] split: option.splits)
qed


lemma tmp_map_not_self [simp]: "tmp_map c \<noteq> c" "c \<noteq> tmp_map c"
  by (simp_all add: tmp_map_def)

lemma get_drop [simp]: "get (r(c := None)) q = (if q = c then Null else get r q)"
  by (simp add: get_def)

lemma drop_col_props:
  "length (rows (drop_col c d)) = length (rows d)"
  "set (columns (drop_col c d)) = set (columns d) - {c}"
  "i < length (rows d) \<Longrightarrow> get (rows (drop_col c d) ! i) q = (if q = c then Null else get (rows d ! i) q)"
  by (simp_all add: drop_col_def)

lemma clean_step_props:
  assumes "tmp_map c \<in> set (columns d)"
  shows "length (rows (clean_step pn c d)) = length (rows d)"
    and "set (columns (clean_step pn c d)) = insert c (set (columns d)) - {tmp_map c}"
    and "i < length (rows d) \<Longrightarrow>
           get (rows (clean_step pn c d) ! i) c =
             (if c \<in> set (columns d)
              then fillna (to_numeric pn (get (rows d ! i) c)) (get (rows d ! i) (tmp_map c))
              else get (rows d ! i) (tmp_map c))"
    and "i < length (rows d) \<Longrightarrow> q \<noteq> c \<Longrightarrow> q \<noteq> tmp_map c \<Longrightarrow>
           get (rows (clean_step pn c d) ! i) q = get (rows d ! i) q"
  using assms
  by (auto simp: clean_step_def Let_def drop_col_def set_col_def)

lemma fold_clean_props:
  assumes "distinct cs"
      and "\<forall>c \<in> set cs. tmp_map c \<in> set (columns d)"
      and "\<forall>c \<in> set cs. \<forall>c' \<in> set cs. tmp_map c \<noteq> c'"
  shows "length (rows (fold (clean_step pn) cs d)) = length (rows d)
     \<and> set (columns (fold (clean_step pn) cs d)) = (set (columns d) \<union> set cs) - tmp_map ` set cs
     \<and> (\<forall>i c. i < length (rows d) \<longrightarrow> c \<in> set cs \<longrightarrow>
           get (rows (fold (clean_step pn) cs d) ! i) c =
             (if c \<in> set (columns d)
              then fillna (to_numeric pn (get (rows d ! i) c)) (get (rows d ! i) (tmp_map c))
              else get (rows d ! i) (tmp_map c)))
     \<and> (\<forall>i q. i < length (rows d) \<longrightarrow> q \<notin> set cs \<longrightarrow> q \<notin> tmp_map ` set cs \<longrightarrow>
           get (rows (fold (clean_step pn) cs d) ! i) q = get (rows d ! i) q)"
  using assms
proof (induction cs arbitrary: d)
  case Nil
  then show ?case by simp
next
  case (Cons c rest)
  let ?d1 = "clean_step pn c d"
  have tc: "tmp_map c \<in> set (columns d)" using Cons.prems(2) by simp
  note p = clean_step_props [OF tc, where pn = pn]
  have c_rest: "c \<notin> set rest" and d_rest: "distinct rest" using Cons.prems(1) by simp_all
  have sep: "\<forall>a \<in> set rest. \<forall>b \<in> set rest. tmp_map a \<noteq> b" using Cons.prems(3) by simp
  have c_tmp: "c \<notin> tmp_map ` set rest" using Cons.prems(3) by auto
  have tmp_rest: "\<forall>a \<in> set rest. tmp_map a \<in> set (columns ?d1)"
    using Cons.prems(2,3) c_rest unfolding p(2) by auto
  from Cons.IH [OF d_rest tmp_rest sep] have
    len: "length (rows (fold (clean_step pn) rest ?d1)) = length (rows ?d1)"
    and cols: "set (columns (fold (clean_step pn) rest ?d1)) = (set (columns ?d1) \<union> set rest) - tmp_map ` set rest"
    and val: "\<forall>i a. i < length (rows ?d1) \<longrightarrow> a \<in> set rest \<longrightarrow>
           get (rows (fold (clean_step pn) rest ?d1) ! i) a =
             (if a \<in> set (columns ?d1)
              then fillna (to_numeric pn (get (rows ?d1 ! i) a)) (get (rows ?d1 ! i) (tmp_map a))
              else get (rows ?d1 ! i) (tmp_map a))"
    and keep: "\<forall>i q. i < length (rows ?d1) \<longrightarrow> q \<notin> set rest \<longrightarrow> q \<notin> tmp_map ` set rest \<longrightarrow>
           get (rows (fold (clean_step pn) rest ?d1) ! i) q = get (rows ?d1 ! i) q"
    by blast+
  have A: "length (rows (fold (clean_step pn) (c # rest) d)) = length (rows d)"
    using len p(1) by simp
  have B: "set (columns (fold (clean_step pn) (c # rest) d))
      = (set (columns d) \<union> set (c # rest)) - tmp_map ` set (c # rest)"
    using cols c_tmp Cons.prems(3) unfolding p(2) by auto
  have C: "\<forall>i a. i < length (rows d) \<longrightarrow> a \<in> set (c # rest) \<longrightarrow>
           get (rows (fold (clean_step pn) (c # rest) d) ! i) a =
             (if a \<in> set (columns d)
              then fillna (to_numeric pn (get (rows d ! i) a)) (get (rows d ! i) (tmp_map a))
              else get (rows d ! i) (tmp_map a))"
  proof (intro allI impI)
    fix i a assume i: "i < length (rows d)" and a: "a \<in> set (c # rest)"
    have i1: "i < length (rows ?d1)" using i p(1) by simp
    show "get (rows (fold (clean_step pn) (c # rest) d) ! i) a =
             (if a \<in> set (columns d)
              then fillna (to_numeric pn (get (rows d ! i) a)) (get (rows d ! i) (tmp_map a))
              else get (rows d ! i) (tmp_map a))"
    proof (cases "a = c")
      case True
      have "get (rows (fold (clean_step pn) rest ?d1) ! i) c = get (rows ?d1 ! i) c"
        using keep i1 c_rest c_tmp by blast
      then show ?thesis using p(3) [OF i] True by simp
    next
      case False
      with a have ar: "a \<in> set rest" by simp
      have ne1: "a \<noteq> tmp_map c" using Cons.prems(3) ar by auto
      have ne2: "tmp_map a \<noteq> c" using Cons.prems(3) ar by auto
      have ne3: "tmp_map a \<noteq> tmp_map c" using False by simp
      have mem: "a \<in> set (columns ?d1) \<longleftrightarrow> a \<in> set (columns d)"
        unfolding p(2) using False ne1 by auto
      have g1: "get (rows ?d1 ! i) a = get (rows d ! i) a" using p(4) [OF i False ne1] .
      have g2: "get (rows ?d1 ! i) (tmp_map a) = get (rows d ! i) (tmp_map a)"
        using p(4) [OF i ne2 ne3] .
      from val i1 ar have "get (rows (fold (clean_step pn) rest ?d1) ! i) a =
             (if a \<in> set (columns ?d1)
              then fillna (to_numeric pn (get (rows ?d1 ! i) a)) (get (rows ?d1 ! i) (tmp_map a))
              else get (rows ?d1 ! i) (tmp_map a))" by blast
      then show ?thesis unfolding mem g1 g2 by simp
    qed
  qed
  have D: "\<forall>i q. i < length (rows d) \<longrightarrow> q \<notin> set (c # rest) \<longrightarrow> q \<notin> tmp_map ` set (c # rest) \<longrightarrow>
           get (rows (fold (clean_step pn) (c # rest) d) ! i) q = get (rows d ! i) q"
  proof (intro allI impI)
    fix i q assume i: "i < length (rows d)" and q1: "q \<notin> set (c # rest)"
      and q2: "q \<notin> tmp_map ` set (c # rest)"
    have i1: "i < length (rows ?d1)" using i p(1) by simp
    from q1 q2 have "q \<noteq> c" "q \<noteq> tmp_map c" "q \<notin> set rest" "q \<notin> tmp_map ` set rest" by auto
    then show "get (rows (fold (clean_step pn) (c # rest) d) ! i) q = get (rows d ! i) q"
      using keep i1 p(4) [OF i] by simp
  qed
  from A B C D show ?case by blast
qed

lemma map_cols_sep:
  "distinct map_cols" "\<forall>c \<in> set map_cols. \<forall>c' \<in> set map_cols. tmp_map c \<noteq> c'"
  using tmp_map_not_col by (simp add: map_cols_def, blast)

lemma to_numeric_fillna:
  "ref = Null \<or> (\<exists>x. ref = Num x) \<Longrightarrow>
     to_numeric pn (fillna (to_numeric pn v) ref) = fillna (to_numeric pn v) ref"
  by (auto simp: fillna_def to_numeric_def split: cell.splits option.splits)

lemma join_descriptors_cells:
  assumes T: "''Target_Phar'' \<in> set (columns df)"
  shows "\<exists>out. join_descriptors pn fmt df = Inr out
     \<and> length (rows out) = length (rows df)
     \<and> (\<forall>i c. i < length (rows df) \<longrightarrow> c \<in> set map_cols \<longrightarrow>
           c \<in> set (columns out)
           \<and> get (rows out ! i) c =
               fillna (if c \<in> set (columns df) then to_numeric pn (get (rows df ! i) c) else Null)
                 (case pharm_lookup (code_norm fmt (rows df ! i)) of
                    None \<Rightarrow> Null | Some d \<Rightarrow> Num (descriptor c d)))"
proof -
  define d1 where "d1 = \<lparr>columns = (if ''pharm_code_norm'' \<in> set (columns df) then columns df
                      else columns df @ [''pharm_code_norm'']) @ map tmp_map map_cols,
          rows = map (joined_row fmt) (rows df)\<rparr>"
  have run1: "add_pharm_features fmt df = Inr d1"
    unfolding d1_def by (rule add_pharm_features_rows [OF T])
  have len1: "length (rows d1) = length (rows df)" by (simp add: d1_def)
  have cols1: "set (columns d1) = set (columns df) \<union> {''pharm_code_norm''} \<union> tmp_map ` set map_cols"
    by (auto simp: d1_def)
  have tmp1: "\<forall>c \<in> set map_cols. tmp_map c \<in> set (columns d1)"
    unfolding cols1 by simp
  define d2 where "d2 = fold (clean_step pn) map_cols d1"
  from fold_clean_props [OF map_cols_sep(1) tmp1 map_cols_sep(2), of pn, folded d2_def] have
    len2: "length (rows d2) = length (rows d1)"
    and cols2: "set (columns d2) = (set (columns d1) \<union> set map_cols) - tmp_map ` set map_cols"
    and val2: "\<forall>i c. i < length (rows d1) \<longrightarrow> c \<in> set map_cols \<longrightarrow>
           get (rows d2 ! i) c =
             (if c \<in> set (columns d1)
              then fillna (to_numeric pn (get (rows d1 ! i) c)) (get (rows d1 ! i) (tmp_map c))
              else get (rows d1 ! i) (tmp_map c))"
    by blast+
  define d3 where "d3 = drop_col ''pharm_code_norm'' d2"
  note p3 = drop_col_props [where c = "''pharm_code_norm''" and d = d2, folded d3_def]
  define out where "out = fold (coerce_col pn) map_cols d3"
  note p4 = fold_coerce_props [where pn = pn and cs = map_cols and df = d3, folded out_def]
  have run: "join_descriptors pn fmt df = Inr out"
    by (simp add: join_descriptors_def run1 clean_pharm_features_def out_def d3_def d2_def)
  have len: "length (rows out) = length (rows df)"
    by (simp add: p4(2) p3(1) len2 len1)
  have cell: "c \<in> set (columns out)
           \<and> get (rows out ! i) c =
               fillna (if c \<in> set (columns df) then to_numeric pn (get (rows df ! i) c) else Null)
                 (case pharm_lookup (code_norm fmt (rows df ! i)) of
                    None \<Rightarrow> Null | Some d \<Rightarrow> Num (descriptor c d))"
    if i: "i < length (rows df)" and c: "c \<in> set map_cols" for i c
  proof -
    let ?r = "rows df ! i"
    let ?ref = "case pharm_lookup (code_norm fmt ?r) of None \<Rightarrow> Null | Some d \<Rightarrow> Num (descriptor c d)"
    have i1: "i < length (rows d1)" and i2: "i < length (rows d2)" and i3: "i < length (rows d3)"
      using i by (simp_all add: len1 len2 p3(1))
    have ck: "c \<noteq> ''pharm_code_norm''" using key_not_col [OF c] .
    have ct: "c \<notin> tmp_map ` set map_cols" using tmp_map_not_col [OF c] by auto
    have r1: "rows d1 ! i = joined_row fmt ?r" using i by (simp add: d1_def)
    have g1c: "get (rows d1 ! i) c = get ?r c" unfolding r1 by (rule joined_row_other [OF ck ct])
    have g1t: "get (rows d1 ! i) (tmp_map c) = ?ref" unfolding r1 by (rule joined_row_tmp [OF c])
    have mem1: "c \<in> set (columns d1) \<longleftrightarrow> c \<in> set (columns df)"
      unfolding cols1 using ck ct by auto
    have refc: "?ref = Null \<or> (\<exists>x. ?ref = Num x)" by (simp split: option.splits)
    from val2 i1 c have "get (rows d2 ! i) c =
             (if c \<in> set (columns d1)
              then fillna (to_numeric pn (get (rows d1 ! i) c)) (get (rows d1 ! i) (tmp_map c))
              else get (rows d1 ! i) (tmp_map c))" by blast
    then have v2: "get (rows d2 ! i) c =
        fillna (if c \<in> set (columns df) then to_numeric pn (get ?r c) else Null) ?ref"
      unfolding mem1 g1c g1t by (simp add: fillna_def)
    have in2: "c \<in> set (columns d2)" unfolding cols2 using c ct by simp
    have in3: "c \<in> set (columns d3)" unfolding p3(2) using in2 ck by simp
    have v3: "get (rows d3 ! i) c = get (rows d2 ! i) c" using p3(3) [OF i2, of c] ck by simp
    have "get (rows out ! i) c = to_numeric pn (get (rows d3 ! i) c)"
      using p4(3) [OF i3, of c] c in3 by simp
    also have "\<dots> = fillna (if c \<in> set (columns df) then to_numeric pn (get ?r c) else Null) ?ref"
      unfolding v3 v2 using refc
      by (cases "c \<in> set (columns df)")
         (auto simp: to_numeric_fillna, auto simp: fillna_def to_numeric_def)
    finally have "get (rows out ! i) c =
        fillna (if c \<in> set (columns df) then to_numeric pn (get ?r c) else Null) ?ref" .
    moreover have "c \<in> set (columns out)" using in3 by (simp add: p4(1))
    ultimately show ?thesis by blast
  qed
  show ?thesis
  proof (intro exI conjI)
    show "join_descriptors pn fmt df = Inr out" by (rule run)
    show "length (rows out) = length (rows df)" by (rule len)
    show "\<forall>i c. i < length (rows df) \<longrightarrow> c \<in> set map_cols \<longrightarrow>
           c \<in> set (columns out)
           \<and> get (rows out ! i) c =
               fillna (if c \<in> set (columns df) then to_numeric pn (get (rows df ! i) c) else Null)
                 (case pharm_lookup (code_norm fmt (rows df ! i)) of
                    None \<Rightarrow> Null | Some d \<Rightarrow> Num (descriptor c d))"
      using cell by blast
  qed
qed

lemma lookup_CIP: "pharm_lookup ''CIP'' = Some (2.20, 2.34, 0.70, 2.52, 2.3040)"
  by code_simp

lemma lookup_XYZ: "pharm_lookup ''XYZ'' = None"
  by code_simp

lemma norm_cip: "upper (strip '' cip '') = ''CIP''" "upper (strip ''CIP'') = ''CIP''"
  "upper (strip ''XYZ'') = ''XYZ''"
  by code_simp+

text \<open>
  Claim C3, as amended. For a frame with a \<open>Target_Phar\<close> column (and none of the
  temporary labels of the join), the join returns a frame with the same rows, in the
  same order, that has the five columns E, S, A, B, V. In every row each of the five is
  the number the row itself supplies in that column, when the frame has the column and
  the cell is numeric; otherwise it is the value of the reference row whose code equals
  the row's code, trimmed and in upper case, and missing when the table has no such code.
  The join does not fail for an unknown code.
\<close>

theorem descriptors_joined_unless_supplied:
  assumes "''Target_Phar'' \<in> set (columns df)"
      and "\<forall>c \<in> set map_cols. tmp_map c \<notin> set (columns df)"
  shows "\<exists>out. join_descriptors pn fmt df = Inr out
     \<and> length (rows out) = length (rows df)
     \<and> (\<forall>i c. i < length (rows df) \<longrightarrow> c \<in> set map_cols \<longrightarrow>
           c \<in> set (columns out)
           \<and> get (rows out ! i) c =
               fillna (if c \<in> set (columns df) then to_numeric pn (get (rows df ! i) c) else Null)
                 (case pharm_lookup (code_norm fmt (rows df ! i)) of
                    None \<Rightarrow> Null | Some d \<Rightarrow> Num (descriptor c d)))"
  by (rule join_descriptors_cells [OF assms(1)])

text \<open>The code \<open>" cip "\<close> gets the row of CIP (E = 2.20, V = 2.3040); the code XYZ gets no value.\<close>

theorem descriptors_joined_unless_supplied_witness:
  "''Target_Phar'' \<in> set (columns join_example)
   \<and> set (columns join_example) \<inter> tmp_map ` set map_cols = {}
   \<and> out_cell (join_descriptors no_text no_floats join_example) 0 ''E'' = Inr (Num 2.20)
   \<and> out_cell (join_descriptors no_text no_floats join_example) 0 ''V'' = Inr (Num 2.3040)
   \<and> out_cell (join_descriptors no_text no_floats join_example) 1 ''E'' = Inr Null"
proof -
  have T: "''Target_Phar'' \<in> set (columns join_example)"
    by (simp add: join_example_def)
  have tmp: "set (columns join_example) \<inter> tmp_map ` set map_cols = {}"
    by (simp add: join_example_def map_cols_def tmp_map_def)
  then have tmp': "\<forall>c \<in> set map_cols. tmp_map c \<notin> set (columns join_example)" by blast
  have k0: "code_norm no_floats (rows join_example ! 0) = ''CIP''"
    by (simp add: join_example_def code_norm_def astype_str_def norm_cip)
  have k1: "code_norm no_floats (rows join_example ! Suc 0) = ''XYZ''"
    by (simp add: join_example_def code_norm_def astype_str_def norm_cip)
  have len: "length (rows join_example) = 2" by (simp add: join_example_def)
  have E: "''E'' \<in> set map_cols" and V: "''V'' \<in> set map_cols" by (simp_all add: map_cols_def)
  have nE: "''E'' \<notin> set (columns join_example)" and nV: "''V'' \<notin> set (columns join_example)"
    by (simp_all add: join_example_def)
  from descriptors_joined_unless_supplied [OF T tmp', of no_text no_floats] obtain out where
    run: "join_descriptors no_text no_floats join_example = Inr out"
    and cells: "\<forall>i c. i < length (rows join_example) \<longrightarrow> c \<in> set map_cols \<longrightarrow>
           c \<in> set (columns out)
           \<and> get (rows out ! i) c =
               fillna (if c \<in> set (columns join_example)
                       then to_numeric no_text (get (rows join_example ! i) c) else Null)
                 (case pharm_lookup (code_norm no_floats (rows join_example ! i)) of
                    None \<Rightarrow> Null | Some d \<Rightarrow> Num (descriptor c d))"
    by blast
  have c0E: "get (rows out ! 0) ''E'' = Num 2.20"
    using cells E nE len by (simp add: k0 lookup_CIP fillna_def descriptor_def)
  have c0V: "get (rows out ! 0) ''V'' = Num 2.3040"
    using cells V nV len by (simp add: k0 lookup_CIP fillna_def descriptor_def)
  have c1E: "get (rows out ! 1) ''E'' = Null"
    using cells E nE len by (simp add: k1 lookup_XYZ fillna_def)
  from T tmp c0E c0V c1E show ?thesis by (simp add: out_cell_def run)
qed

text \<open>
  Claim C3 as stated fails: a record with code CIP that supplies E = 9.9 keeps 9.9,
  while the reference row of CIP has E = 2.20.
\<close>

theorem supplied_descriptor_kept_counterexample:
  "code_norm no_floats (rows supplied_descriptor_example ! 0) = ''CIP''
   \<and> pharm_lookup ''CIP'' = Some (2.20, 2.34, 0.70, 2.52, 2.3040)
   \<and> out_cell (join_descriptors no_text no_floats supplied_descriptor_example) 0 ''E''
       = Inr (Num 9.9)"
proof -
  have T: "''Target_Phar'' \<in> set (columns supplied_descriptor_example)"
    by (simp add: supplied_descriptor_example_def)
  have k0: "code_norm no_floats (rows supplied_descriptor_example ! 0) = ''CIP''"
    by (simp add: supplied_descriptor_example_def code_norm_def astype_str_def norm_cip)
  have E: "''E'' \<in> set map_cols" by (simp add: map_cols_def)
  have own: "''E'' \<in> set (columns supplied_descriptor_example)"
    "get (rows supplied_descriptor_example ! 0) ''E'' = Num 9.9"
    "0 < length (rows supplied_descriptor_example)"
    by (simp_all add: supplied_descriptor_example_def)
  from join_descriptors_cells [OF T, of no_text no_floats] obtain out where
    run: "join_descriptors no_text no_floats supplied_descriptor_example = Inr out"
    and cells: "\<forall>i c. i < length (rows supplied_descriptor_example) \<longrightarrow> c \<in> set map_cols \<longrightarrow>
           c \<in> set (columns out)
           \<and> get (rows out ! i) c =
               fillna (if c \<in> set (columns supplied_descriptor_example)
                       then to_numeric no_text (get (rows supplied_descriptor_example ! i) c) else Null)
                 (case pharm_lookup (code_norm no_floats (rows supplied_descriptor_example ! i)) of
                    None \<Rightarrow> Null | Some d \<Rightarrow> Num (descriptor c d))"
    by blast
  have "get (rows out ! 0) ''E'' = Num 9.9"
    using cells E own by (simp add: fillna_def to_numeric_def)
  with k0 lookup_CIP show ?thesis by (simp add: out_cell_def run)
qed

section \<open>Results: the feature-set resolver\<close>

lemma n_test_le: "n_test n \<le> n"
proof -
  have "TEST_SIZE * real n \<le> of_int (int n)" by (simp add: TEST_SIZE_def)
  then have "\<lceil>TEST_SIZE * real n\<rceil> \<le> int n" by (rule ceiling_le)
  then show ?thesis by (simp add: n_test_def TEST_SIZE_def)
qed

lemma n_train_zero: "n - n_test n = 0 \<longleftrightarrow> n < 2"
proof
  assume z: "n - n_test n = 0"
  show "n < 2"
  proof (rule ccontr)
    assume "\<not> n < 2"
    then have n: "2 \<le> n" by simp
    then have "TEST_SIZE * real n \<le> of_int (int n - 1)" by (simp add: TEST_SIZE_def)
    then have "\<lceil>TEST_SIZE * real n\<rceil> \<le> int n - 1" by (rule ceiling_le)
    then have "n_test n < n" using n by (simp add: n_test_def)
    with z show False by simp
  qed
next
  assume "n < 2"
  then consider "n = 0" | "n = 1" by linarith
  then show "n - n_test n = 0"
  proof cases
    case 1
    then show ?thesis by simp
  next
    case 2
    have "\<lceil>TEST_SIZE * real (1::nat)\<rceil> = 1" by (simp add: TEST_SIZE_def ceiling_eq_iff)
    then show ?thesis using 2 by (simp add: n_test_def)
  qed
qed

lemma train_test_split_raises:
  "(\<exists>e. train_test_split perm xs = Inl e) \<longleftrightarrow> length xs < 2"
  using n_train_zero [of "length xs"] by (auto simp: train_test_split_def Let_def)

lemma columns_strip_columns [simp]: "columns (strip_columns df) = map strip (columns df)"
  by (simp add: strip_columns_def)

lemma length_rows_strip_columns [simp]: "length (rows (strip_columns df)) = length (rows df)"
  by (simp add: strip_columns_def)

lemma length_rows_select_cols [simp]: "length (rows (select_cols cs df)) = length (rows df)"
  by (simp add: select_cols_def)

lemma count_gt_1_in_set: "count_list xs c > 1 \<Longrightarrow> c \<in> set xs"
  by (metis count_list_0_iff not_one_less_zero)

lemma prepare_ml_data_cases:
  fixes pn perm target_col df
  defines "cols \<equiv> map strip (columns df)"
  defines "nums \<equiv> filter (\<lambda>c. c \<in> set cols) num_feats_all"
  defines "cats \<equiv> (if ''Activation_Atmosphere'' \<in> set cols then [''Activation_Atmosphere''] else [])"
  shows "target_col \<notin> set cols \<Longrightarrow> prepare_ml_data pn perm target_col df = Inl (KeyError target_col)"
    and "target_col \<in> set cols \<Longrightarrow> nums = [] \<and> cats = [] \<Longrightarrow>
           prepare_ml_data pn perm target_col df = Inl (ValueError ''num_feats, cat_feats'')"
    and "target_col \<in> set cols \<Longrightarrow> \<not> (nums = [] \<and> cats = []) \<Longrightarrow>
           \<exists>c \<in> set (nums @ [target_col]). count_list cols c > 1 \<Longrightarrow>
           prepare_ml_data pn perm target_col df
             = Inl (TypeError ''arg must be a list, tuple, 1-d array, or Series'')"
    and "target_col \<in> set cols \<Longrightarrow> \<not> (nums = [] \<and> cats = []) \<Longrightarrow>
           \<not> (\<exists>c \<in> set (nums @ [target_col]). count_list cols c > 1) \<Longrightarrow>
           length (rows df) < 2 \<Longrightarrow>
           prepare_ml_data pn perm target_col df
             = Inl (ValueError ''the resulting train set will be empty'')"
    and "target_col \<in> set cols \<Longrightarrow> \<not> (nums = [] \<and> cats = []) \<Longrightarrow>
           \<not> (\<exists>c \<in> set (nums @ [target_col]). count_list cols c > 1) \<Longrightarrow>
           \<not> length (rows df) < 2 \<Longrightarrow>
           \<exists>out. prepare_ml_data pn perm target_col df = Inr out
              \<and> num_feats out = nums \<and> cat_feats out = cats
              \<and> missing_feats out = filter (\<lambda>c. c \<notin> set cols) num_feats_all
              \<and> length (X_train out) + length (X_test out) \<le> length (rows df)"
proof -
  let ?df1 = "fold (coerce_col pn) (nums @ [target_col]) (strip_columns df)"
  let ?zs = "zip (rows (select_cols (nums @ cats) ?df1)) (map (\<lambda>r. get r target_col) (rows ?df1))"
  have len: "length ?zs = length (rows df)"
    by (simp add: fold_coerce_props(2))
  show "target_col \<notin> set cols \<Longrightarrow> prepare_ml_data pn perm target_col df = Inl (KeyError target_col)"
    by (simp add: prepare_ml_data_def cols_def)
  show "target_col \<in> set cols \<Longrightarrow> nums = [] \<and> cats = [] \<Longrightarrow>
           prepare_ml_data pn perm target_col df = Inl (ValueError ''num_feats, cat_feats'')"
    unfolding prepare_ml_data_def Let_def columns_strip_columns cols_def [symmetric]
      nums_def [symmetric] cats_def [symmetric]
    by (simp only: if_True if_False not_True_eq_False simp_thms)
  show "target_col \<in> set cols \<Longrightarrow> \<not> (nums = [] \<and> cats = []) \<Longrightarrow>
           \<exists>c \<in> set (nums @ [target_col]). count_list cols c > 1 \<Longrightarrow>
           prepare_ml_data pn perm target_col df
             = Inl (TypeError ''arg must be a list, tuple, 1-d array, or Series'')"
    unfolding prepare_ml_data_def Let_def columns_strip_columns cols_def [symmetric]
      nums_def [symmetric] cats_def [symmetric]
    by (simp only: if_True if_False not_True_eq_False simp_thms)
  {
    assume t: "target_col \<in> set cols" and f: "\<not> (nums = [] \<and> cats = [])"
      and d: "\<not> (\<exists>c \<in> set (nums @ [target_col]). count_list cols c > 1)"
    have eq: "prepare_ml_data pn perm target_col df =
        (case train_test_split perm ?zs of
           Inl e \<Rightarrow> Inl e
         | Inr (train, test) \<Rightarrow>
             Inr \<lparr>X_train = map fst train, X_test = map fst test,
                  y_train = map snd train, y_test = map snd test,
                  num_feats = nums, cat_feats = cats,
                  cat_idx_raw = map (\<lambda>c. length (takeWhile (\<lambda>x. x \<noteq> c) (nums @ cats))) cats,
                  missing_feats = filter (\<lambda>c. c \<notin> set cols) num_feats_all\<rparr>)"
      using t f d
      unfolding prepare_ml_data_def Let_def columns_strip_columns cols_def [symmetric]
        nums_def [symmetric] cats_def [symmetric]
      by (simp only: if_True if_False not_True_eq_False simp_thms)
    {
      assume s: "length (rows df) < 2"
      then have "length ?zs - n_test (length ?zs) = 0"
        using n_train_zero [of "length ?zs"] len by simp
      then have "train_test_split perm ?zs = Inl (ValueError ''the resulting train set will be empty'')"
        by (simp add: train_test_split_def Let_def)
      then have "prepare_ml_data pn perm target_col df
             = Inl (ValueError ''the resulting train set will be empty'')"
        unfolding eq by simp
    } note small = this
    {
      assume s: "\<not> length (rows df) < 2"
      let ?n = "length ?zs"
      have nz: "?n - n_test ?n \<noteq> 0"
        using n_train_zero [of ?n] len s by simp
      let ?train = "map ((!) ?zs) (take (?n - n_test ?n) (drop (n_test ?n) (perm ?n)))"
      let ?test = "map ((!) ?zs) (take (n_test ?n) (perm ?n))"
      have sp: "train_test_split perm ?zs = Inr (?train, ?test)"
        using nz by (simp add: train_test_split_def Let_def)
      have l1: "length ?train \<le> ?n - n_test ?n" by simp
      have l2: "length ?test \<le> n_test ?n" by simp
      have "length ?train + length ?test \<le> ?n"
        using l1 l2 n_test_le [of ?n] by linarith
      then have "\<exists>out. prepare_ml_data pn perm target_col df = Inr out
              \<and> num_feats out = nums \<and> cat_feats out = cats
              \<and> missing_feats out = filter (\<lambda>c. c \<notin> set cols) num_feats_all
              \<and> length (X_train out) + length (X_test out) \<le> length (rows df)"
        unfolding eq sp using len by simp
    } note big = this
    note small big
  } note rest = this
  show "target_col \<in> set cols \<Longrightarrow> \<not> (nums = [] \<and> cats = []) \<Longrightarrow>
           \<not> (\<exists>c \<in> set (nums @ [target_col]). count_list cols c > 1) \<Longrightarrow>
           length (rows df) < 2 \<Longrightarrow>
           prepare_ml_data pn perm target_col df
             = Inl (ValueError ''the resulting train set will be empty'')"
    by (rule rest(1))
  show "target_col \<in> set cols \<Longrightarrow> \<not> (nums = [] \<and> cats = []) \<Longrightarrow>
           \<not> (\<exists>c \<in> set (nums @ [target_col]). count_list cols c > 1) \<Longrightarrow>
           \<not> length (rows df) < 2 \<Longrightarrow>
           \<exists>out. prepare_ml_data pn perm target_col df = Inr out
              \<and> num_feats out = nums \<and> cat_feats out = cats
              \<and> missing_feats out = filter (\<lambda>c. c \<notin> set cols) num_feats_all
              \<and> length (X_train out) + length (X_test out) \<le> length (rows df)"
    by (rule rest(2))
qed

lemma count_list_distinct: "distinct xs \<Longrightarrow> count_list xs c \<le> 1"
  by (induction xs) (auto simp: count_list_0_iff)

lemma dup_iff:
  "(\<exists>c \<in> set (filter (\<lambda>c. c \<in> set cols) num_feats_all @ [t]). count_list cols c > 1)
     \<longleftrightarrow> (\<exists>c \<in> set (t # num_feats_all). count_list cols c > 1)"
  using count_gt_1_in_set [of cols] by auto

lemma cats_empty_iff:
  "(if a \<in> set cols then [a] else []) = [] \<longleftrightarrow> a \<notin> set cols"
  by simp

text \<open>
  Claim C9, as amended. \<open>prepare_ml_data\<close> raises exactly when, after the labels are
  trimmed, the target column is absent, or no numeric feature and no categorical
  feature is present, or the target or a numeric feature label occurs twice, or the
  table has fewer than two rows. When it completes, the numeric features it reports
  are the canonical ones present in the table, and the absent ones are only reported.
\<close>

theorem prepare_ml_data_raises_iff:
  "((\<exists>e. prepare_ml_data pn perm target_col df = Inl e) \<longleftrightarrow>
       target_col \<notin> set (columns (strip_columns df))
     \<or> (filter (\<lambda>c. c \<in> set (columns (strip_columns df))) num_feats_all = []
          \<and> ''Activation_Atmosphere'' \<notin> set (columns (strip_columns df)))
     \<or> (\<exists>c \<in> set (target_col # num_feats_all). count_list (columns (strip_columns df)) c > 1)
     \<or> length (rows df) < 2)
   \<and> (\<forall>out. prepare_ml_data pn perm target_col df = Inr out \<longrightarrow>
         num_feats out = filter (\<lambda>c. c \<in> set (columns (strip_columns df))) num_feats_all
       \<and> missing_feats out = filter (\<lambda>c. c \<notin> set (columns (strip_columns df))) num_feats_all)"
proof -
  let ?cols = "map strip (columns df)"
  let ?nums = "filter (\<lambda>c. c \<in> set ?cols) num_feats_all"
  let ?cats = "(if ''Activation_Atmosphere'' \<in> set ?cols then [''Activation_Atmosphere''] else [])"
  let ?run = "prepare_ml_data pn perm target_col df"
  note cs = prepare_ml_data_cases [where pn = pn and perm = perm and target_col = target_col and df = df]
  consider (a) "target_col \<notin> set ?cols"
    | (b) "target_col \<in> set ?cols" "?nums = [] \<and> ?cats = []"
    | (c) "target_col \<in> set ?cols" "\<not> (?nums = [] \<and> ?cats = [])"
          "\<exists>c \<in> set (?nums @ [target_col]). count_list ?cols c > 1"
    | (d) "target_col \<in> set ?cols" "\<not> (?nums = [] \<and> ?cats = [])"
          "\<not> (\<exists>c \<in> set (?nums @ [target_col]). count_list ?cols c > 1)" "length (rows df) < 2"
    | (e) "target_col \<in> set ?cols" "\<not> (?nums = [] \<and> ?cats = [])"
          "\<not> (\<exists>c \<in> set (?nums @ [target_col]). count_list ?cols c > 1)" "\<not> length (rows df) < 2"
    by blast
  then show ?thesis
  proof cases
    case a
    from cs(1) [OF a] have "?run = Inl (KeyError target_col)" .
    with a show ?thesis by simp
  next
    case b
    from cs(2) [OF b] have "?run = Inl (ValueError ''num_feats, cat_feats'')" .
    moreover from b(2) have "?nums = []" "''Activation_Atmosphere'' \<notin> set ?cols"
      by (simp_all split: if_splits)
    ultimately show ?thesis by simp
  next
    case c
    from cs(3) [OF c] have "?run = Inl (TypeError ''arg must be a list, tuple, 1-d array, or Series'')" .
    moreover from c(3) have "\<exists>c \<in> set (target_col # num_feats_all). count_list ?cols c > 1"
      unfolding dup_iff .
    ultimately show ?thesis by simp
  next
    case d
    from cs(4) [OF d] have "?run = Inl (ValueError ''the resulting train set will be empty'')" .
    with d(4) show ?thesis by simp
  next
    case e
    from cs(5) [OF e] obtain out where out: "?run = Inr out" "num_feats out = ?nums"
      "missing_feats out = filter (\<lambda>c. c \<notin> set ?cols) num_feats_all" by blast
    from e(3) have nd: "\<not> (\<exists>c \<in> set (target_col # num_feats_all). count_list ?cols c > 1)"
      unfolding dup_iff .
    from e(2) have ne: "\<not> (?nums = [] \<and> ''Activation_Atmosphere'' \<notin> set ?cols)"
      by (simp split: if_splits)
    have "\<not> (\<exists>e. ?run = Inl e)" using out(1) by simp
    moreover have "\<not> (target_col \<notin> set ?cols \<or> (?nums = [] \<and> ''Activation_Atmosphere'' \<notin> set ?cols)
       \<or> (\<exists>c \<in> set (target_col # num_feats_all). count_list ?cols c > 1) \<or> length (rows df) < 2)"
      using e(1) ne nd e(4) by blast
    ultimately show ?thesis using out by simp
  qed
qed

lemma two_row_cols: "columns (strip_columns two_row_example) = [''pHpzc'', ''qe(mg/g)'']"
  by code_simp

lemma one_row_cols: "columns (strip_columns one_row_example) = [''pHpzc'', ''qe(mg/g)'']"
  by code_simp

lemma example_nums:
  "filter (\<lambda>c. c \<in> set [''pHpzc'', ''qe(mg/g)'']) num_feats_all = [''pHpzc'']"
  by code_simp

text \<open>
  A table of two rows with labels to be trimmed and a target cell that is not a number:
  the call completes, with \<open>pHpzc\<close> as its numeric feature and the 26 others reported.
\<close>

theorem prepare_ml_data_raises_iff_witness:
  "(\<exists>out. prepare_ml_data no_text no_shuffle ''qe(mg/g)'' two_row_example = Inr out
      \<and> num_feats out = [''pHpzc'']
      \<and> length (missing_feats out) = 26)
   \<and> ''qe(mg/g)'' \<in> set (columns (strip_columns two_row_example))
   \<and> length (rows two_row_example) = 2"
proof -
  let ?run = "prepare_ml_data no_text no_shuffle ''qe(mg/g)'' two_row_example"
  have t: "''qe(mg/g)'' \<in> set (columns (strip_columns two_row_example))"
    unfolding two_row_cols by simp
  have n: "filter (\<lambda>c. c \<in> set (columns (strip_columns two_row_example))) num_feats_all = [''pHpzc'']"
    unfolding two_row_cols by (rule example_nums)
  have m: "length (filter (\<lambda>c. c \<notin> set (columns (strip_columns two_row_example))) num_feats_all) = 26"
    unfolding two_row_cols by code_simp
  have d: "\<not> (\<exists>c \<in> set (''qe(mg/g)'' # num_feats_all).
              count_list (columns (strip_columns two_row_example)) c > 1)"
    unfolding two_row_cols using count_list_distinct [of "[''pHpzc'', ''qe(mg/g)'']"]
    by (simp add: not_less)
  have l: "length (rows two_row_example) = 2" by (simp add: two_row_example_def)
  note inst = prepare_ml_data_raises_iff [of no_text no_shuffle "''qe(mg/g)''" two_row_example]
  from inst have "(\<exists>e. ?run = Inl e) \<longleftrightarrow>
       ''qe(mg/g)'' \<notin> set (columns (strip_columns two_row_example))
     \<or> (filter (\<lambda>c. c \<in> set (columns (strip_columns two_row_example))) num_feats_all = []
          \<and> ''Activation_Atmosphere'' \<notin> set (columns (strip_columns two_row_example)))
     \<or> (\<exists>c \<in> set (''qe(mg/g)'' # num_feats_all). count_list (columns (strip_columns two_row_example)) c > 1)
     \<or> length (rows two_row_example) < 2" by (rule conjunct1)
  with t n d l have "\<not> (\<exists>e. ?run = Inl e)" by simp
  then obtain out where out: "?run = Inr out" by (cases ?run) auto
  from inst out have "num_feats out = filter (\<lambda>c. c \<in> set (columns (strip_columns two_row_example))) num_feats_all"
    "missing_feats out = filter (\<lambda>c. c \<notin> set (columns (strip_columns two_row_example))) num_feats_all"
    by blast+
  with n m have "num_feats out = [''pHpzc'']" "length (missing_feats out) = 26" by simp_all
  with out t l show ?thesis by blast
qed

text \<open>
  Claim C9 as stated fails: a table of one row that has the target column and a numeric
  feature makes the split raise \<open>ValueError\<close>.
\<close>

theorem one_row_table_raises_counterexample:
  "''qe(mg/g)'' \<in> set (columns (strip_columns one_row_example))
   \<and> filter (\<lambda>c. c \<in> set (columns (strip_columns one_row_example))) num_feats_all = [''pHpzc'']
   \<and> prepare_ml_data no_text no_shuffle ''qe(mg/g)'' one_row_example
       = Inl (ValueError ''the resulting train set will be empty'')"
proof -
  have c: "map strip (columns one_row_example) = [''pHpzc'', ''qe(mg/g)'']"
    using one_row_cols by simp
  have t: "''qe(mg/g)'' \<in> set (map strip (columns one_row_example))"
    unfolding c by simp
  have n: "filter (\<lambda>c. c \<in> set (map strip (columns one_row_example))) num_feats_all = [''pHpzc'']"
    unfolding c by (rule example_nums)
  have f: "\<not> (filter (\<lambda>c. c \<in> set (map strip (columns one_row_example))) num_feats_all = []
     \<and> (if ''Activation_Atmosphere'' \<in> set (map strip (columns one_row_example))
         then [''Activation_Atmosphere''] else []) = [])"
    unfolding n by simp
  have d: "\<not> (\<exists>ca \<in> set (filter (\<lambda>c. c \<in> set (map strip (columns one_row_example))) num_feats_all @ [''qe(mg/g)'']).
              count_list (map strip (columns one_row_example)) ca > 1)"
    unfolding c using count_list_distinct [of "[''pHpzc'', ''qe(mg/g)'']"]
    by (simp add: not_less)
  have l: "length (rows one_row_example) < 2" by (simp add: one_row_example_def)
  from prepare_ml_data_cases(4) [OF t f d l, of no_text no_shuffle] t n
  show ?thesis by simp
qed

section \<open>Results: the feature derivation on the store\<close>

lemma bind_err_Inl [simp]: "bind_err (Inl e) f = Inl e"
  by (simp add: bind_err_def)

lemmas run_defs = ret_def raise_def then_run_def look_def new_def derive_def assign_def print_def

lemma for_each_assign:
  "d < length (heap s) \<Longrightarrow>
     for_each cs (\<lambda>c. assign d (G c)) s
       = (Inr (), s\<lparr>heap := (heap s)[d := fold G cs (heap s ! d)]\<rparr>)"
proof (induction cs arbitrary: s)
  case Nil
  then show ?case by (simp add: ret_def)
next
  case (Cons c cs)
  let ?s = "s\<lparr>heap := (heap s)[d := G c (heap s ! d)]\<rparr>"
  have "for_each (c # cs) (\<lambda>c. assign d (G c)) s = for_each cs (\<lambda>c. assign d (G c)) ?s"
    by (simp add: then_run_def assign_def)
  also have "\<dots> = (Inr (), ?s\<lparr>heap := (heap ?s)[d := fold G cs (heap ?s ! d)]\<rparr>)"
    using Cons.prems by (intro Cons.IH) simp
  also have "\<dots> = (Inr (), s\<lparr>heap := (heap s)[d := fold G (c # cs) (heap s ! d)]\<rparr>)"
    using Cons.prems by simp
  finally show ?case .
qed

lemma clean_pharm_features_st_run:
  "clean_pharm_features_st pn mcols a s
     = (Inr (length (heap s)),
        s\<lparr>heap := heap s @ [clean_pharm_features pn mcols (heap s ! a)]\<rparr>)"
  by (simp add: clean_pharm_features_st_def clean_pharm_features_def run_defs for_each_assign)

lemma rename_label_tmp:
  "rename_label tmp_map_dict ''pharm_code_norm'' = ''pharm_code_norm''"
  "rename_label tmp_map_dict ''E'' = tmp_map ''E''"
  "rename_label tmp_map_dict ''S'' = tmp_map ''S''"
  "rename_label tmp_map_dict ''A'' = tmp_map ''A''"
  "rename_label tmp_map_dict ''B'' = tmp_map ''B''"
  "rename_label tmp_map_dict ''V'' = tmp_map ''V''"
  by (simp_all add: rename_label_def tmp_map_dict_def map_cols_def)

lemma pharm_merge_row_eq:
  "(\<lambda>k. case filter (\<lambda>c. rename_label tmp_map_dict c = k) (''pharm_code_norm'' # map_cols) of
           [] \<Rightarrow> None
         | c # cs \<Rightarrow> (pharm_frame_row x |` set (''pharm_code_norm'' # map_cols)) c)
     = pharm_merge_row (case x of (code, d) \<Rightarrow> (upper (strip code), d))"
proof (rule ext)
  fix k
  obtain code e s a b v where x: "x = (code, e, s, a, b, v)" by (cases x)
  show "(case filter (\<lambda>c. rename_label tmp_map_dict c = k) (''pharm_code_norm'' # map_cols) of
           [] \<Rightarrow> None
         | c # cs \<Rightarrow> (pharm_frame_row x |` set (''pharm_code_norm'' # map_cols)) c)
     = pharm_merge_row (case x of (code, d) \<Rightarrow> (upper (strip code), d)) k"
    unfolding x map_cols_def
    by (simp add: rename_label_tmp pharm_frame_row_def pharm_merge_row_def tmp_map_def)
qed

lemma pharm_merge_eq:
  "rename_cols tmp_map_dict (select_cols (''pharm_code_norm'' # map_cols) pharm_frame) = pharm_merge"
proof -
  have c: "map (rename_label tmp_map_dict) (''pharm_code_norm'' # map_cols)
             = ''pharm_code_norm'' # map tmp_map map_cols"
    by (simp add: map_cols_def rename_label_tmp)
  have r: "map (\<lambda>r k. case filter (\<lambda>c. rename_label tmp_map_dict c = k)
                                 (''pharm_code_norm'' # map_cols) of
                        [] \<Rightarrow> None | c # cs \<Rightarrow> r c)
             (map (\<lambda>r. r |` set (''pharm_code_norm'' # map_cols)) (map pharm_frame_row pharm_data))
           = map pharm_merge_row (map (\<lambda>(code, d). (upper (strip code), d)) pharm_data)"
    by (simp only: map_map o_def pharm_merge_row_eq)
  show ?thesis
    unfolding rename_cols_def select_cols_def pharm_merge_def pharm_frame_def pharm_df_def
    by (simp only: frame.simps c r)
qed

lemma add_pharm_features_st_run:
  assumes g: "heap s ! g = pharm_frame" and gl: "g < length (heap s)"
  shows "\<exists>objs. add_pharm_features_st fmt g a s
           = (map_sum id (\<lambda>_. length (heap s) + 3) (add_pharm_features fmt (heap s ! a)),
              s\<lparr>heap := heap s @ objs\<rparr>)
         \<and> (\<forall>out. add_pharm_features fmt (heap s ! a) = Inr out \<longrightarrow>
               length objs = 4 \<and> objs ! 3 = out)"
proof (cases "''Target_Phar'' \<in> set (columns (heap s ! a))")
  case False
  then have "add_pharm_features_st fmt g a s
     = (Inl (KeyError ''Target_Phar''), s\<lparr>heap := heap s @ [heap s ! a]\<rparr>)"
    by (simp add: add_pharm_features_st_def run_defs)
  with False show ?thesis
    by (intro exI [of _ "[heap s ! a]"]) (simp add: add_pharm_features_def)
next
  case True
  let ?l = "set_col ''pharm_code_norm'' (\<lambda>r. Str (code_norm fmt r)) (heap s ! a)"
  have "add_pharm_features_st fmt g a s
     = (Inr (length (heap s) + 3),
        s\<lparr>heap := heap s @ [?l, select_cols (''pharm_code_norm'' # map_cols) pharm_frame,
                             pharm_merge, merge_left ''pharm_code_norm'' ?l pharm_merge]\<rparr>)"
    using True g gl
    by (simp add: add_pharm_features_st_def run_defs nth_append pharm_merge_eq)
  with True show ?thesis
    by (intro exI [of _ "[?l, select_cols (''pharm_code_norm'' # map_cols) pharm_frame,
                             pharm_merge, merge_left ''pharm_code_norm'' ?l pharm_merge]"])
       (simp add: add_pharm_features_def)
qed

lemma then_run_Inr: "m s = (Inr x, s') \<Longrightarrow> then_run m k s = k x s'"
  by (simp add: then_run_def)

lemma then_run_Inl: "m s = (Inl e, s') \<Longrightarrow> then_run m k s = (Inl e, s')"
  by (simp add: then_run_def)

lemma coerce_col_absent: "c \<notin> set (columns f) \<Longrightarrow> coerce_col pn c f = f"
  by (simp add: coerce_col_def)

lemma coerce_loop:
  "d < length (heap s) \<Longrightarrow>
     for_each cs (\<lambda>col. then_run (look d (\<lambda>f. col \<in> set (columns f))) (\<lambda>present.
                    if present then assign d (coerce_col pn col)
                    else print (MissingColumn col))) s
       = (Inr (), s\<lparr>heap := (heap s)[d := fold (coerce_col pn) cs (heap s ! d)],
                    printed := printed s @ coerce_notices pn cs (heap s ! d)\<rparr>)"
proof (induction cs arbitrary: s)
  case Nil
  then show ?case by (simp add: ret_def)
next
  case (Cons c cs)
  let ?body = "\<lambda>col. then_run (look d (\<lambda>f. col \<in> set (columns f))) (\<lambda>present.
                    if present then assign d (coerce_col pn col)
                    else print (MissingColumn col))"
  show ?case
  proof (cases "c \<in> set (columns (heap s ! d))")
    case True
    let ?s = "s\<lparr>heap := (heap s)[d := coerce_col pn c (heap s ! d)]\<rparr>"
    have "?body c s = (Inr (), ?s)" using True by (simp add: run_defs)
    then have "for_each (c # cs) ?body s = for_each cs ?body ?s"
      by (simp add: then_run_Inr)
    also have "\<dots> = (Inr (), ?s\<lparr>heap := (heap ?s)[d := fold (coerce_col pn) cs (heap ?s ! d)],
                    printed := printed ?s @ coerce_notices pn cs (heap ?s ! d)\<rparr>)"
      using Cons.prems by (intro Cons.IH) simp
    finally show ?thesis using True Cons.prems by simp
  next
    case False
    let ?s = "s\<lparr>printed := printed s @ [MissingColumn c]\<rparr>"
    have "?body c s = (Inr (), ?s)" using False by (simp add: run_defs)
    then have "for_each (c # cs) ?body s = for_each cs ?body ?s"
      by (simp add: then_run_Inr)
    also have "\<dots> = (Inr (), ?s\<lparr>heap := (heap ?s)[d := fold (coerce_col pn) cs (heap ?s ! d)],
                    printed := printed ?s @ coerce_notices pn cs (heap ?s ! d)\<rparr>)"
      using Cons.prems by (intro Cons.IH) simp
    finally show ?thesis using False Cons.prems by (simp add: coerce_col_absent)
  qed
qed

lemma ratio_loop:
  "d < length (heap s) \<Longrightarrow>
     \<exists>f'. for_each es (\<lambda>(col, el, out). assign_err d (ratio_step col el out)) s
            = (map_sum id (\<lambda>_. ()) (ratio_steps es (heap s ! d)), s\<lparr>heap := (heap s)[d := f']\<rparr>)
         \<and> (\<forall>out. ratio_steps es (heap s ! d) = Inr out \<longrightarrow> f' = out)"
proof (induction es arbitrary: s)
  case Nil
  show ?case by (intro exI [of _ "heap s ! d"]) (simp add: ret_def)
next
  case (Cons e es)
  obtain col el out where e: "e = (col, el, out)" by (cases e)
  let ?body = "\<lambda>(col, el, out). assign_err d (ratio_step col el out)"
  show ?case
  proof (cases "ratio_step col el out (heap s ! d)")
    case (Inl err)
    then have "?body e s = (Inl err, s)" by (simp add: e assign_err_def)
    then have "for_each (e # es) ?body s = (Inl err, s)" by (simp add: then_run_Inl)
    with Inl show ?thesis
      by (intro exI [of _ "heap s ! d"]) (simp add: e)
  next
    case (Inr f1)
    let ?s = "s\<lparr>heap := (heap s)[d := f1]\<rparr>"
    have "?body e s = (Inr (), ?s)" using Inr by (simp add: e assign_err_def)
    then have step: "for_each (e # es) ?body s = for_each es ?body ?s"
      by (simp add: then_run_Inr)
    have "d < length (heap ?s)" using Cons.prems by simp
    from Cons.IH [OF this] obtain f' where
      run: "for_each es ?body ?s
            = (map_sum id (\<lambda>_. ()) (ratio_steps es (heap ?s ! d)), ?s\<lparr>heap := (heap ?s)[d := f']\<rparr>)"
      and out: "\<forall>out. ratio_steps es (heap ?s ! d) = Inr out \<longrightarrow> f' = out"
      by blast
    have at: "heap ?s ! d = f1" using Cons.prems by simp
    show ?thesis
      using step run out Inr Cons.prems unfolding at
      by (intro exI [of _ f']) (simp add: e id_def)
  qed
qed

lemma add_elemental_ratios_st_run:
  "\<exists>f'. add_elemental_ratios_st pn a s
          = (map_sum id (\<lambda>_. length (heap s)) (add_elemental_ratios pn (heap s ! a)),
             s\<lparr>heap := heap s @ [f'], printed := printed s @ ratio_notices pn (heap s ! a)\<rparr>)
       \<and> (\<forall>out. add_elemental_ratios pn (heap s ! a) = Inr out \<longrightarrow> f' = out)"
proof -
  let ?five = "[''C_percent'', ''O_percent'', ''H_percent'', ''N_percent'', ''S_percent'']"
  let ?d = "length (heap s)"
  define f0 where "f0 = heap s ! a"
  define f1 where "f1 = fold (coerce_col pn) ?five f0"
  define ns where "ns = coerce_notices pn ?five f0"
  define s1 where "s1 = s\<lparr>heap := heap s @ [f0]\<rparr>"
  define s2 where "s2 = s\<lparr>heap := heap s @ [f1], printed := printed s @ ns\<rparr>"
  define rest where "rest = (\<lambda>df.
     then_run (look df (\<lambda>f. ''C_percent'' \<in> set (columns f))) (\<lambda>present.
       if \<not> present then ret df
       else
         then_run (look df badC) (\<lambda>n.
         then_run (if n \<noteq> 0 then print (NoCarbon n) else ret ()) (\<lambda>_.
         then_run (assign_err df (loc_assign maskC ''C_molar'' (\<lambda>r. Inr (of_float (denom r))))) (\<lambda>_.
         then_run (for_each elements (\<lambda>(col, el, out). assign_err df (ratio_step col el out))) (\<lambda>_.
         then_run (for_each ratio_cols (\<lambda>r. assign df (clamp_col pn r))) (\<lambda>_.
         ret df)))))))"
  have copy: "derive a id s = (Inr ?d, s1)"
    by (simp add: run_defs s1_def f0_def)
  have "for_each ?five (\<lambda>col. then_run (look ?d (\<lambda>f. col \<in> set (columns f))) (\<lambda>present.
                    if present then assign ?d (coerce_col pn col)
                    else print (MissingColumn col))) s1
       = (Inr (), s1\<lparr>heap := (heap s1)[?d := fold (coerce_col pn) ?five (heap s1 ! ?d)],
                    printed := printed s1 @ coerce_notices pn ?five (heap s1 ! ?d)\<rparr>)"
    by (rule coerce_loop) (simp add: s1_def)
  also have "\<dots> = (Inr (), s2)"
    by (simp add: s1_def s2_def f1_def ns_def)
  finally have loop: "for_each ?five (\<lambda>col. then_run (look ?d (\<lambda>f. col \<in> set (columns f))) (\<lambda>present.
                    if present then assign ?d (coerce_col pn col)
                    else print (MissingColumn col))) s1 = (Inr (), s2)" .
  have run: "add_elemental_ratios_st pn a s = rest ?d s2"
    unfolding add_elemental_ratios_st_def rest_def
    by (simp only: then_run_Inr [of "derive a id" s, OF copy]
                   then_run_Inr [of "for_each ?five (\<lambda>col. then_run (look ?d (\<lambda>f. col \<in> set (columns f))) (\<lambda>present.
                    if present then assign ?d (coerce_col pn col)
                    else print (MissingColumn col)))" s1, OF loop])
  have pure: "add_elemental_ratios pn (heap s ! a) =
     (if ''C_percent'' \<in> set (columns f1) then
           bind_err (loc_assign maskC ''C_molar'' (\<lambda>r. Inr (of_float (denom r))) f1) (\<lambda>df.
           bind_err (ratio_steps elements df) (\<lambda>df. Inr (fold (clamp_col pn) ratio_cols df)))
         else Inr f1)"
    unfolding add_elemental_ratios_steps f1_def f0_def Let_def ..
  have lines: "ratio_notices pn (heap s ! a) =
     ns @ (if ''C_percent'' \<in> set (columns f1) \<and> badC f1 \<noteq> 0 then [NoCarbon (badC f1)] else [])"
    unfolding ratio_notices_def f1_def f0_def ns_def Let_def ..
  have h2: "heap s2 = heap s @ [f1]" "printed s2 = printed s @ ns" "heap s2 ! ?d = f1"
    by (simp_all add: s2_def)
  show ?thesis
  proof (cases "''C_percent'' \<in> set (columns f1)")
    case False
    then have "rest ?d s2 = (Inr ?d, s2)"
      by (simp add: rest_def run_defs h2)
    with False show ?thesis
      unfolding run pure lines
      by (intro exI [of _ f1]) (simp add: s2_def)
  next
    case True
    define s3 where "s3 = s\<lparr>heap := heap s @ [f1],
       printed := printed s @ ns @ (if badC f1 \<noteq> 0 then [NoCarbon (badC f1)] else [])\<rparr>"
    define tail where "tail = (\<lambda>df.
         then_run (assign_err df (loc_assign maskC ''C_molar'' (\<lambda>r. Inr (of_float (denom r))))) (\<lambda>_.
         then_run (for_each elements (\<lambda>(col, el, out). assign_err df (ratio_step col el out))) (\<lambda>_.
         then_run (for_each ratio_cols (\<lambda>r. assign df (clamp_col pn r))) (\<lambda>_.
         ret df))))"
    have r3: "rest ?d s2 = tail ?d s3"
      using True by (simp add: rest_def tail_def run_defs h2 s2_def s3_def)
    have p3: "s3 = s\<lparr>heap := heap s @ [f1], printed := printed s @ ratio_notices pn (heap s ! a)\<rparr>"
      using True by (simp add: s3_def lines)
    have h3: "heap s3 = heap s @ [f1]" "heap s3 ! ?d = f1" by (simp_all add: s3_def)
    show ?thesis
    proof (cases "loc_assign maskC ''C_molar'' (\<lambda>r. Inr (of_float (denom r))) f1")
      case (Inl e)
      then have "assign_err ?d (loc_assign maskC ''C_molar'' (\<lambda>r. Inr (of_float (denom r)))) s3
                   = (Inl e, s3)"
        by (simp add: assign_err_def h3)
      then have "tail ?d s3 = (Inl e, s3)"
        unfolding tail_def by (rule then_run_Inl)
      with True Inl show ?thesis
        unfolding run r3 pure
        by (intro exI [of _ f1]) (simp add: p3)
    next
      case (Inr f2)
      define s4 where "s4 = s3\<lparr>heap := heap s @ [f2]\<rparr>"
      have "assign_err ?d (loc_assign maskC ''C_molar'' (\<lambda>r. Inr (of_float (denom r)))) s3
                   = (Inr (), s4)"
        using Inr by (simp add: assign_err_def h3 s4_def)
      then have t4: "tail ?d s3 =
         then_run (for_each elements (\<lambda>(col, el, out). assign_err ?d (ratio_step col el out))) (\<lambda>_.
         then_run (for_each ratio_cols (\<lambda>r. assign ?d (clamp_col pn r))) (\<lambda>_.
         ret ?d)) s4"
        unfolding tail_def by (rule then_run_Inr)
      have h4: "heap s4 = heap s @ [f2]" "heap s4 ! ?d = f2" "?d < length (heap s4)"
        by (simp_all add: s4_def)
      from ratio_loop [OF h4(3), of elements] obtain f' where
        loop2: "for_each elements (\<lambda>(col, el, out). assign_err ?d (ratio_step col el out)) s4
            = (map_sum id (\<lambda>_. ()) (ratio_steps elements f2), s4\<lparr>heap := (heap s4)[?d := f']\<rparr>)"
        and out2: "\<forall>out. ratio_steps elements f2 = Inr out \<longrightarrow> f' = out"
        unfolding h4(2) by blast
      define s5 where "s5 = s3\<lparr>heap := heap s @ [f']\<rparr>"
      have s5: "s4\<lparr>heap := (heap s4)[?d := f']\<rparr> = s5"
        by (simp add: s4_def s5_def)
      show ?thesis
      proof (cases "ratio_steps elements f2")
        case (Inl e)
        then have "for_each elements (\<lambda>(col, el, out). assign_err ?d (ratio_step col el out)) s4
                     = (Inl e, s5)"
          using loop2 s5 by simp
        then have "tail ?d s3 = (Inl e, s5)"
          unfolding t4 by (rule then_run_Inl)
        with True Inr Inl show ?thesis
          unfolding run r3 pure
          by (intro exI [of _ f']) (simp add: s5_def p3)
      next
        case f3: (Inr f3)
        then have f': "f' = f3" using out2 by simp
        have "for_each elements (\<lambda>(col, el, out). assign_err ?d (ratio_step col el out)) s4
                     = (Inr (), s5)"
          using loop2 s5 f3 by simp
        then have "tail ?d s3 =
           then_run (for_each ratio_cols (\<lambda>r. assign ?d (clamp_col pn r))) (\<lambda>_. ret ?d) s5"
          unfolding t4 by (rule then_run_Inr)
        also have "\<dots> = (Inr ?d, s5\<lparr>heap := (heap s5)[?d := fold (clamp_col pn) ratio_cols (heap s5 ! ?d)]\<rparr>)"
          by (simp add: then_run_def for_each_assign s5_def ret_def)
        also have "\<dots> = (Inr ?d, s3\<lparr>heap := heap s @ [fold (clamp_col pn) ratio_cols f3]\<rparr>)"
          by (simp add: s5_def f')
        finally have "tail ?d s3 = (Inr ?d, s3\<lparr>heap := heap s @ [fold (clamp_col pn) ratio_cols f3]\<rparr>)" .
        with True Inr f3 show ?thesis
          unfolding run r3 pure
          by (intro exI [of _ "fold (clamp_col pn) ratio_cols f3"]) (simp add: p3)
      qed
    qed
  qed
qed

lemma then_run_step: "m s = (Inr x, s') \<Longrightarrow> k x s' = res \<Longrightarrow> then_run m k s = res"
  by (simp add: then_run_def)

lemma transform_st_run:
  assumes g: "heap s ! g = pharm_frame" and gl: "g < length (heap s)"
  shows "\<exists>r objs. transform_st pn fmt g nf cf X s
           = (r, s\<lparr>heap := heap s @ objs,
                   printed := printed s @ transform_notices pn fmt (heap s ! X)\<rparr>)
         \<and> (case transform pn fmt nf cf (heap s ! X) of
               Inl e \<Rightarrow> r = Inl e
             | Inr out \<Rightarrow> \<exists>d. r = Inr d \<and> d < length (heap s @ objs) \<and> (heap s @ objs) ! d = out)"
proof -
  define h where "h = heap s"
  define n where "n = length h"
  define x where "x = strip_columns (h ! X)"
  define k3 where "k3 = (\<lambda>df.
     then_run (for_each nf (\<lambda>c. assign df (coerce_col pn c))) (\<lambda>_.
     then_run (for_each cf (\<lambda>c. assign df (category_col c))) (\<lambda>_.
     then_run (look df (\<lambda>f. filter (\<lambda>c. c \<in> set (columns f)) (nf @ cf))) (\<lambda>use_cols.
     derive df (select_cols use_cols)))))"
  define k2 where "k2 = (\<lambda>df. then_run (add_elemental_ratios_st pn df) k3)"
  define k1 where "k1 = (\<lambda>df. then_run (clean_pharm_features_st pn map_cols df) k2)"
  define s1 where "s1 = s\<lparr>heap := h @ [x]\<rparr>"
  have t: "transform_st pn fmt g nf cf X s =
     then_run (derive X id) (\<lambda>df.
     then_run (assign df strip_columns) (\<lambda>_.
     then_run (add_pharm_features_st fmt g df) k1)) s"
    unfolding transform_st_def k1_def k2_def k3_def ..
  have c1: "derive X id s = (Inr n, s\<lparr>heap := h @ [h ! X]\<rparr>)"
    by (simp add: run_defs h_def n_def)
  have c2: "assign n strip_columns (s\<lparr>heap := h @ [h ! X]\<rparr>) = (Inr (), s1)"
    by (simp add: assign_def s1_def n_def x_def)
  have run1: "transform_st pn fmt g nf cf X s = then_run (add_pharm_features_st fmt g n) k1 s1"
    unfolding t
    by (rule then_run_step, rule c1, rule then_run_step, rule c2, rule refl)
  have h1: "heap s1 = h @ [x]" "printed s1 = printed s" "heap s1 ! n = x" "length (heap s1) = n + 1"
    by (simp_all add: s1_def n_def)
  have g1: "heap s1 ! g = pharm_frame" "g < length (heap s1)"
    using g gl by (simp_all add: h1 nth_append h_def)
  from add_pharm_features_st_run [OF g1, of fmt n] obtain objs1 where
    raw1: "add_pharm_features_st fmt g n s1
           = (map_sum id (\<lambda>_. length (heap s1) + 3) (add_pharm_features fmt (heap s1 ! n)),
              s1\<lparr>heap := heap s1 @ objs1\<rparr>)"
    and rawout1: "\<forall>out. add_pharm_features fmt (heap s1 ! n) = Inr out \<longrightarrow>
                    length objs1 = 4 \<and> objs1 ! 3 = out"
    by blast
  have len1: "length (heap s1) + 3 = n + 4" by (simp add: h1(4))
  have st1: "add_pharm_features_st fmt g n s1
           = (map_sum id (\<lambda>_. n + 4) (add_pharm_features fmt x), s1\<lparr>heap := heap s1 @ objs1\<rparr>)"
    using raw1 unfolding h1(3) len1 .
  have out1: "\<forall>out. add_pharm_features fmt x = Inr out \<longrightarrow> length objs1 = 4 \<and> objs1 ! 3 = out"
    using rawout1 unfolding h1(3) .
  define s2 where "s2 = s\<lparr>heap := h @ x # objs1\<rparr>"
  have s2: "s1\<lparr>heap := heap s1 @ objs1\<rparr> = s2" by (simp add: s1_def s2_def)
  have px: "h ! X = heap s ! X" by (simp add: h_def)
  show ?thesis
  proof (cases "add_pharm_features fmt x")
    case (Inl e)
    then have e1: "add_pharm_features_st fmt g n s1 = (Inl e, s2)"
      using st1 s2 by simp
    have "transform_st pn fmt g nf cf X s = (Inl e, s2)"
      unfolding run1 by (rule then_run_Inl, rule e1)
    moreover have "transform pn fmt nf cf (heap s ! X) = Inl e"
      using Inl by (simp add: transform_def x_def h_def)
    moreover have "transform_notices pn fmt (heap s ! X) = []"
      using Inl by (simp add: transform_notices_def x_def h_def)
    ultimately show ?thesis
      by (intro exI [of _ "Inl e"] exI [of _ "x # objs1"]) (simp add: s2_def h_def)
  next
    case (Inr p)
    with out1 have o1: "length objs1 = 4" "objs1 ! 3 = p" by simp_all
    define y where "y = clean_pharm_features pn map_cols p"
    define s3 where "s3 = s\<lparr>heap := h @ x # objs1 @ [y]\<rparr>"
    have h2: "heap s2 ! (n + 4) = p" "length (heap s2) = n + 5"
      using o1 by (simp_all add: s2_def n_def nth_append)
    have a1: "add_pharm_features_st fmt g n s1 = (Inr (n + 4), s2)"
      using st1 s2 Inr by simp
    have a2: "clean_pharm_features_st pn map_cols (n + 4) s2 = (Inr (n + 5), s3)"
      unfolding clean_pharm_features_st_run h2 y_def [symmetric]
      by (simp add: s2_def s3_def)
    have run2: "transform_st pn fmt g nf cf X s = then_run (add_elemental_ratios_st pn (n + 5)) k3 s3"
      unfolding run1
      by (rule then_run_step, rule a1, simp only: k1_def k2_def, rule then_run_step, rule a2, rule refl)
    have h3: "heap s3 ! (n + 5) = y" "length (heap s3) = n + 6" "printed s3 = printed s"
      "heap s3 = h @ x # objs1 @ [y]"
      using o1 by (simp_all add: s3_def n_def nth_append)
    from add_elemental_ratios_st_run [of pn "n + 5" s3] obtain f' where
      st3: "add_elemental_ratios_st pn (n + 5) s3
          = (map_sum id (\<lambda>_. n + 6) (add_elemental_ratios pn y),
             s3\<lparr>heap := heap s3 @ [f'], printed := printed s3 @ ratio_notices pn y\<rparr>)"
      and out3: "\<forall>out. add_elemental_ratios pn y = Inr out \<longrightarrow> f' = out"
      unfolding h3(1,2) by blast
    define s4 where "s4 = s\<lparr>heap := h @ x # objs1 @ [y, f'], printed := printed s @ ratio_notices pn y\<rparr>"
    have s4: "s3\<lparr>heap := heap s3 @ [f'], printed := printed s3 @ ratio_notices pn y\<rparr> = s4"
      by (simp add: s3_def s4_def)
    have lines: "transform_notices pn fmt (heap s ! X) = ratio_notices pn y"
      using Inr by (simp add: transform_notices_def x_def h_def y_def)
    show ?thesis
    proof (cases "add_elemental_ratios pn y")
      case (Inl e)
      then have e3: "add_elemental_ratios_st pn (n + 5) s3 = (Inl e, s4)"
        using st3 s4 by simp
      have "transform_st pn fmt g nf cf X s = (Inl e, s4)"
        unfolding run2 by (rule then_run_Inl, rule e3)
      moreover have "transform pn fmt nf cf (heap s ! X) = Inl e"
        using Inl \<open>add_pharm_features fmt x = Inr p\<close>
        by (simp add: transform_def x_def [symmetric] px [symmetric] y_def [symmetric])
      ultimately show ?thesis
        by (intro exI [of _ "Inl e"] exI [of _ "x # objs1 @ [y, f']"])
           (simp add: s4_def h_def lines)
    next
      case q: (Inr q)
      with out3 have f': "f' = q" by simp
      define z where "z = fold category_col cf (fold (coerce_col pn) nf q)"
      define use_cols where "use_cols = filter (\<lambda>c. c \<in> set (columns z)) (nf @ cf)"
      define s5 where "s5 = s\<lparr>heap := h @ x # objs1 @ [y, z], printed := printed s @ ratio_notices pn y\<rparr>"
      define s6 where "s6 = s\<lparr>heap := h @ x # objs1 @ [y, z, select_cols use_cols z],
                               printed := printed s @ ratio_notices pn y\<rparr>"
      have a3: "add_elemental_ratios_st pn (n + 5) s3 = (Inr (n + 6), s4)"
        using st3 s4 q by simp
      have h4: "heap s4 ! (n + 6) = q" "n + 6 < length (heap s4)"
        "(heap s4)[n + 6 := v] = h @ x # objs1 @ [y, v]" for v
        using o1 by (simp_all add: s4_def n_def nth_append f' list_update_append)
      have l1: "for_each nf (\<lambda>c. assign (n + 6) (coerce_col pn c)) s4
                 = (Inr (), s4\<lparr>heap := (heap s4)[n + 6 := fold (coerce_col pn) nf (heap s4 ! (n + 6))]\<rparr>)"
        by (rule for_each_assign [OF h4(2)])
      define s4' where "s4' = s4\<lparr>heap := h @ x # objs1 @ [y, fold (coerce_col pn) nf q]\<rparr>"
      have l1': "for_each nf (\<lambda>c. assign (n + 6) (coerce_col pn c)) s4 = (Inr (), s4')"
        unfolding l1 h4 s4'_def ..
      have h4': "heap s4' ! (n + 6) = fold (coerce_col pn) nf q" "n + 6 < length (heap s4')"
        "(heap s4')[n + 6 := v] = h @ x # objs1 @ [y, v]" for v
        using o1 by (simp_all add: s4'_def n_def nth_append list_update_append)
      have l2: "for_each cf (\<lambda>c. assign (n + 6) (category_col c)) s4'
                 = (Inr (), s4'\<lparr>heap := (heap s4')[n + 6 := fold category_col cf (heap s4' ! (n + 6))]\<rparr>)"
        by (rule for_each_assign [OF h4'(2)])
      have l2': "for_each cf (\<lambda>c. assign (n + 6) (category_col c)) s4' = (Inr (), s5)"
        unfolding l2 h4' by (simp add: s4'_def s4_def s5_def z_def)
      have h5: "heap s5 ! (n + 6) = z" "length (heap s5) = n + 7"
        using o1 by (simp_all add: s5_def n_def nth_append)
      have l3: "look (n + 6) (\<lambda>f. filter (\<lambda>c. c \<in> set (columns f)) (nf @ cf)) s5 = (Inr use_cols, s5)"
        by (simp add: look_def h5 use_cols_def)
      have l4: "derive (n + 6) (select_cols use_cols) s5 = (Inr (n + 7), s6)"
        by (simp add: derive_def look_def new_def then_run_def h5) (simp add: s5_def s6_def)
      have k3: "k3 (n + 6) s4 = (Inr (n + 7), s6)"
        unfolding k3_def
        by (rule then_run_step, rule l1', rule then_run_step, rule l2', rule then_run_step, rule l3,
            rule l4)
      have "transform_st pn fmt g nf cf X s = (Inr (n + 7), s6)"
        unfolding run2 by (rule then_run_step, rule a3, rule k3)
      moreover have "transform pn fmt nf cf (heap s ! X) = Inr (select_cols use_cols z)"
        using q \<open>add_pharm_features fmt x = Inr p\<close>
        by (simp add: transform_def x_def [symmetric] px [symmetric] y_def [symmetric]
                      z_def [symmetric] use_cols_def Let_def)
      moreover have "(h @ x # objs1 @ [y, z, select_cols use_cols z]) ! (n + 7) = select_cols use_cols z"
        using o1 by (simp add: n_def nth_append)
      ultimately show ?thesis
        using o1
        by (intro exI [of _ "Inr (n + 7)"] exI [of _ "x # objs1 @ [y, z, select_cols use_cols z]"])
           (simp add: s6_def h_def [symmetric] lines [unfolded h_def [symmetric]] n_def)
    qed
  qed
qed

lemma add_elemental_ratios_total: "\<exists>out. add_elemental_ratios pn df = Inr out"
proof (cases "''C_percent'' \<in> set (columns df)")
  case True
  from add_elemental_ratios_cells [OF True, of pn] show ?thesis by blast
next
  case False
  from add_elemental_ratios_no_carbon [OF False, of pn] show ?thesis by blast
qed

lemma transform_returns:
  assumes "''Target_Phar'' \<in> set (columns (strip_columns X))"
  shows "\<exists>out. transform pn fmt nf cf X = Inr out"
proof -
  from assms obtain p where p: "add_pharm_features fmt (strip_columns X) = Inr p"
    by (simp add: add_pharm_features_def)
  obtain q where q: "add_elemental_ratios pn (clean_pharm_features pn map_cols p) = Inr q"
    using add_elemental_ratios_total by blast
  show ?thesis by (simp add: transform_def p q Let_def)
qed

text \<open>
  Claim C4. \<open>DomainFE.transform\<close> is run twice, one call after the other, on the frame
  object at address \<open>X\<close> of any store that holds the descriptor table at address \<open>g\<close>.
  The frame the first call returns is the value-level function \<open>transform\<close> of the value
  of \<open>X\<close>, so it depends on nothing else in the store; the second call returns an equal
  frame (or both calls raise the same error). Every object that was in the store before
  a call, the frame at \<open>X\<close> and the table among them, is the same after it: the calls
  only add objects. Both calls print the same lines, and that is their only other effect.
\<close>

theorem transform_is_pure:
  assumes "X < length (heap s)" and "g < length (heap s)" and "heap s ! g = pharm_frame"
  shows "case transform_st pn fmt g nf cf X s of (r1, s1) \<Rightarrow>
           case transform_st pn fmt g nf cf X s1 of (r2, s2) \<Rightarrow>
               map_sum id ((!) (heap s1)) r1 = transform pn fmt nf cf (heap s ! X)
             \<and> map_sum id ((!) (heap s2)) r2 = map_sum id ((!) (heap s1)) r1
             \<and> take (length (heap s)) (heap s1) = heap s
             \<and> take (length (heap s1)) (heap s2) = heap s1
             \<and> printed s1 = printed s @ transform_notices pn fmt (heap s ! X)
             \<and> printed s2 = printed s1 @ transform_notices pn fmt (heap s ! X)"
proof -
  let ?v = "transform pn fmt nf cf (heap s ! X)"
  let ?ls = "transform_notices pn fmt (heap s ! X)"
  from transform_st_run [OF assms(3,2), of pn fmt nf cf X] obtain r1 objs1 where
    run1: "transform_st pn fmt g nf cf X s
             = (r1, s\<lparr>heap := heap s @ objs1, printed := printed s @ ?ls\<rparr>)"
    and val1: "case ?v of Inl e \<Rightarrow> r1 = Inl e
               | Inr out \<Rightarrow> \<exists>d. r1 = Inr d \<and> d < length (heap s @ objs1) \<and> (heap s @ objs1) ! d = out"
    by blast
  define s1 where "s1 = s\<lparr>heap := heap s @ objs1, printed := printed s @ ?ls\<rparr>"
  have h1: "heap s1 = heap s @ objs1" "printed s1 = printed s @ ?ls"
    by (simp_all add: s1_def)
  have X1: "heap s1 ! X = heap s ! X" and g1: "heap s1 ! g = pharm_frame" "g < length (heap s1)"
    using assms by (simp_all add: h1 nth_append)
  from transform_st_run [OF g1, of pn fmt nf cf X] obtain r2 objs2 where
    run2: "transform_st pn fmt g nf cf X s1
             = (r2, s1\<lparr>heap := heap s1 @ objs2, printed := printed s1 @ ?ls\<rparr>)"
    and val2: "case ?v of Inl e \<Rightarrow> r2 = Inl e
               | Inr out \<Rightarrow> \<exists>d. r2 = Inr d \<and> d < length (heap s1 @ objs2) \<and> (heap s1 @ objs2) ! d = out"
    unfolding X1 by blast
  define s2 where "s2 = s1\<lparr>heap := heap s1 @ objs2, printed := printed s1 @ ?ls\<rparr>"
  have h2: "heap s2 = heap s1 @ objs2" "printed s2 = printed s1 @ ?ls"
    by (simp_all add: s2_def)
  have v1: "map_sum id ((!) (heap s1)) r1 = ?v"
    using val1 unfolding h1(1) [symmetric] by (cases ?v) auto
  have v2: "map_sum id ((!) (heap s2)) r2 = ?v"
    using val2 unfolding h2(1) [symmetric] by (cases ?v) auto
  have t1: "take (length (heap s)) (heap s1) = heap s" by (simp add: h1)
  have t2: "take (length (heap s1)) (heap s2) = heap s1" by (simp add: h2)
  have v2': "map_sum id ((!) (heap s2)) r2 = map_sum id ((!) (heap s1)) r1"
    by (simp only: v1 v2)
  have e1: "transform_st pn fmt g nf cf X s = (r1, s1)"
    using run1 by (simp only: s1_def)
  have e2: "transform_st pn fmt g nf cf X s1 = (r2, s2)"
    using run2 by (simp only: s2_def)
  show ?thesis
    unfolding e1 prod.case e2
    by (intro conjI v1 v2' t1 t2 h1(2) h2(2))
qed

lemma store_example_heap: "heap store_example = [pharm_frame, join_example]"
  by (simp add: store_example_def)

lemma nth_of_take: "take n xs = ys \<Longrightarrow> i < n \<Longrightarrow> xs ! i = ys ! i"
  by auto

text \<open>
  The store with the table at address 0 and the join example at address 1: the call
  returns a frame, the second call returns an equal one, and the two objects are as
  before.
\<close>

theorem transform_is_pure_witness:
  "(1::nat) < length (heap store_example) \<and> (0::nat) < length (heap store_example)
   \<and> heap store_example ! 0 = pharm_frame
   \<and> (case transform_st no_text no_floats 0 [''E'', ''V''] [] 1 store_example of (r1, s1) \<Rightarrow>
         case transform_st no_text no_floats 0 [''E'', ''V''] [] 1 s1 of (r2, s2) \<Rightarrow>
             \<not> isl r1
           \<and> map_sum id ((!) (heap s2)) r2 = map_sum id ((!) (heap s1)) r1
           \<and> heap s2 ! 1 = join_example \<and> heap s2 ! 0 = pharm_frame
           \<and> printed s2 = printed s1 @ printed s1)"
proof -
  have a: "(1::nat) < length (heap store_example)" "(0::nat) < length (heap store_example)"
    "heap store_example ! 0 = pharm_frame"
    by (simp_all add: store_example_heap)
  have X: "heap store_example ! 1 = join_example" by (simp add: store_example_heap)
  have p0: "printed store_example = []" by (simp add: store_example_def)
  have "''Target_Phar'' \<in> set (columns (strip_columns join_example))" by code_simp
  from transform_returns [OF this, of no_text no_floats "[''E'', ''V'']" "[]"] obtain out where
    out: "transform no_text no_floats [''E'', ''V''] [] join_example = Inr out" by blast
  obtain r1 s1 where run1: "transform_st no_text no_floats 0 [''E'', ''V''] [] 1 store_example = (r1, s1)"
    by (cases "transform_st no_text no_floats 0 [''E'', ''V''] [] 1 store_example")
  obtain r2 s2 where run2: "transform_st no_text no_floats 0 [''E'', ''V''] [] 1 s1 = (r2, s2)"
    by (cases "transform_st no_text no_floats 0 [''E'', ''V''] [] 1 s1")
  from transform_is_pure [OF a, of no_text no_floats "[''E'', ''V'']" "[]"]
  have v1: "map_sum id ((!) (heap s1)) r1 = Inr out"
    and v2: "map_sum id ((!) (heap s2)) r2 = map_sum id ((!) (heap s1)) r1"
    and t1: "take (length (heap store_example)) (heap s1) = heap store_example"
    and t2: "take (length (heap s1)) (heap s2) = heap s1"
    and p1: "printed s1 = transform_notices no_text no_floats join_example"
    and p2: "printed s2 = printed s1 @ transform_notices no_text no_floats join_example"
    unfolding run1 prod.case run2 X out p0 by simp_all
  have r1: "\<not> isl r1" using v1 by (cases r1) simp_all
  have l1: "length (heap store_example) \<le> length (heap s1)"
    using arg_cong [OF t1, of length] by simp
  have "heap s1 ! 1 = join_example" "heap s1 ! 0 = pharm_frame"
    using nth_of_take [OF t1, of 1] nth_of_take [OF t1, of 0] a X by simp_all
  moreover have l1': "1 < length (heap s1)" "0 < length (heap s1)"
    using l1 a(1) by linarith+
  moreover have "heap s2 ! 1 = heap s1 ! 1" "heap s2 ! 0 = heap s1 ! 0"
    by (rule nth_of_take [OF t2 l1'(1)], rule nth_of_take [OF t2 l1'(2)])
  ultimately have k: "heap s2 ! 1 = join_example" "heap s2 ! 0 = pharm_frame" by simp_all
  from a r1 v2 k p1 p2 show ?thesis
    unfolding run1 prod.case run2 by simp
qed

end
